theory Spec2Isabelle
  imports Main "HOL-Library.Word" "HOL-Library.Char_ord"
begin

section \<open>Token kinds\<close>

text \<open>
  The lexer package numbers its token kinds with \<^verbatim>\<open>iota\<close>:
  \<^verbatim>\<open>type TokenType uint16\<close>, \<^verbatim>\<open>ILLEGAL TokenType = iota\<close>, \<^verbatim>\<open>EOF\<close>, ...
  Each constant below carries the number the Go compiler assigns to it (the two markers
  \<^verbatim>\<open>kwSTART\<close> and \<^verbatim>\<open>kwEND\<close> take a number as well). Three names are
  reserved words of the term language here and carry the suffix \<open>_tok\<close>:
  \<^verbatim>\<open>INT\<close>, \<^verbatim>\<open>ALL\<close> and \<^verbatim>\<open>CHAR\<close>.
\<close>

type_synonym TokenType = nat

named_theorems tok_defs

definition ILLEGAL :: TokenType where [tok_defs]: "ILLEGAL = 0"
definition EOF :: TokenType where [tok_defs]: "EOF = 1"
definition COMMENT :: TokenType where [tok_defs]: "COMMENT = 2"
definition WHITESPACE :: TokenType where [tok_defs]: "WHITESPACE = 3"
definition IDENT :: TokenType where [tok_defs]: "IDENT = 4"
definition INT_tok :: TokenType where [tok_defs]: "INT_tok = 5"
definition FLOAT :: TokenType where [tok_defs]: "FLOAT = 6"
definition STRING :: TokenType where [tok_defs]: "STRING = 7"
definition BACKTICK :: TokenType where [tok_defs]: "BACKTICK = 8"
definition DQUOTE :: TokenType where [tok_defs]: "DQUOTE = 9"
definition HEXLIT :: TokenType where [tok_defs]: "HEXLIT = 10"
definition BITLIT :: TokenType where [tok_defs]: "BITLIT = 11"
definition NAMEDPARAM :: TokenType where [tok_defs]: "NAMEDPARAM = 12"
definition LPAREN :: TokenType where [tok_defs]: "LPAREN = 13"
definition RPAREN :: TokenType where [tok_defs]: "RPAREN = 14"
definition LBRACE :: TokenType where [tok_defs]: "LBRACE = 15"
definition RBRACE :: TokenType where [tok_defs]: "RBRACE = 16"
definition LBRACKET :: TokenType where [tok_defs]: "LBRACKET = 17"
definition RBRACKET :: TokenType where [tok_defs]: "RBRACKET = 18"
definition COMMA :: TokenType where [tok_defs]: "COMMA = 19"
definition SEMICOLON :: TokenType where [tok_defs]: "SEMICOLON = 20"
definition COLON :: TokenType where [tok_defs]: "COLON = 21"
definition DOT :: TokenType where [tok_defs]: "DOT = 22"
definition DOTDOT :: TokenType where [tok_defs]: "DOTDOT = 23"
definition STAR :: TokenType where [tok_defs]: "STAR = 24"
definition PLUS :: TokenType where [tok_defs]: "PLUS = 25"
definition MINUS :: TokenType where [tok_defs]: "MINUS = 26"
definition SLASH :: TokenType where [tok_defs]: "SLASH = 27"
definition PERCENT :: TokenType where [tok_defs]: "PERCENT = 28"
definition AMPERSAND :: TokenType where [tok_defs]: "AMPERSAND = 29"
definition PIPE :: TokenType where [tok_defs]: "PIPE = 30"
definition CARET :: TokenType where [tok_defs]: "CARET = 31"
definition TILDE :: TokenType where [tok_defs]: "TILDE = 32"
definition BANG :: TokenType where [tok_defs]: "BANG = 33"
definition QUESTION :: TokenType where [tok_defs]: "QUESTION = 34"
definition AT :: TokenType where [tok_defs]: "AT = 35"
definition HASH :: TokenType where [tok_defs]: "HASH = 36"
definition DOLLAR :: TokenType where [tok_defs]: "DOLLAR = 37"
definition EQ :: TokenType where [tok_defs]: "EQ = 38"
definition NEQ :: TokenType where [tok_defs]: "NEQ = 39"
definition LT :: TokenType where [tok_defs]: "LT = 40"
definition GT :: TokenType where [tok_defs]: "GT = 41"
definition LTE :: TokenType where [tok_defs]: "LTE = 42"
definition GTE :: TokenType where [tok_defs]: "GTE = 43"
definition LSHIFT :: TokenType where [tok_defs]: "LSHIFT = 44"
definition RSHIFT :: TokenType where [tok_defs]: "RSHIFT = 45"
definition DBAR :: TokenType where [tok_defs]: "DBAR = 46"
definition DAMP :: TokenType where [tok_defs]: "DAMP = 47"
definition DARROW :: TokenType where [tok_defs]: "DARROW = 48"
definition ARROW :: TokenType where [tok_defs]: "ARROW = 49"
definition DARROW2 :: TokenType where [tok_defs]: "DARROW2 = 50"
definition HASHARROW :: TokenType where [tok_defs]: "HASHARROW = 51"
definition HASHDARROW :: TokenType where [tok_defs]: "HASHDARROW = 52"
definition ATGT :: TokenType where [tok_defs]: "ATGT = 53"
definition LTAT :: TokenType where [tok_defs]: "LTAT = 54"
definition QMARKPIPE :: TokenType where [tok_defs]: "QMARKPIPE = 55"
definition QMARKAMP :: TokenType where [tok_defs]: "QMARKAMP = 56"
definition kwSTART :: TokenType where [tok_defs]: "kwSTART = 57"
definition ADD :: TokenType where [tok_defs]: "ADD = 58"
definition AFTER :: TokenType where [tok_defs]: "AFTER = 59"
definition ALL_tok :: TokenType where [tok_defs]: "ALL_tok = 60"
definition ALTER :: TokenType where [tok_defs]: "ALTER = 61"
definition ANALYZE :: TokenType where [tok_defs]: "ANALYZE = 62"
definition AND :: TokenType where [tok_defs]: "AND = 63"
definition AS :: TokenType where [tok_defs]: "AS = 64"
definition ASC :: TokenType where [tok_defs]: "ASC = 65"
definition AUTO_INCREMENT :: TokenType where [tok_defs]: "AUTO_INCREMENT = 66"
definition BETWEEN :: TokenType where [tok_defs]: "BETWEEN = 67"
definition BY :: TokenType where [tok_defs]: "BY = 68"
definition CASCADE :: TokenType where [tok_defs]: "CASCADE = 69"
definition CASE :: TokenType where [tok_defs]: "CASE = 70"
definition CAST :: TokenType where [tok_defs]: "CAST = 71"
definition CHANGE :: TokenType where [tok_defs]: "CHANGE = 72"
definition CHARACTER :: TokenType where [tok_defs]: "CHARACTER = 73"
definition CHECK :: TokenType where [tok_defs]: "CHECK = 74"
definition COLLATE :: TokenType where [tok_defs]: "COLLATE = 75"
definition COLUMN :: TokenType where [tok_defs]: "COLUMN = 76"
definition COMMENT_KW :: TokenType where [tok_defs]: "COMMENT_KW = 77"
definition CONSTRAINT :: TokenType where [tok_defs]: "CONSTRAINT = 78"
definition CREATE :: TokenType where [tok_defs]: "CREATE = 79"
definition CROSS :: TokenType where [tok_defs]: "CROSS = 80"
definition DATABASE :: TokenType where [tok_defs]: "DATABASE = 81"
definition DEFAULT :: TokenType where [tok_defs]: "DEFAULT = 82"
definition DEFERRABLE :: TokenType where [tok_defs]: "DEFERRABLE = 83"
definition DEFERRED :: TokenType where [tok_defs]: "DEFERRED = 84"
definition DELETE :: TokenType where [tok_defs]: "DELETE = 85"
definition DESC :: TokenType where [tok_defs]: "DESC = 86"
definition DISTINCT :: TokenType where [tok_defs]: "DISTINCT = 87"
definition DROP :: TokenType where [tok_defs]: "DROP = 88"
definition ELSE :: TokenType where [tok_defs]: "ELSE = 89"
definition END :: TokenType where [tok_defs]: "END = 90"
definition ENGINE :: TokenType where [tok_defs]: "ENGINE = 91"
definition ESCAPE :: TokenType where [tok_defs]: "ESCAPE = 92"
definition EXCEPT :: TokenType where [tok_defs]: "EXCEPT = 93"
definition EXISTS :: TokenType where [tok_defs]: "EXISTS = 94"
definition EXPLAIN :: TokenType where [tok_defs]: "EXPLAIN = 95"
definition FALSE_KW :: TokenType where [tok_defs]: "FALSE_KW = 96"
definition FIRST :: TokenType where [tok_defs]: "FIRST = 97"
definition FOR :: TokenType where [tok_defs]: "FOR = 98"
definition FOREIGN :: TokenType where [tok_defs]: "FOREIGN = 99"
definition FROM :: TokenType where [tok_defs]: "FROM = 100"
definition FULL :: TokenType where [tok_defs]: "FULL = 101"
definition FUNCTION :: TokenType where [tok_defs]: "FUNCTION = 102"
definition GROUP :: TokenType where [tok_defs]: "GROUP = 103"
definition HAVING :: TokenType where [tok_defs]: "HAVING = 104"
definition IF :: TokenType where [tok_defs]: "IF = 105"
definition IGNORE :: TokenType where [tok_defs]: "IGNORE = 106"
definition IN :: TokenType where [tok_defs]: "IN = 107"
definition INDEX :: TokenType where [tok_defs]: "INDEX = 108"
definition INNER :: TokenType where [tok_defs]: "INNER = 109"
definition INSERT :: TokenType where [tok_defs]: "INSERT = 110"
definition INTERSECT :: TokenType where [tok_defs]: "INTERSECT = 111"
definition INTO :: TokenType where [tok_defs]: "INTO = 112"
definition IS :: TokenType where [tok_defs]: "IS = 113"
definition JOIN :: TokenType where [tok_defs]: "JOIN = 114"
definition KEY :: TokenType where [tok_defs]: "KEY = 115"
definition LAST :: TokenType where [tok_defs]: "LAST = 116"
definition LEFT :: TokenType where [tok_defs]: "LEFT = 117"
definition LIKE :: TokenType where [tok_defs]: "LIKE = 118"
definition LIMIT :: TokenType where [tok_defs]: "LIMIT = 119"
definition MATCH :: TokenType where [tok_defs]: "MATCH = 120"
definition NATURAL :: TokenType where [tok_defs]: "NATURAL = 121"
definition NO :: TokenType where [tok_defs]: "NO = 122"
definition NOT :: TokenType where [tok_defs]: "NOT = 123"
definition NULL_KW :: TokenType where [tok_defs]: "NULL_KW = 124"
definition OFFSET :: TokenType where [tok_defs]: "OFFSET = 125"
definition ON :: TokenType where [tok_defs]: "ON = 126"
definition OR :: TokenType where [tok_defs]: "OR = 127"
definition ORDER :: TokenType where [tok_defs]: "ORDER = 128"
definition OUTER :: TokenType where [tok_defs]: "OUTER = 129"
definition PARTITION :: TokenType where [tok_defs]: "PARTITION = 130"
definition PRIMARY :: TokenType where [tok_defs]: "PRIMARY = 131"
definition PROCEDURE :: TokenType where [tok_defs]: "PROCEDURE = 132"
definition RECURSIVE :: TokenType where [tok_defs]: "RECURSIVE = 133"
definition REFERENCES :: TokenType where [tok_defs]: "REFERENCES = 134"
definition RENAME :: TokenType where [tok_defs]: "RENAME = 135"
definition REPLACE :: TokenType where [tok_defs]: "REPLACE = 136"
definition RESTRICT :: TokenType where [tok_defs]: "RESTRICT = 137"
definition RIGHT :: TokenType where [tok_defs]: "RIGHT = 138"
definition ROLLBACK :: TokenType where [tok_defs]: "ROLLBACK = 139"
definition SELECT :: TokenType where [tok_defs]: "SELECT = 140"
definition SET :: TokenType where [tok_defs]: "SET = 141"
definition SHOW :: TokenType where [tok_defs]: "SHOW = 142"
definition TABLE :: TokenType where [tok_defs]: "TABLE = 143"
definition TABLES :: TokenType where [tok_defs]: "TABLES = 144"
definition THEN :: TokenType where [tok_defs]: "THEN = 145"
definition TO :: TokenType where [tok_defs]: "TO = 146"
definition TRANSACTION :: TokenType where [tok_defs]: "TRANSACTION = 147"
definition TRIGGER :: TokenType where [tok_defs]: "TRIGGER = 148"
definition TRUE_KW :: TokenType where [tok_defs]: "TRUE_KW = 149"
definition TRUNCATE :: TokenType where [tok_defs]: "TRUNCATE = 150"
definition UNION :: TokenType where [tok_defs]: "UNION = 151"
definition UNIQUE :: TokenType where [tok_defs]: "UNIQUE = 152"
definition UPDATE :: TokenType where [tok_defs]: "UPDATE = 153"
definition USE :: TokenType where [tok_defs]: "USE = 154"
definition USING :: TokenType where [tok_defs]: "USING = 155"
definition VALUES :: TokenType where [tok_defs]: "VALUES = 156"
definition VIEW :: TokenType where [tok_defs]: "VIEW = 157"
definition WHEN :: TokenType where [tok_defs]: "WHEN = 158"
definition WHERE :: TokenType where [tok_defs]: "WHERE = 159"
definition WITH :: TokenType where [tok_defs]: "WITH = 160"
definition WITHOUT :: TokenType where [tok_defs]: "WITHOUT = 161"
definition kwEND :: TokenType where [tok_defs]: "kwEND = 162"
definition BIGINT :: TokenType where [tok_defs]: "BIGINT = 163"
definition BINARY :: TokenType where [tok_defs]: "BINARY = 164"
definition BLOB :: TokenType where [tok_defs]: "BLOB = 165"
definition BOOLEAN :: TokenType where [tok_defs]: "BOOLEAN = 166"
definition CHAR_tok :: TokenType where [tok_defs]: "CHAR_tok = 167"
definition DATE :: TokenType where [tok_defs]: "DATE = 168"
definition DATETIME :: TokenType where [tok_defs]: "DATETIME = 169"
definition DECIMAL :: TokenType where [tok_defs]: "DECIMAL = 170"
definition DOUBLE :: TokenType where [tok_defs]: "DOUBLE = 171"
definition ENUM :: TokenType where [tok_defs]: "ENUM = 172"
definition FLOAT_KW :: TokenType where [tok_defs]: "FLOAT_KW = 173"
definition INT_KW :: TokenType where [tok_defs]: "INT_KW = 174"
definition INTEGER :: TokenType where [tok_defs]: "INTEGER = 175"
definition JSON :: TokenType where [tok_defs]: "JSON = 176"
definition JSONB :: TokenType where [tok_defs]: "JSONB = 177"
definition LONGBLOB :: TokenType where [tok_defs]: "LONGBLOB = 178"
definition LONGTEXT :: TokenType where [tok_defs]: "LONGTEXT = 179"
definition MEDIUMBLOB :: TokenType where [tok_defs]: "MEDIUMBLOB = 180"
definition MEDIUMINT :: TokenType where [tok_defs]: "MEDIUMINT = 181"
definition MEDIUMTEXT :: TokenType where [tok_defs]: "MEDIUMTEXT = 182"
definition NCHAR :: TokenType where [tok_defs]: "NCHAR = 183"
definition NUMERIC :: TokenType where [tok_defs]: "NUMERIC = 184"
definition REAL :: TokenType where [tok_defs]: "REAL = 185"
definition SMALLINT :: TokenType where [tok_defs]: "SMALLINT = 186"
definition TEXT :: TokenType where [tok_defs]: "TEXT = 187"
definition TIME :: TokenType where [tok_defs]: "TIME = 188"
definition TIMESTAMP :: TokenType where [tok_defs]: "TIMESTAMP = 189"
definition TINYBLOB :: TokenType where [tok_defs]: "TINYBLOB = 190"
definition TINYINT :: TokenType where [tok_defs]: "TINYINT = 191"
definition TINYTEXT :: TokenType where [tok_defs]: "TINYTEXT = 192"
definition VARBINARY :: TokenType where [tok_defs]: "VARBINARY = 193"
definition VARCHAR :: TokenType where [tok_defs]: "VARCHAR = 194"
definition YEAR :: TokenType where [tok_defs]: "YEAR = 195"

section \<open>Keyword table\<close>

text \<open>\<^verbatim>\<open>kwEntry\<close> is a pair of the lowercase word and its token kind; \<open>words\<close> is the
  list literal of the package's \<^verbatim>\<open>init\<close>, in source order.\<close>

type_synonym kwEntry = "string \<times> TokenType"

definition words :: "kwEntry list" where
  "words = [
    (''add'', ADD),
    (''after'', AFTER),
    (''all'', ALL_tok),
    (''alter'', ALTER),
    (''analyze'', ANALYZE),
    (''and'', AND),
    (''as'', AS),
    (''asc'', ASC),
    (''auto_increment'', AUTO_INCREMENT),
    (''between'', BETWEEN),
    (''bigint'', BIGINT),
    (''binary'', BINARY),
    (''blob'', BLOB),
    (''boolean'', BOOLEAN),
    (''by'', BY),
    (''cascade'', CASCADE),
    (''case'', CASE),
    (''cast'', CAST),
    (''change'', CHANGE),
    (''char'', CHAR_tok),
    (''character'', CHARACTER),
    (''check'', CHECK),
    (''collate'', COLLATE),
    (''column'', COLUMN),
    (''comment'', COMMENT_KW),
    (''constraint'', CONSTRAINT),
    (''create'', CREATE),
    (''cross'', CROSS),
    (''database'', DATABASE),
    (''date'', DATE),
    (''datetime'', DATETIME),
    (''decimal'', DECIMAL),
    (''default'', DEFAULT),
    (''deferrable'', DEFERRABLE),
    (''deferred'', DEFERRED),
    (''delete'', DELETE),
    (''desc'', DESC),
    (''distinct'', DISTINCT),
    (''double'', DOUBLE),
    (''drop'', DROP),
    (''else'', ELSE),
    (''end'', END),
    (''engine'', ENGINE),
    (''enum'', ENUM),
    (''escape'', ESCAPE),
    (''except'', EXCEPT),
    (''exists'', EXISTS),
    (''explain'', EXPLAIN),
    (''false'', FALSE_KW),
    (''first'', FIRST),
    (''float'', FLOAT_KW),
    (''for'', FOR),
    (''foreign'', FOREIGN),
    (''from'', FROM),
    (''full'', FULL),
    (''function'', FUNCTION),
    (''group'', GROUP),
    (''having'', HAVING),
    (''if'', IF),
    (''ignore'', IGNORE),
    (''in'', IN),
    (''index'', INDEX),
    (''inner'', INNER),
    (''insert'', INSERT),
    (''int'', INT_KW),
    (''integer'', INTEGER),
    (''intersect'', INTERSECT),
    (''into'', INTO),
    (''is'', IS),
    (''join'', JOIN),
    (''json'', JSON),
    (''jsonb'', JSONB),
    (''key'', KEY),
    (''last'', LAST),
    (''left'', LEFT),
    (''like'', LIKE),
    (''limit'', LIMIT),
    (''longblob'', LONGBLOB),
    (''longtext'', LONGTEXT),
    (''match'', MATCH),
    (''mediumblob'', MEDIUMBLOB),
    (''mediumint'', MEDIUMINT),
    (''mediumtext'', MEDIUMTEXT),
    (''natural'', NATURAL),
    (''nchar'', NCHAR),
    (''no'', NO),
    (''not'', NOT),
    (''null'', NULL_KW),
    (''numeric'', NUMERIC),
    (''offset'', OFFSET),
    (''on'', ON),
    (''or'', OR),
    (''order'', ORDER),
    (''outer'', OUTER),
    (''partition'', PARTITION),
    (''primary'', PRIMARY),
    (''procedure'', PROCEDURE),
    (''real'', REAL),
    (''recursive'', RECURSIVE),
    (''references'', REFERENCES),
    (''rename'', RENAME),
    (''replace'', REPLACE),
    (''restrict'', RESTRICT),
    (''right'', RIGHT),
    (''rollback'', ROLLBACK),
    (''select'', SELECT),
    (''set'', SET),
    (''show'', SHOW),
    (''smallint'', SMALLINT),
    (''table'', TABLE),
    (''tables'', TABLES),
    (''text'', TEXT),
    (''then'', THEN),
    (''time'', TIME),
    (''timestamp'', TIMESTAMP),
    (''tinyblob'', TINYBLOB),
    (''tinyint'', TINYINT),
    (''tinytext'', TINYTEXT),
    (''to'', TO),
    (''transaction'', TRANSACTION),
    (''trigger'', TRIGGER),
    (''true'', TRUE_KW),
    (''truncate'', TRUNCATE),
    (''union'', UNION),
    (''unique'', UNIQUE),
    (''update'', UPDATE),
    (''use'', USE),
    (''using'', USING),
    (''values'', VALUES),
    (''varbinary'', VARBINARY),
    (''varchar'', VARCHAR),
    (''view'', VIEW),
    (''when'', WHEN),
    (''where'', WHERE),
    (''with'', WITH),
    (''without'', WITHOUT),
    (''year'', YEAR)]"

text \<open>\<^verbatim>\<open>keywordsByLen [32][]kwEntry\<close>: \<^verbatim>\<open>init\<close> appends every entry whose length is
  below 32 to the bucket of its length, in the order of \<open>words\<close>.\<close>

definition keywordsByLen :: "kwEntry list list" where
  "keywordsByLen = map (\<lambda>l. filter (\<lambda>e. length (fst e) = l) words) [0..<32]"

text \<open>\<^verbatim>\<open>bytesEqualString\<close> compares the lengths and then the bytes one by one, which is
  equality of the two byte sequences.\<close>

definition bytesEqualString :: "string \<Rightarrow> string \<Rightarrow> bool" where
  "bytesEqualString b s \<longleftrightarrow> b = s"

fun scanBucket :: "string \<Rightarrow> kwEntry list \<Rightarrow> TokenType" where
  "scanBucket val [] = IDENT"
| "scanBucket val (e # es) = (if bytesEqualString val (fst e) then snd e else scanBucket val es)"

definition lookupKeyword :: "string \<Rightarrow> TokenType" where
  "lookupKeyword val =
     (let l = length val in
      if l = 0 \<or> l \<ge> length keywordsByLen then IDENT
      else scanBucket val (keywordsByLen ! l))"

section \<open>Lexer\<close>

text \<open>Bytes are \<open>char\<close> (eight bits), a source is a \<open>string\<close>. \<^verbatim>\<open>Pos int32\<close>,
  \<^verbatim>\<open>Line uint32\<close> and \<^verbatim>\<open>Col uint32\<close> are 32-bit words; \<open>Pos\<close> is read as a signed
  number with \<open>sint\<close>. The cursor \<^verbatim>\<open>pos int\<close> is an index into the source.\<close>

record Token =
  Raw :: string
  Type :: TokenType
  Pos :: "32 word"
  Line :: "32 word"
  Col :: "32 word"

text \<open>The \<^verbatim>\<open>scratch\<close> buffer of the Go struct is written and read inside one call of
  \<^verbatim>\<open>lexIdent\<close> only; the model keeps it local to that function.\<close>

record Lexer =
  src :: string
  pos :: nat
  line :: "32 word"
  col :: "32 word"

definition New :: "string \<Rightarrow> Lexer" where
  "New s = \<lparr>src = s, pos = 0, line = 1, col = 1\<rparr>"

definition NewString :: "string \<Rightarrow> Lexer" where
  "NewString s = \<lparr>src = s, pos = 0, line = 1, col = 1\<rparr>"

subsection \<open>Character classes\<close>

definition isSpace :: "char \<Rightarrow> bool" where
  "isSpace c \<longleftrightarrow> c = CHR '' '' \<or> c = CHR 0x09 \<or> c = CHR 0x0B \<or> c = CHR 0x0C"

definition isIdentCont :: "char \<Rightarrow> bool" where
  "isIdentCont c \<longleftrightarrow> (CHR ''a'' \<le> c \<and> c \<le> CHR ''z'') \<or> (CHR ''A'' \<le> c \<and> c \<le> CHR ''Z'')
     \<or> (CHR ''0'' \<le> c \<and> c \<le> CHR ''9'') \<or> c = CHR ''_'' \<or> c = CHR ''$''"

definition isAlpha :: "char \<Rightarrow> bool" where
  "isAlpha c \<longleftrightarrow> (CHR ''a'' \<le> c \<and> c \<le> CHR ''z'') \<or> (CHR ''A'' \<le> c \<and> c \<le> CHR ''Z'') \<or> c = CHR ''_''"

definition isDigit :: "char \<Rightarrow> bool" where
  "isDigit c \<longleftrightarrow> CHR ''0'' \<le> c \<and> c \<le> CHR ''9''"

definition isHexDigit :: "char \<Rightarrow> bool" where
  "isHexDigit c \<longleftrightarrow> (CHR ''0'' \<le> c \<and> c \<le> CHR ''9'') \<or> (CHR ''a'' \<le> c \<and> c \<le> CHR ''f'')
     \<or> (CHR ''A'' \<le> c \<and> c \<le> CHR ''F'')"

text \<open>\<^verbatim>\<open>c + 32\<close> on an upper-case letter, as in the lowercasing loop of \<^verbatim>\<open>lexIdent\<close>.\<close>

definition lowerByte :: "char \<Rightarrow> char" where
  "lowerByte c = (if CHR ''A'' \<le> c \<and> c \<le> CHR ''Z'' then char_of (of_char c + (32::nat)) else c)"

subsection \<open>The standard library's rune decoder\<close>

text \<open>\<^verbatim>\<open>utf8.DecodeRune\<close> belongs to the Go standard library. The lexer uses only the
  size it returns, which is modelled here after the library's tables: 1 for an ASCII byte, for
  an invalid lead byte and for a truncated or malformed sequence, otherwise the length 2, 3 or 4
  announced by the lead byte; 0 for an empty slice.\<close>

definition contByte :: "nat \<Rightarrow> nat \<Rightarrow> string \<Rightarrow> nat \<Rightarrow> bool" where
  "contByte lo hi p i \<longleftrightarrow> lo \<le> (of_char (p ! i) :: nat) \<and> (of_char (p ! i) :: nat) \<le> hi"

definition seqSize :: "nat \<Rightarrow> nat \<Rightarrow> nat \<Rightarrow> string \<Rightarrow> nat" where
  "seqSize sz lo hi p =
     (if length p < sz then 1
      else if \<not> contByte lo hi p 1 then 1
      else if sz \<le> 2 then 2
      else if \<not> contByte 0x80 0xBF p 2 then 1
      else if sz \<le> 3 then 3
      else if \<not> contByte 0x80 0xBF p 3 then 1
      else 4)"

definition decodeRuneSize :: "string \<Rightarrow> nat" where
  "decodeRuneSize p =
     (if p = [] then 0
      else let p0 = (of_char (p ! 0) :: nat) in
        if p0 < 0xC2 then 1
        else if p0 \<le> 0xDF then seqSize 2 0x80 0xBF p
        else if p0 = 0xE0 then seqSize 3 0xA0 0xBF p
        else if p0 \<le> 0xEC then seqSize 3 0x80 0xBF p
        else if p0 = 0xED then seqSize 3 0x80 0x9F p
        else if p0 \<le> 0xEF then seqSize 3 0x80 0xBF p
        else if p0 = 0xF0 then seqSize 4 0x90 0xBF p
        else if p0 \<le> 0xF3 then seqSize 4 0x80 0xBF p
        else if p0 = 0xF4 then seqSize 4 0x80 0x8F p
        else 1)"

subsection \<open>Cursor movement and the scanning loops\<close>

text \<open>\<^verbatim>\<open>l.pos++; l.col++\<close> (the closure \<^verbatim>\<open>advance\<close> of \<^verbatim>\<open>lexPunct\<close>, and the
  same two statements wherever they occur).\<close>

definition advance :: "Lexer \<Rightarrow> Lexer" where
  "advance l = l\<lparr>pos := pos l + 1, col := col l + 1\<rparr>"

text \<open>\<^verbatim>\<open>l.pos += 2; l.col += 2\<close>.\<close>

definition advance2 :: "Lexer \<Rightarrow> Lexer" where
  "advance2 l = l\<lparr>pos := pos l + 2, col := col l + 2\<rparr>"

text \<open>The closure \<^verbatim>\<open>peek\<close> of \<^verbatim>\<open>lexPunct\<close>: the byte under the cursor, 0 at the end.\<close>

definition peek :: "Lexer \<Rightarrow> char" where
  "peek l = (if pos l < length (src l) then src l ! pos l else CHR 0x00)"

text \<open>The loops of the form
  \<^verbatim>\<open>for l.pos < len(l.src) && P(l.src[l.pos]) { l.pos++; l.col++ }\<close>
  occur with several predicates \<open>P\<close>; one recursive function serves them all.\<close>

function scanWhile :: "(char \<Rightarrow> bool) \<Rightarrow> Lexer \<Rightarrow> Lexer" where
  "scanWhile P l =
     (if pos l < length (src l) \<and> P (src l ! pos l) then scanWhile P (advance l) else l)"
  by pat_completeness auto
termination
  by (relation "measure (\<lambda>(P, l). length (src l) - pos l)") (auto simp: advance_def)

declare scanWhile.simps [simp del]

text \<open>The body of the block comment loop, entered after \<^verbatim>\<open>/*\<close> has been consumed.\<close>

function skipBlockComment :: "Lexer \<Rightarrow> Lexer" where
  "skipBlockComment l =
     (if pos l + 1 < length (src l) then
        if src l ! pos l = CHR 0x0A then
          skipBlockComment (l\<lparr>line := line l + 1, col := 1, pos := pos l + 1\<rparr>)
        else if src l ! pos l = CHR ''*'' \<and> src l ! (pos l + 1) = CHR ''/'' then
          advance2 l
        else skipBlockComment (advance l)
      else l)"
  by pat_completeness auto
termination
  by (relation "measure (\<lambda>l. length (src l) - pos l)") (auto simp: advance_def)

declare skipBlockComment.simps [simp del]

lemma decodeRuneSize_pos: "p \<noteq> [] \<Longrightarrow> 0 < decodeRuneSize p"
  by (simp add: decodeRuneSize_def seqSize_def Let_def)

lemma seqSize_le:
  assumes "2 \<le> sz" and "p \<noteq> []"
  shows "seqSize sz lo hi p \<le> length p"
proof -
  from assms(2) have "1 \<le> length p" by (cases p) simp_all
  with assms(1) show ?thesis unfolding seqSize_def by (simp split: if_splits)
qed

lemma decodeRuneSize_le:
  assumes "p \<noteq> []"
  shows "decodeRuneSize p \<le> length p"
proof -
  from assms have "1 \<le> length p" by (cases p) simp_all
  moreover have "seqSize 2 lo hi p \<le> length p" "seqSize 3 lo hi p \<le> length p"
    "seqSize 4 lo hi p \<le> length p" for lo hi
    using assms by (simp_all add: seqSize_le)
  ultimately show ?thesis
    using assms unfolding decodeRuneSize_def Let_def by (simp split: if_splits)
qed

text \<open>One iteration of the loop of \<^verbatim>\<open>lexQuoted\<close> at a byte \<open>c\<close> under the cursor: the
  flag tells whether the loop goes on (\<^verbatim>\<open>continue\<close>, or the end of the body) or stops
  (\<^verbatim>\<open>break\<close>).\<close>

definition lexQuotedStep :: "char \<Rightarrow> Lexer \<Rightarrow> bool \<times> Lexer" where
  "lexQuotedStep delim l =
     (let c = src l ! pos l in
      if c = delim then
        let l1 = advance l in
        if pos l1 < length (src l1) \<and> src l1 ! pos l1 = delim then (True, advance l1)
        else (False, l1)
      else if c = CHR 0x5C \<and> delim \<noteq> CHR 0x60 then
        let l1 = advance l in
        if pos l1 < length (src l1) then (True, advance l1) else (True, l1)
      else if c = CHR 0x0A then
        (True, l\<lparr>line := line l + 1, col := 1, pos := pos l + 1\<rparr>)
      else if (of_char c :: nat) \<ge> 0x80 then
        (True, l\<lparr>pos := pos l + decodeRuneSize (drop (pos l) (src l)), col := col l + 1\<rparr>)
      else (True, advance l))"

lemma lexQuotedStep_src: "src (snd (lexQuotedStep d l)) = src l"
  by (simp add: lexQuotedStep_def advance_def Let_def)

lemma lexQuotedStep_pos_gt:
  assumes "pos l < length (src l)"
  shows "pos l < pos (snd (lexQuotedStep d l))"
proof -
  from assms have "drop (pos l) (src l) \<noteq> []" by simp
  from decodeRuneSize_pos [OF this] show ?thesis
    by (simp add: lexQuotedStep_def advance_def Let_def)
qed

lemma lexQuotedStep_pos_le:
  assumes "pos l < length (src l)"
  shows "pos (snd (lexQuotedStep d l)) \<le> length (src l)"
proof -
  from assms have "drop (pos l) (src l) \<noteq> []" by simp
  from decodeRuneSize_le [OF this] assms
  have "pos l + decodeRuneSize (drop (pos l) (src l)) \<le> length (src l)" by simp
  with assms show ?thesis
    by (simp add: lexQuotedStep_def advance_def Let_def)
qed

text \<open>The loop of \<^verbatim>\<open>lexQuoted\<close>, entered after the opening delimiter.\<close>

function lexQuotedLoop :: "char \<Rightarrow> Lexer \<Rightarrow> Lexer" where
  "lexQuotedLoop delim l =
     (if pos l < length (src l) then
        if fst (lexQuotedStep delim l) then lexQuotedLoop delim (snd (lexQuotedStep delim l))
        else snd (lexQuotedStep delim l)
      else l)"
  by pat_completeness auto
termination
proof (relation "measure (\<lambda>(d, l). length (src l) - pos l)", goal_cases)
  case 1
  show ?case by simp
next
  case (2 delim l)
  with lexQuotedStep_pos_gt [of l delim] show ?case
    by (simp add: lexQuotedStep_src)
qed

declare lexQuotedLoop.simps [simp del]

subsection \<open>Token scanners\<close>

text \<open>\<^verbatim>\<open>l.src[start:l.pos]\<close>.\<close>

definition slice :: "string \<Rightarrow> nat \<Rightarrow> nat \<Rightarrow> string" where
  "slice s lo hi = take (hi - lo) (drop lo s)"

text \<open>\<^verbatim>\<open>Token{Type: typ, Raw: l.src[start:l.pos], Pos: int32(start), Line: line, Col: col}\<close>;
  the conversion \<^verbatim>\<open>int32(start)\<close> keeps the low 32 bits.\<close>

definition mkToken :: "TokenType \<Rightarrow> Lexer \<Rightarrow> nat \<Rightarrow> 32 word \<Rightarrow> 32 word \<Rightarrow> Token" where
  "mkToken typ l start ln cl =
     \<lparr>Raw = slice (src l) start (pos l), Type = typ, Pos = word_of_nat start, Line = ln, Col = cl\<rparr>"

definition lexIdent :: "Lexer \<Rightarrow> nat \<Rightarrow> 32 word \<Rightarrow> 32 word \<Rightarrow> Token \<times> Lexer" where
  "lexIdent l start ln cl =
     (let l1 = scanWhile isIdentCont (advance l);
          raw = slice (src l1) start (pos l1);
          n = length raw
      in if n > 64 then (mkToken IDENT l1 start ln cl, l1)
         else (mkToken (lookupKeyword (map lowerByte raw)) l1 start ln cl, l1))"

text \<open>\<^verbatim>\<open>lexNumber\<close> runs three segments in a row: the integer digits, the fraction after a
  \<^verbatim>\<open>.\<close>, and the optional exponent. The last two are named here; each yields the token kind
  so far and the cursor.\<close>

definition lexFraction :: "Lexer \<Rightarrow> TokenType \<times> Lexer" where
  "lexFraction l =
     (if pos l < length (src l) \<and> src l ! pos l = CHR ''.''
      then (FLOAT, scanWhile isDigit (advance l)) else (INT_tok, l))"

definition lexExponent :: "TokenType \<Rightarrow> Lexer \<Rightarrow> TokenType \<times> Lexer" where
  "lexExponent typ l =
     (if pos l < length (src l) \<and> (src l ! pos l = CHR ''e'' \<or> src l ! pos l = CHR ''E'')
      then
        let l1 = advance l;
            l2 = (if pos l1 < length (src l1)
                      \<and> (src l1 ! pos l1 = CHR ''+'' \<or> src l1 ! pos l1 = CHR ''-'')
                  then advance l1 else l1)
        in (FLOAT, scanWhile isDigit l2)
      else (typ, l))"

definition lexNumber :: "Lexer \<Rightarrow> nat \<Rightarrow> 32 word \<Rightarrow> 32 word \<Rightarrow> Token \<times> Lexer" where
  "lexNumber l start ln cl =
     (let l1 = scanWhile isDigit l;
          (typ2, l2) = lexFraction l1;
          (typ3, l3) = lexExponent typ2 l2
      in (mkToken typ3 l3 start ln cl, l3))"

definition lexQuoted :: "Lexer \<Rightarrow> nat \<Rightarrow> 32 word \<Rightarrow> 32 word \<Rightarrow> char \<Rightarrow> TokenType \<Rightarrow> Token \<times> Lexer" where
  "lexQuoted l start ln cl delim typ =
     (let l1 = lexQuotedLoop delim (advance l) in (mkToken typ l1 start ln cl, l1))"

definition lexHexLit :: "Lexer \<Rightarrow> nat \<Rightarrow> 32 word \<Rightarrow> 32 word \<Rightarrow> Token \<times> Lexer" where
  "lexHexLit l start ln cl =
     (let l1 = scanWhile (\<lambda>c. c \<noteq> CHR 0x27) (advance (advance l));
          l2 = (if pos l1 < length (src l1) then advance l1 else l1)
      in (mkToken HEXLIT l2 start ln cl, l2))"

definition lexHex0x :: "Lexer \<Rightarrow> nat \<Rightarrow> 32 word \<Rightarrow> 32 word \<Rightarrow> Token \<times> Lexer" where
  "lexHex0x l start ln cl =
     (let l1 = scanWhile isHexDigit (advance2 l) in (mkToken HEXLIT l1 start ln cl, l1))"

definition lexBitLit :: "Lexer \<Rightarrow> nat \<Rightarrow> 32 word \<Rightarrow> 32 word \<Rightarrow> Token \<times> Lexer" where
  "lexBitLit l start ln cl =
     (let l1 = advance l in lexQuoted l1 (pos l1 - 1) ln cl (CHR 0x27) BITLIT)"

text \<open>\<open>punctSwitch\<close> is the \<^verbatim>\<open>switch b\<close> of \<^verbatim>\<open>lexPunct\<close>, run after the first byte
  \<open>b\<close> has been consumed; it yields the token kind and the cursor. The places that consume a
  run of identifier bytes or of digits call \<^verbatim>\<open>advance\<close> in a loop of the form above.\<close>

definition punctSwitch :: "char \<Rightarrow> Lexer \<Rightarrow> TokenType \<times> Lexer" where
  "punctSwitch b l1 =
            (if b = CHR ''('' then (LPAREN, l1)
             else if b = CHR '')'' then (RPAREN, l1)
             else if b = CHR ''{'' then (LBRACE, l1)
             else if b = CHR ''}'' then (RBRACE, l1)
             else if b = CHR ''['' then (LBRACKET, l1)
             else if b = CHR '']'' then (RBRACKET, l1)
             else if b = CHR '','' then (COMMA, l1)
             else if b = CHR '';'' then (SEMICOLON, l1)
             else if b = CHR ''*'' then (STAR, l1)
             else if b = CHR ''%'' then (PERCENT, l1)
             else if b = CHR ''^'' then (CARET, l1)
             else if b = CHR ''~'' then (TILDE, l1)
             else if b = CHR ''?'' then
               (if peek l1 = CHR ''|'' then (QMARKPIPE, advance l1)
                else if peek l1 = CHR ''&'' then (QMARKAMP, advance l1)
                else (QUESTION, l1))
             else if b = CHR ''+'' then (PLUS, l1)
             else if b = CHR ''='' then
               (if peek l1 = CHR ''>'' then (DARROW, advance l1) else (EQ, l1))
             else if b = CHR ''!'' then
               (if peek l1 = CHR ''='' then (NEQ, advance l1) else (BANG, l1))
             else if b = CHR ''<'' then
               (if peek l1 = CHR ''='' then (LTE, advance l1)
                else if peek l1 = CHR ''>'' then (NEQ, advance l1)
                else if peek l1 = CHR ''@'' then (LTAT, advance l1)
                else if peek l1 = CHR ''<'' then (LSHIFT, advance l1)
                else (LT, l1))
             else if b = CHR ''>'' then
               (if peek l1 = CHR ''='' then (GTE, advance l1)
                else if peek l1 = CHR ''>'' then (RSHIFT, advance l1)
                else (GT, l1))
             else if b = CHR ''|'' then
               (if peek l1 = CHR ''|'' then (DBAR, advance l1) else (PIPE, l1))
             else if b = CHR ''&'' then
               (if peek l1 = CHR ''&'' then (DAMP, advance l1) else (AMPERSAND, l1))
             else if b = CHR ''-'' then
               (if peek l1 = CHR ''>'' then
                  (let l1a = advance l1 in
                   if peek l1a = CHR ''>'' then (DARROW2, advance l1a) else (ARROW, l1a))
                else (MINUS, l1))
             else if b = CHR ''/'' then (SLASH, l1)
             else if b = CHR ''.'' then
               (if peek l1 = CHR ''.'' then (DOTDOT, advance l1) else (DOT, l1))
             else if b = CHR '':'' then
               (if isAlpha (peek l1) \<or> peek l1 = CHR ''_'' then (NAMEDPARAM, scanWhile isIdentCont l1)
                else (COLON, l1))
             else if b = CHR ''@'' then
               (if peek l1 = CHR ''>'' then (ATGT, advance l1)
                else if isAlpha (peek l1) \<or> peek l1 = CHR ''_'' \<or> peek l1 = CHR ''@''
                then (NAMEDPARAM, scanWhile isIdentCont l1)
                else (AT, l1))
             else if b = CHR ''$'' then
               (if isDigit (peek l1) then (NAMEDPARAM, scanWhile isDigit l1)
                else if isAlpha (peek l1) \<or> peek l1 = CHR ''_'' then (NAMEDPARAM, scanWhile isIdentCont l1)
                else (DOLLAR, l1))
             else if b = CHR ''#'' then
               (if peek l1 = CHR ''>'' then
                  (let l1a = advance l1 in
                   if peek l1a = CHR ''>'' then (HASHDARROW, advance l1a) else (HASHARROW, l1a))
                else (HASH, l1))
             else (ILLEGAL, l1))"

definition lexPunct :: "Lexer \<Rightarrow> nat \<Rightarrow> 32 word \<Rightarrow> 32 word \<Rightarrow> Token \<times> Lexer" where
  "lexPunct l start ln cl =
     (let b = src l ! pos l;
          l1 = advance l;
          (typ, l2) = punctSwitch b l1
      in (mkToken typ l2 start ln cl, l2))"

subsection \<open>What the loops and scanners do to the cursor\<close>

lemma advance_fields [simp]:
  "src (advance l) = src l" "pos (advance l) = pos l + 1"
  "src (advance2 l) = src l" "pos (advance2 l) = pos l + 2"
  "line (advance l) = line l" "line (advance2 l) = line l"
  by (simp_all add: advance_def advance2_def)

lemma scanWhile_src [simp]: "src (scanWhile P l) = src l"
  by (induction P l rule: scanWhile.induct) (subst scanWhile.simps, simp)

lemma scanWhile_pos_ge: "pos l \<le> pos (scanWhile P l)"
proof (induction P l rule: scanWhile.induct)
  case (1 P l)
  then show ?case by (subst scanWhile.simps) (auto dest: Suc_leD)
qed

lemma scanWhile_pos_le: "pos l \<le> length (src l) \<Longrightarrow> pos (scanWhile P l) \<le> length (src l)"
proof (induction P l rule: scanWhile.induct)
  case (1 P l)
  then show ?case by (subst scanWhile.simps) auto
qed

lemma skipBlockComment_src [simp]: "src (skipBlockComment l) = src l"
  by (induction l rule: skipBlockComment.induct) (subst skipBlockComment.simps, simp)

lemma skipBlockComment_pos_ge: "pos l \<le> pos (skipBlockComment l)"
proof (induction l rule: skipBlockComment.induct)
  case (1 l)
  show ?case
    using 1 by (subst skipBlockComment.simps) (auto dest: Suc_leD simp del: One_nat_def)
qed

lemma skipBlockComment_pos_le:
  "pos l \<le> length (src l) \<Longrightarrow> pos (skipBlockComment l) \<le> length (src l)"
proof (induction l rule: skipBlockComment.induct)
  case (1 l)
  show ?case
    using 1 by (subst skipBlockComment.simps) auto
qed

lemma lexQuotedLoop_src [simp]: "src (lexQuotedLoop d l) = src l"
proof (induction d l rule: lexQuotedLoop.induct)
  case (1 d l)
  then show ?case by (subst lexQuotedLoop.simps) (simp add: lexQuotedStep_src)
qed

lemma lexQuotedLoop_pos_ge: "pos l \<le> pos (lexQuotedLoop d l)"
proof (induction d l rule: lexQuotedLoop.induct)
  case (1 d l)
  show ?case
  proof (cases "pos l < length (src l)")
    case True
    note gt = lexQuotedStep_pos_gt [OF True, of d]
    show ?thesis
    proof (cases "fst (lexQuotedStep d l)")
      case True
      with 1 \<open>pos l < length (src l)\<close>
      have "pos (snd (lexQuotedStep d l)) \<le> pos (lexQuotedLoop d (snd (lexQuotedStep d l)))"
        by simp
      with gt True \<open>pos l < length (src l)\<close> show ?thesis
        by (subst lexQuotedLoop.simps) simp
    next
      case False
      with gt \<open>pos l < length (src l)\<close> show ?thesis
        by (subst lexQuotedLoop.simps) simp
    qed
  next
    case False
    then show ?thesis by (subst lexQuotedLoop.simps) simp
  qed
qed

lemma lexQuotedLoop_pos_le:
  "pos l \<le> length (src l) \<Longrightarrow> pos (lexQuotedLoop d l) \<le> length (src l)"
proof (induction d l rule: lexQuotedLoop.induct)
  case (1 d l)
  show ?case
  proof (cases "pos l < length (src l)")
    case True
    note le = lexQuotedStep_pos_le [OF True, of d]
    show ?thesis
    proof (cases "fst (lexQuotedStep d l)")
      case True
      with 1 le \<open>pos l < length (src l)\<close>
      have "pos (lexQuotedLoop d (snd (lexQuotedStep d l))) \<le> length (src l)"
        by (simp add: lexQuotedStep_src)
      with True \<open>pos l < length (src l)\<close> show ?thesis
        by (subst lexQuotedLoop.simps) simp
    next
      case False
      with le \<open>pos l < length (src l)\<close> show ?thesis
        by (subst lexQuotedLoop.simps) simp
    qed
  next
    case False
    with 1 show ?thesis by (subst lexQuotedLoop.simps) simp
  qed
qed

subsection \<open>Next\<close>

text \<open>The \<^verbatim>\<open>for l.pos < len(l.src)\<close> loop of \<^verbatim>\<open>Next\<close>: a branch that skips white space
  or a comment falls out of the \<^verbatim>\<open>switch\<close> and iterates, which is the recursive call; the
  other branches return a token. The cases are tried in the order of the source.\<close>

function Next :: "Lexer \<Rightarrow> Token \<times> Lexer" where
  "Next l =
     (if pos l < length (src l) then
        let start = pos l; startLine = line l; startCol = col l; b = src l ! pos l in
        if b = CHR 0x0A then
          Next (l\<lparr>pos := pos l + 1, line := line l + 1, col := 1\<rparr>)
        else if b = CHR 0x0D then
          let l1 = l\<lparr>pos := pos l + 1\<rparr>;
              l2 = (if pos l1 < length (src l1) \<and> src l1 ! pos l1 = CHR 0x0A
                    then l1\<lparr>pos := pos l1 + 1\<rparr> else l1)
          in Next (l2\<lparr>line := line l2 + 1, col := 1\<rparr>)
        else if isSpace b then
          Next (scanWhile (\<lambda>c. isSpace c \<and> c \<noteq> CHR 0x0A) (advance l))
        else if b = CHR ''-'' \<and> pos l + 1 < length (src l) \<and> src l ! (pos l + 1) = CHR ''-'' then
          Next (scanWhile (\<lambda>c. c \<noteq> CHR 0x0A) (advance2 l))
        else if b = CHR ''#'' then
          if pos l + 1 < length (src l) \<and> src l ! (pos l + 1) = CHR ''>''
          then lexPunct l start startLine startCol
          else Next (scanWhile (\<lambda>c. c \<noteq> CHR 0x0A) (advance l))
        else if b = CHR ''/'' \<and> pos l + 1 < length (src l) \<and> src l ! (pos l + 1) = CHR ''*'' then
          Next (skipBlockComment (advance2 l))
        else if isDigit b \<or> (b = CHR ''.'' \<and> pos l + 1 < length (src l) \<and> isDigit (src l ! (pos l + 1)))
          then lexNumber l start startLine startCol
        else if b = CHR 0x27 then lexQuoted l start startLine startCol (CHR 0x27) STRING
        else if b = CHR 0x22 then lexQuoted l start startLine startCol (CHR 0x22) DQUOTE
        else if b = CHR 0x60 then lexQuoted l start startLine startCol (CHR 0x60) BACKTICK
        else if b = CHR ''x'' \<or> b = CHR ''X'' then
          if pos l + 1 < length (src l) \<and> src l ! (pos l + 1) = CHR 0x27
          then lexHexLit l start startLine startCol
          else lexIdent l start startLine startCol
        else if b = CHR ''b'' \<or> b = CHR ''B'' then
          if pos l + 1 < length (src l) \<and> src l ! (pos l + 1) = CHR 0x27
          then lexBitLit l start startLine startCol
          else lexIdent l start startLine startCol
        else if b = CHR ''0'' \<and> pos l + 1 < length (src l)
                \<and> (src l ! (pos l + 1) = CHR ''x'' \<or> src l ! (pos l + 1) = CHR ''X'')
          then lexHex0x l start startLine startCol
        else if isAlpha b \<or> b = CHR ''_'' then lexIdent l start startLine startCol
        else lexPunct l start startLine startCol
      else (\<lparr>Raw = [], Type = EOF, Pos = word_of_nat (pos l), Line = line l, Col = col l\<rparr>, l))"
  by pat_completeness auto
termination
proof (relation "measure (\<lambda>l. length (src l) - pos l)", goal_cases)
  case 1
  show ?case by simp
next
  case (2 l start startLine startCol b)
  then show ?case by simp
next
  case (3 l start startLine startCol b l1 l2)
  then show ?case by auto
next
  case (4 l start startLine startCol b)
  have "pos (advance l) \<le> pos (scanWhile (\<lambda>c. isSpace c \<and> c \<noteq> CHR 0x0A) (advance l))"
    by (rule scanWhile_pos_ge)
  with 4 show ?case by auto
next
  case (5 l start startLine startCol b)
  have "pos (advance2 l) \<le> pos (scanWhile (\<lambda>c. c \<noteq> CHR 0x0A) (advance2 l))"
    by (rule scanWhile_pos_ge)
  with 5 show ?case by auto
next
  case (6 l start startLine startCol b)
  have "pos (advance l) \<le> pos (scanWhile (\<lambda>c. c \<noteq> CHR 0x0A) (advance l))"
    by (rule scanWhile_pos_ge)
  with 6 show ?case by auto
next
  case (7 l start startLine startCol b)
  have "pos (advance2 l) \<le> pos (skipBlockComment (advance2 l))"
    by (rule skipBlockComment_pos_ge)
  with 7 show ?case by auto
qed

declare Next.simps [simp del]

subsection \<open>Progress of the scanners\<close>

lemma peek_nonzero: "peek l = c \<Longrightarrow> c \<noteq> CHR 0x00 \<Longrightarrow> pos l < length (src l)"
  by (auto simp: peek_def split: if_splits)

lemma isAlpha_nonzero: "isAlpha c \<Longrightarrow> c \<noteq> CHR 0x00"
  by (auto simp: isAlpha_def)

lemma isDigit_nonzero: "isDigit c \<Longrightarrow> c \<noteq> CHR 0x00"
  by (auto simp: isDigit_def)

lemma punctSwitch_src: "src (snd (punctSwitch b l)) = src l"
  by (simp add: punctSwitch_def Let_def)

lemma punctSwitch_pos_ge: "pos l \<le> pos (snd (punctSwitch b l))"
  using scanWhile_pos_ge [of l isIdentCont] scanWhile_pos_ge [of l isDigit]
  by (simp add: punctSwitch_def Let_def)

lemma punctSwitch_type: "fst (punctSwitch b l) \<noteq> EOF"
  by (simp add: punctSwitch_def Let_def tok_defs)

lemma advance_le: "pos l < length (src l) \<Longrightarrow> pos (advance l) \<le> length (src l)"
  by simp

lemma peek_advance_le:
  "peek l = c \<Longrightarrow> c \<noteq> CHR 0x00 \<Longrightarrow> pos (advance l) \<le> length (src l)"
  by (drule (1) peek_nonzero) simp

lemma punctSwitch_pos_le:
  assumes "pos l \<le> length (src l)"
  shows "pos (snd (punctSwitch b l)) \<le> length (src l)"
proof -
  have a: "pos (advance l) \<le> length (src l)" if "peek l = c" "c \<noteq> CHR 0x00" for c
    using that by (rule peek_advance_le)
  have b: "pos (advance (advance l)) \<le> length (src l)"
    if "peek l = c" "c \<noteq> CHR 0x00" "peek (advance l) = d" "d \<noteq> CHR 0x00" for c d
    using peek_advance_le [OF that(3,4)] by simp
  have c: "pos (scanWhile P l) \<le> length (src l)" for P
    using assms by (rule scanWhile_pos_le)
  show ?thesis
    using assms
      a [of "CHR ''|''"] a [of "CHR ''&''"] a [of "CHR ''>''"] a [of "CHR ''=''"]
      a [of "CHR ''@''"] a [of "CHR ''<''"] a [of "CHR ''.''"]
      b [of "CHR ''>''" "CHR ''>''"] c [of isIdentCont] c [of isDigit]
    by (simp add: punctSwitch_def Let_def)
qed

lemma scanBucket_range:
  "scanBucket val es = IDENT \<or> (\<exists>e \<in> set es. scanBucket val es = snd e)"
  by (induction es) auto

lemma words_no_EOF:
  assumes "e \<in> set words"
  shows "snd e \<noteq> EOF"
proof -
  have "EOF \<notin> snd ` set words"
    by (simp add: words_def tok_defs)
  with assms show ?thesis by (metis imageI)
qed

lemma bucket_subset: "l < length keywordsByLen \<Longrightarrow> set (keywordsByLen ! l) \<subseteq> set words"
  by (auto simp: keywordsByLen_def)

lemma lookupKeyword_not_EOF: "lookupKeyword val \<noteq> EOF"
proof (cases "length val = 0 \<or> length val \<ge> length keywordsByLen")
  case True
  then show ?thesis by (auto simp: lookupKeyword_def Let_def tok_defs)
next
  case False
  then have sub: "set (keywordsByLen ! length val) \<subseteq> set words"
    by (intro bucket_subset) simp
  have "IDENT \<noteq> EOF" by (simp add: tok_defs)
  with scanBucket_range [of val "keywordsByLen ! length val"] sub words_no_EOF
  have "scanBucket val (keywordsByLen ! length val) \<noteq> EOF"
    by (metis subsetD)
  with False show ?thesis by (simp add: lookupKeyword_def Let_def)
qed

definition scanned :: "Lexer \<Rightarrow> nat \<Rightarrow> Token \<times> Lexer \<Rightarrow> bool" where
  "scanned l start r \<longleftrightarrow>
     src (snd r) = src l \<and> pos l < pos (snd r) \<and> pos (snd r) \<le> length (src l)
     \<and> Pos (fst r) = word_of_nat start \<and> Type (fst r) \<noteq> EOF
     \<and> Raw (fst r) = slice (src l) start (pos (snd r))"

lemma mkToken_fields [simp]:
  "Raw (mkToken typ l start ln cl) = slice (src l) start (pos l)"
  "Type (mkToken typ l start ln cl) = typ"
  "Pos (mkToken typ l start ln cl) = word_of_nat start"
  "Line (mkToken typ l start ln cl) = ln"
  "Col (mkToken typ l start ln cl) = cl"
  by (simp_all add: mkToken_def)

lemma scanned_lexIdent:
  assumes "pos l < length (src l)"
  shows "scanned l start (lexIdent l start ln cl)"
proof -
  have "pos (advance l) \<le> pos (scanWhile isIdentCont (advance l))"
    by (rule scanWhile_pos_ge)
  moreover have "pos (scanWhile isIdentCont (advance l)) \<le> length (src (advance l))"
    using assms by (intro scanWhile_pos_le) simp
  ultimately show ?thesis
    by (simp add: scanned_def lexIdent_def Let_def lookupKeyword_not_EOF) (simp add: tok_defs)
qed

lemma scanned_lexPunct:
  assumes "pos l < length (src l)"
  shows "scanned l start (lexPunct l start ln cl)"
proof -
  let ?b = "src l ! pos l"
  have "pos (advance l) \<le> pos (snd (punctSwitch ?b (advance l)))"
    by (rule punctSwitch_pos_ge)
  moreover have "pos (snd (punctSwitch ?b (advance l))) \<le> length (src (advance l))"
    using assms by (intro punctSwitch_pos_le) simp
  ultimately show ?thesis
    using punctSwitch_type [of ?b "advance l"] punctSwitch_src [of ?b "advance l"]
    by (simp add: scanned_def lexPunct_def Let_def split_beta)
qed

lemma scanned_lexQuoted:
  assumes "pos l < length (src l)" and "typ \<noteq> EOF"
  shows "scanned l start (lexQuoted l start ln cl d typ)"
proof -
  have "pos (advance l) \<le> pos (lexQuotedLoop d (advance l))"
    by (rule lexQuotedLoop_pos_ge)
  moreover have "pos (lexQuotedLoop d (advance l)) \<le> length (src (advance l))"
    using assms by (intro lexQuotedLoop_pos_le) simp
  ultimately show ?thesis
    using assms by (simp add: scanned_def lexQuoted_def Let_def)
qed

lemma scanned_lexHexLit:
  assumes "pos l + 1 < length (src l)"
  shows "scanned l start (lexHexLit l start ln cl)"
proof -
  let ?l1 = "scanWhile (\<lambda>c. c \<noteq> CHR 0x27) (advance (advance l))"
  have "pos (advance (advance l)) \<le> pos ?l1"
    by (rule scanWhile_pos_ge)
  moreover have "pos ?l1 \<le> length (src (advance (advance l)))"
    using assms by (intro scanWhile_pos_le) simp
  ultimately show ?thesis
    by (simp add: scanned_def lexHexLit_def Let_def tok_defs)
qed

lemma scanned_lexHex0x:
  assumes "pos l + 1 < length (src l)"
  shows "scanned l start (lexHex0x l start ln cl)"
proof -
  let ?l1 = "scanWhile isHexDigit (advance2 l)"
  have "pos (advance2 l) \<le> pos ?l1"
    by (rule scanWhile_pos_ge)
  moreover have "pos ?l1 \<le> length (src (advance2 l))"
    using assms by (intro scanWhile_pos_le) simp
  ultimately show ?thesis
    by (simp add: scanned_def lexHex0x_def Let_def tok_defs)
qed

lemma scanned_lexBitLit:
  assumes "pos l + 1 < length (src l)"
  shows "scanned l (pos l) (lexBitLit l start ln cl)"
proof -
  have "scanned (advance l) (pos l) (lexQuoted (advance l) (pos l) ln cl (CHR 0x27) BITLIT)"
    using assms by (intro scanned_lexQuoted) (simp_all add: tok_defs)
  then show ?thesis
    by (simp add: scanned_def lexBitLit_def Let_def)
qed

lemma scanWhile_pos_gt:
  assumes "pos l < length (src l)" and "P (src l ! pos l)"
  shows "pos l < pos (scanWhile P l)"
proof -
  have "pos (advance l) \<le> pos (scanWhile P (advance l))" by (rule scanWhile_pos_ge)
  with assms show ?thesis by (subst scanWhile.simps) simp
qed

lemma lexFraction_facts:
  "src (snd (lexFraction l)) = src l"
  "pos l \<le> pos (snd (lexFraction l))"
  "pos l \<le> length (src l) \<Longrightarrow> pos (snd (lexFraction l)) \<le> length (src l)"
  "fst (lexFraction l) \<noteq> EOF"
  "pos l < length (src l) \<Longrightarrow> src l ! pos l = CHR ''.'' \<Longrightarrow> pos l < pos (snd (lexFraction l))"
proof -
  have ge: "pos (advance l) \<le> pos (scanWhile isDigit (advance l))" by (rule scanWhile_pos_ge)
  have le: "pos (scanWhile isDigit (advance l)) \<le> length (src (advance l))"
    if "pos l < length (src l)"
    using that by (intro scanWhile_pos_le) simp
  show "src (snd (lexFraction l)) = src l" by (simp add: lexFraction_def)
  show "pos l \<le> pos (snd (lexFraction l))" using ge by (simp add: lexFraction_def)
  show "pos (snd (lexFraction l)) \<le> length (src l)" if "pos l \<le> length (src l)"
    using that le by (simp add: lexFraction_def)
  show "fst (lexFraction l) \<noteq> EOF" by (simp add: lexFraction_def tok_defs)
  show "pos l < pos (snd (lexFraction l))" if "pos l < length (src l)" "src l ! pos l = CHR ''.''"
    using that ge by (simp add: lexFraction_def)
qed

lemma lexExponent_facts:
  "src (snd (lexExponent typ l)) = src l"
  "pos l \<le> pos (snd (lexExponent typ l))"
  "pos l \<le> length (src l) \<Longrightarrow> pos (snd (lexExponent typ l)) \<le> length (src l)"
  "typ \<noteq> EOF \<Longrightarrow> fst (lexExponent typ l) \<noteq> EOF"
proof -
  define l2 where "l2 = (if pos (advance l) < length (src (advance l))
      \<and> (src (advance l) ! pos (advance l) = CHR ''+'' \<or> src (advance l) ! pos (advance l) = CHR ''-'')
    then advance (advance l) else advance l)"
  have s2: "src l2 = src l" and p2: "pos l \<le> pos l2" by (simp_all add: l2_def)
  have b2: "pos l2 \<le> length (src l)" if "pos l < length (src l)"
    using that by (simp add: l2_def)
  have ge: "pos l2 \<le> pos (scanWhile isDigit l2)" by (rule scanWhile_pos_ge)
  have le: "pos (scanWhile isDigit l2) \<le> length (src l2)" if "pos l < length (src l)"
    using b2 [OF that] by (intro scanWhile_pos_le) (simp add: s2)
  have eq: "lexExponent typ l =
      (if pos l < length (src l) \<and> (src l ! pos l = CHR ''e'' \<or> src l ! pos l = CHR ''E'')
       then (FLOAT, scanWhile isDigit l2) else (typ, l))"
    by (auto simp: lexExponent_def Let_def l2_def)
  show "src (snd (lexExponent typ l)) = src l" by (simp add: eq s2)
  show "pos l \<le> pos (snd (lexExponent typ l))" using ge p2 by (simp add: eq)
  show "pos (snd (lexExponent typ l)) \<le> length (src l)" if "pos l \<le> length (src l)"
    using that le by (simp add: eq s2)
  show "fst (lexExponent typ l) \<noteq> EOF" if "typ \<noteq> EOF"
    using that by (simp add: eq tok_defs)
qed

lemma scanned_lexNumber:
  assumes "pos l < length (src l)"
    and "isDigit (src l ! pos l) \<or> src l ! pos l = CHR ''.''"
  shows "scanned l start (lexNumber l start ln cl)"
proof -
  define l1 where "l1 = scanWhile isDigit l"
  define r2 where "r2 = lexFraction l1"
  define r3 where "r3 = lexExponent (fst r2) (snd r2)"
  have res: "lexNumber l start ln cl = (mkToken (fst r3) (snd r3) start ln cl, snd r3)"
    by (simp add: lexNumber_def Let_def split_beta l1_def r2_def r3_def)
  have s1: "src l1 = src l" and p1: "pos l \<le> pos l1" and b1: "pos l1 \<le> length (src l1)"
    using assms(1) by (simp_all add: l1_def scanWhile_pos_ge scanWhile_pos_le)
  have s2: "src (snd r2) = src l" and p2: "pos l1 \<le> pos (snd r2)" and t2: "fst r2 \<noteq> EOF"
    by (simp_all add: r2_def lexFraction_facts s1)
  have b2: "pos (snd r2) \<le> length (src (snd r2))"
    using lexFraction_facts(3) [OF b1] by (simp add: r2_def lexFraction_facts)
  have s3: "src (snd r3) = src l" and p3: "pos (snd r2) \<le> pos (snd r3)"
    and t3: "fst r3 \<noteq> EOF"
    using t2 by (simp_all add: r3_def lexExponent_facts s2)
  have b3: "pos (snd r3) \<le> length (src l)"
    using lexExponent_facts(3) [OF b2, of "fst r2"] by (simp add: r3_def s2)
  have gt: "pos l < pos (snd r2)"
  proof (cases "isDigit (src l ! pos l)")
    case True
    with assms(1) have "pos l < pos l1" unfolding l1_def by (rule scanWhile_pos_gt)
    with p2 show ?thesis by simp
  next
    case False
    with assms(2) have dot: "src l ! pos l = CHR ''.''" by simp
    from False have "l1 = l" unfolding l1_def by (subst scanWhile.simps) simp
    with dot assms(1) show ?thesis by (simp add: r2_def lexFraction_facts)
  qed
  from s3 gt p3 b3 t3 show ?thesis
    by (simp add: scanned_def res)
qed

lemma skip_facts:
  "pos l < pos (scanWhile P (advance l))"
  "pos l < pos (scanWhile P (advance2 l))"
  "pos l < pos (skipBlockComment (advance2 l))"
  using scanWhile_pos_ge [of "advance l" P] scanWhile_pos_ge [of "advance2 l" P]
    skipBlockComment_pos_ge [of "advance2 l"]
  by simp_all

lemma skip_bounds:
  "pos l < length (src l) \<Longrightarrow> pos (scanWhile P (advance l)) \<le> length (src l)"
  "pos l + 1 < length (src l) \<Longrightarrow> pos (scanWhile P (advance2 l)) \<le> length (src l)"
  "pos l + 1 < length (src l) \<Longrightarrow> pos (skipBlockComment (advance2 l)) \<le> length (src l)"
  using scanWhile_pos_le [of "advance l" P] scanWhile_pos_le [of "advance2 l" P]
    skipBlockComment_pos_le [of "advance2 l"]
  by simp_all

text \<open>One pass through the body of the loop of \<open>Next\<close>: either white space or a comment is
  skipped and the loop goes on from a later cursor, or a scanner returns a token.\<close>

definition nextStep :: "Lexer \<Rightarrow> Token \<times> Lexer \<Rightarrow> bool" where
  "nextStep l r \<longleftrightarrow>
     (\<exists>l'. r = Next l' \<and> src l' = src l \<and> pos l < pos l' \<and> pos l' \<le> length (src l))
     \<or> scanned l (pos l) r"

lemma nextStep_if:
  "(c \<Longrightarrow> nextStep l a) \<Longrightarrow> (\<not> c \<Longrightarrow> nextStep l b) \<Longrightarrow> nextStep l (if c then a else b)"
  by simp

lemma nextStep_skip:
  "src l' = src l \<Longrightarrow> pos l < pos l' \<Longrightarrow> pos l' \<le> length (src l) \<Longrightarrow> nextStep l (Next l')"
  unfolding nextStep_def by blast

lemma nextStep_scan: "scanned l (pos l) r \<Longrightarrow> nextStep l r"
  unfolding nextStep_def by blast

lemma Next_unfold:
  assumes "pos l < length (src l)"
  shows "nextStep l (Next l)"
  using assms
  apply (subst Next.simps)
  apply (simp only: Let_def if_True)
  apply (intro nextStep_if)
  apply (rule nextStep_skip, simp, simp, simp)
  apply (rule nextStep_skip, simp, simp, simp)
  apply (rule nextStep_skip, simp, simp add: skip_facts, simp add: skip_bounds)
  apply (rule nextStep_skip, simp, simp add: skip_facts, simp add: skip_bounds)
  apply (rule nextStep_scan, simp add: scanned_lexPunct)
  apply (rule nextStep_skip, simp, simp add: skip_facts, simp add: skip_bounds)
  apply (rule nextStep_skip, simp, simp add: skip_facts, simp add: skip_bounds)
  apply (rule nextStep_scan, rule scanned_lexNumber, simp, blast)
  apply (rule nextStep_scan, rule scanned_lexQuoted, simp, simp add: tok_defs)
  apply (rule nextStep_scan, rule scanned_lexQuoted, simp, simp add: tok_defs)
  apply (rule nextStep_scan, rule scanned_lexQuoted, simp, simp add: tok_defs)
  apply (rule nextStep_scan, rule scanned_lexHexLit, simp)
  apply (rule nextStep_scan, rule scanned_lexIdent, simp)
  apply (rule nextStep_scan, rule scanned_lexBitLit, simp)
  apply (rule nextStep_scan, rule scanned_lexIdent, simp)
  apply (rule nextStep_scan, rule scanned_lexHex0x, simp)
  apply (rule nextStep_scan, rule scanned_lexIdent, simp)
  apply (rule nextStep_scan, rule scanned_lexPunct, simp)
  done

text \<open>The token built when the loop of \<open>Next\<close> ends.\<close>

definition eofToken :: "Lexer \<Rightarrow> Token" where
  "eofToken l = \<lparr>Raw = [], Type = EOF, Pos = word_of_nat (pos l), Line = line l, Col = col l\<rparr>"

lemma Next_at_end: "length (src l) \<le> pos l \<Longrightarrow> Next l = (eofToken l, l)"
  by (subst Next.simps) (simp add: eofToken_def)

text \<open>What a call of \<open>Next\<close> returns: a token from a scanner that started at a cursor
  \<open>l0\<close> at or after the cursor of the call, or the end-of-input token at the end of the loop.\<close>

lemma Next_result:
  "(\<exists>l0. src l0 = src l \<and> pos l \<le> pos l0 \<and> pos l0 < length (src l) \<and> scanned l0 (pos l0) (Next l))
   \<or> (\<exists>l'. Next l = (eofToken l', l') \<and> src l' = src l \<and> pos l \<le> pos l' \<and> length (src l) \<le> pos l'
         \<and> (pos l \<le> length (src l) \<longrightarrow> pos l' = length (src l)))"
proof (induction "length (src l) - pos l" arbitrary: l rule: less_induct)
  case less
  show ?case
  proof (cases "pos l < length (src l)")
    case False
    then have "Next l = (eofToken l, l)" by (simp add: Next_at_end)
    with False show ?thesis by auto
  next
    case True
    from Next_unfold [OF True] consider
      (skip) l' where "Next l = Next l'" "src l' = src l" "pos l < pos l'" "pos l' \<le> length (src l)"
      | (scan) "scanned l (pos l) (Next l)"
      unfolding nextStep_def by blast
    then show ?thesis
    proof cases
      case skip
      from skip True have "length (src l') - pos l' < length (src l) - pos l" by simp
      from less [OF this] skip show ?thesis
        by (auto simp: less_imp_le_nat)
    next
      case scan
      with True show ?thesis by blast
    qed
  qed
qed


lemma Next_EOF_state:
  assumes "Type (fst (Next l)) = EOF"
  shows "Next l = (eofToken (snd (Next l)), snd (Next l)) \<and> length (src (snd (Next l))) \<le> pos (snd (Next l))"
  using Next_result [of l] assms by (auto simp: scanned_def)

lemma Next_not_EOF:
  assumes "Type (fst (Next l)) \<noteq> EOF"
  shows "src (snd (Next l)) = src l \<and> pos l < pos (snd (Next l)) \<and> pos (snd (Next l)) \<le> length (src l)"
  using Next_result [of l] assms by (auto simp: scanned_def eofToken_def)

subsection \<open>Tokenize\<close>

text \<open>The loop of \<^verbatim>\<open>Tokenize\<close>: append the next token, stop after the end-of-input token.
  It ends because a call of \<open>Next\<close> that returns another token has moved the cursor.\<close>

function TokenizeLoop :: "Lexer \<Rightarrow> Token list \<Rightarrow> Token list" where
  "TokenizeLoop l buf =
     (let t = fst (Next l); buf' = buf @ [t]
      in if Type t = EOF then buf' else TokenizeLoop (snd (Next l)) buf')"
  by pat_completeness auto
termination
proof (relation "measure (\<lambda>(l, buf). length (src l) - pos l)", goal_cases)
  case 1
  show ?case by simp
next
  case (2 l buf t buf')
  with Next_not_EOF [of l] show ?case by auto
qed

declare TokenizeLoop.simps [simp del]

text \<open>\<^verbatim>\<open>buf = buf[:0]\<close> empties the caller's buffer; only its storage is reused.\<close>

definition Tokenize :: "string \<Rightarrow> Token list \<Rightarrow> Token list" where
  "Tokenize s buf = TokenizeLoop (New s) []"

subsection \<open>Properties of the token list\<close>

lemma TokenizeLoop_append: "TokenizeLoop l buf = buf @ TokenizeLoop l []"
proof (induction "length (src l) - pos l" arbitrary: l buf rule: less_induct)
  case less
  show ?case
  proof (cases "Type (fst (Next l)) = EOF")
    case True
    then show ?thesis
      by (simp add: TokenizeLoop.simps [of l] Let_def)
  next
    case False
    with Next_not_EOF [of l]
    have m: "length (src (snd (Next l))) - pos (snd (Next l)) < length (src l) - pos l"
      by auto
    have "TokenizeLoop (snd (Next l)) (buf @ [fst (Next l)])
        = (buf @ [fst (Next l)]) @ TokenizeLoop (snd (Next l)) []"
      by (rule less [OF m])
    moreover have "TokenizeLoop (snd (Next l)) [fst (Next l)]
        = [fst (Next l)] @ TokenizeLoop (snd (Next l)) []"
      by (rule less [OF m])
    ultimately show ?thesis using False
      by (simp add: TokenizeLoop.simps [of l] Let_def)
  qed
qed

lemma TokenizeLoop_EOF:
  "Type (fst (Next l)) = EOF \<Longrightarrow> TokenizeLoop l [] = [fst (Next l)]"
  by (simp add: TokenizeLoop.simps [of l] Let_def)

lemma TokenizeLoop_step:
  "Type (fst (Next l)) \<noteq> EOF \<Longrightarrow> TokenizeLoop l [] = fst (Next l) # TokenizeLoop (snd (Next l)) []"
  using TokenizeLoop_append [of "snd (Next l)" "[fst (Next l)]"]
  by (simp add: TokenizeLoop.simps [of l] Let_def)

lemma sint_offset:
  assumes "n < 2 ^ 31"
  shows "sint (word_of_nat n :: 32 word) = int n"
proof -
  have "signed_take_bit 31 (int n) = int n"
    using assms by (intro signed_take_bit_int_eq_self) simp_all
  then show ?thesis by (simp add: signed_of_nat)
qed

text \<open>The offsets of the tokens of a source below \<open>2 ^ 31\<close> bytes, read as \<^verbatim>\<open>int32\<close>,
  increase, and none lies before the cursor the loop started from.\<close>

lemma TokenizeLoop_increasing:
  assumes "length (src l) < 2 ^ 31" and "pos l \<le> length (src l)"
  shows "sorted_wrt (<) (map (\<lambda>t. sint (Pos t)) (TokenizeLoop l []))
         \<and> (\<forall>t \<in> set (TokenizeLoop l []). int (pos l) \<le> sint (Pos t))"
  using assms
proof (induction "length (src l) - pos l" arbitrary: l rule: less_induct)
  case less
  show ?case
  proof (cases "Type (fst (Next l)) = EOF")
    case True
    with Next_result [of l] less.prems
    have "Pos (fst (Next l)) = word_of_nat (length (src l))"
      by (auto simp: scanned_def eofToken_def)
    with less.prems have "sint (Pos (fst (Next l))) = int (length (src l))"
      by (simp add: sint_offset)
    with True less.prems show ?thesis
      by (simp add: TokenizeLoop_EOF)
  next
    case False
    with Next_result [of l] obtain l0 where l0: "src l0 = src l" "pos l \<le> pos l0"
      "pos l0 < length (src l)" "scanned l0 (pos l0) (Next l)"
      by (auto simp: eofToken_def)
    let ?t = "fst (Next l)" and ?l' = "snd (Next l)"
    from l0 have l': "src ?l' = src l" "pos l0 < pos ?l'" "pos ?l' \<le> length (src l)"
      and pt: "Pos ?t = word_of_nat (pos l0)"
      by (simp_all add: scanned_def)
    from l0 less.prems pt have st: "sint (Pos ?t) = int (pos l0)"
      by (simp add: sint_offset)
    from l' l0 have m: "length (src ?l') - pos ?l' < length (src l) - pos l" by simp
    from less.hyps [OF m] l' less.prems
    have ih: "sorted_wrt (<) (map (\<lambda>t. sint (Pos t)) (TokenizeLoop ?l' []))"
      "\<forall>t \<in> set (TokenizeLoop ?l' []). int (pos ?l') \<le> sint (Pos t)"
      by simp_all
    from ih(2) l'(2) st have "\<forall>t \<in> set (TokenizeLoop ?l' []). sint (Pos ?t) < sint (Pos t)"
      by fastforce
    moreover from this st l0(2) have "\<forall>t \<in> set (TokenizeLoop ?l' []). int (pos l) \<le> sint (Pos t)"
      by fastforce
    ultimately show ?thesis
      using False ih(1) st l0(2) by (simp add: TokenizeLoop_step)
  qed
qed


text \<open>A source of \<open>2 ^ 31 + 1\<close> bytes: the letter \<open>a\<close>, then \<open>2 ^ 31 - 1\<close> spaces, then the
  letter \<open>b\<close>, which stands at offset \<open>2 ^ 31\<close>.\<close>

definition longSource :: string where
  "longSource = CHR ''a'' # replicate 2147483647 (CHR '' '') @ ''b''"

lemma longSource_length: "length longSource = 2147483649"
  by (simp add: longSource_def)

lemma longSource_nth:
  "longSource ! 0 = CHR ''a''"
  "1 \<le> i \<Longrightarrow> i \<le> 2147483647 \<Longrightarrow> longSource ! i = CHR '' ''"
  "longSource ! 2147483648 = CHR ''b''"
proof -
  show "longSource ! 0 = CHR ''a''" by (simp add: longSource_def)
  show "longSource ! i = CHR '' ''" if "1 \<le> i" "i \<le> 2147483647"
  proof -
    from that obtain j where j: "i = Suc j" "j < 2147483647" by (cases i) auto
    then show ?thesis by (simp add: longSource_def nth_append)
  qed
  have "longSource ! Suc 2147483647 = CHR ''b''"
    unfolding longSource_def by (simp only: nth_Cons_Suc nth_append_length length_replicate
        nth_append_length [of "replicate 2147483647 (CHR '' '')", simplified])
  then show "longSource ! 2147483648 = CHR ''b''" by simp
qed

lemma scanWhile_run:
  assumes "\<forall>i. pos l \<le> i \<and> i < k \<longrightarrow> P (src l ! i)"
    and "pos l \<le> k" and "k \<le> length (src l)"
    and "k < length (src l) \<longrightarrow> \<not> P (src l ! k)"
  shows "pos (scanWhile P l) = k"
  using assms
proof (induction "k - pos l" arbitrary: l)
  case 0
  then have "pos l = k" by simp
  with 0 show ?case by (subst scanWhile.simps) auto
next
  case (Suc n)
  then have lt: "pos l < k" by simp
  with Suc.prems have c: "pos l < length (src l) \<and> P (src l ! pos l)" by auto
  from Suc.hyps(2) have "n = k - pos (advance l)" by simp
  from Suc.hyps(1) [OF this] Suc.prems lt have "pos (scanWhile P (advance l)) = k"
    by simp
  with c show ?case by (subst scanWhile.simps) simp
qed

lemma Next_letter_a:
  assumes "pos l < length (src l)" and "src l ! pos l = CHR ''a''"
  shows "Next l = lexIdent l (pos l) (line l) (col l)"
  using assms by (subst Next.simps) (simp add: Let_def isSpace_def isDigit_def isAlpha_def)

lemma Next_last_letter_b:
  assumes "pos l + 1 = length (src l)" and "src l ! pos l = CHR ''b''"
  shows "Next l = lexIdent l (pos l) (line l) (col l)"
  using assms by (subst Next.simps) (simp add: Let_def isSpace_def isDigit_def isAlpha_def)

lemma Next_space:
  assumes "pos l < length (src l)" and "src l ! pos l = CHR '' ''"
  shows "Next l = Next (scanWhile (\<lambda>c. isSpace c \<and> c \<noteq> CHR 0x0A) (advance l))"
  using assms by (subst Next.simps) (simp add: Let_def isSpace_def)

lemma lexIdent_Pos: "Pos (fst (lexIdent l start ln cl)) = word_of_nat start"
  by (simp add: lexIdent_def Let_def)

lemma lexIdent_Type: "Type (fst (lexIdent l start ln cl)) \<noteq> EOF"
  by (simp add: lexIdent_def Let_def lookupKeyword_not_EOF) (simp add: tok_defs)

lemma lexIdent_state:
  "src (snd (lexIdent l start ln cl)) = src l"
  "pos (snd (lexIdent l start ln cl)) = pos (scanWhile isIdentCont (advance l))"
  by (simp_all add: lexIdent_def Let_def)

lemma longSource_first_two:
  "\<exists>t0 t1 ts. Tokenize longSource [] = t0 # t1 # ts \<and> Pos t0 = 0 \<and> Pos t1 = word_of_nat 2147483648"
proof -
  define l0 where "l0 = New longSource"
  have l0: "src l0 = longSource" "pos l0 = 0" by (simp_all add: l0_def New_def)
  have n0: "Next l0 = lexIdent l0 (pos l0) (line l0) (col l0)"
    by (rule Next_letter_a) (simp_all add: l0 longSource_length longSource_nth)
  define l1 where "l1 = snd (Next l0)"
  have "pos (scanWhile isIdentCont (advance l0)) = 1"
    by (rule scanWhile_run) (simp_all add: l0 longSource_length longSource_nth isIdentCont_def)
  then have l1: "src l1 = longSource" "pos l1 = 1"
    by (simp_all add: l1_def n0 lexIdent_state l0)
  have t0: "Pos (fst (Next l0)) = 0" "Type (fst (Next l0)) \<noteq> EOF"
    by (simp_all add: n0 lexIdent_Pos lexIdent_Type l0)
  define l2 where "l2 = scanWhile (\<lambda>c. isSpace c \<and> c \<noteq> CHR 0x0A) (advance l1)"
  have n1: "Next l1 = Next l2"
    unfolding l2_def by (rule Next_space) (simp_all add: l1 longSource_length longSource_nth)
  have "pos l2 = 2147483648"
    unfolding l2_def
    by (rule scanWhile_run) (simp_all add: l1 longSource_length longSource_nth isSpace_def)
  then have l2: "src l2 = longSource" "pos l2 = 2147483648"
    by (simp_all add: l2_def l1)
  have n2: "Next l2 = lexIdent l2 (pos l2) (line l2) (col l2)"
    by (rule Next_last_letter_b) (simp_all add: l2 longSource_length longSource_nth)
  have t1: "Pos (fst (Next l1)) = word_of_nat 2147483648" "Type (fst (Next l1)) \<noteq> EOF"
    by (simp_all add: n1 n2 lexIdent_Pos lexIdent_Type l2)
  have "Tokenize longSource [] = fst (Next l0) # fst (Next l1) # TokenizeLoop (snd (Next l1)) []"
    using t0(2) t1(2) by (simp add: Tokenize_def l0_def [symmetric] TokenizeLoop_step l1_def [symmetric])
  with t0(1) t1(1) show ?thesis by blast
qed


text \<open>The lexer after \<open>n\<close> further calls of \<open>Next\<close>.\<close>

fun afterCalls :: "nat \<Rightarrow> Lexer \<Rightarrow> Lexer" where
  "afterCalls 0 l = l"
| "afterCalls (Suc n) l = afterCalls n (snd (Next l))"

lemma afterCalls_at_end:
  "length (src l) \<le> pos l \<Longrightarrow> afterCalls n l = l"
  by (induction n) (simp_all add: Next_at_end)


subsection \<open>Evaluation on concrete sources\<close>

text \<open>The equations that run the lexer on a literal source inside the simplifier.\<close>

lemmas lex_eval =
  Next.simps [where l = "\<lparr>src = s, pos = p, line = ln, col = c\<rparr>" for s p ln c]
  scanWhile.simps [where l = "\<lparr>src = s, pos = p, line = ln, col = c\<rparr>" for s p ln c]
  skipBlockComment.simps [where l = "\<lparr>src = s, pos = p, line = ln, col = c\<rparr>" for s p ln c]
  lexQuotedLoop.simps [where l = "\<lparr>src = s, pos = p, line = ln, col = c\<rparr>" for s p ln c]
  TokenizeLoop.simps [where l = "\<lparr>src = s, pos = p, line = ln, col = c\<rparr>" for s p ln c]
  New_def NewString_def Tokenize_def lexNumber_def lexFraction_def lexExponent_def lexIdent_def
  lexPunct_def lexQuoted_def lexHexLit_def lexHex0x_def lexBitLit_def lexQuotedStep_def
  punctSwitch_def advance_def advance2_def peek_def mkToken_def slice_def eofToken_def
  isSpace_def isDigit_def isAlpha_def isIdentCont_def isHexDigit_def lowerByte_def Let_def


section \<open>Claims about the lexer\<close>

text \<open>
  \<^bold>\<open>C1.\<close> The claim: for every source whose next token starts with the two bytes \<^verbatim>\<open>0x\<close>, the
  lexer emits one hex-literal token \<^verbatim>\<open>0x\<close> followed by the maximal run of hex digits, not an
  integer token \<^verbatim>\<open>0\<close> followed by an identifier. The case of \<open>Next\<close> for a digit
  stands before the case for \<^verbatim>\<open>0x\<close>, so \<^verbatim>\<open>lexHex0x\<close> is never reached: on the source
  \<^verbatim>\<open>0xFF\<close> the lexer returns the integer token \<^verbatim>\<open>0\<close>, then the identifier \<^verbatim>\<open>xFF\<close>, then
  end of input.
\<close>

theorem hex0x_lexed_as_int_then_ident:
  "Tokenize ''0xFF'' [] =
     [\<lparr>Raw = ''0'', Type = INT_tok, Pos = 0, Line = 1, Col = 1\<rparr>,
      \<lparr>Raw = ''xFF'', Type = IDENT, Pos = 1, Line = 1, Col = 2\<rparr>,
      \<lparr>Raw = [], Type = EOF, Pos = 4, Line = 1, Col = 5\<rparr>]"
  by (simp add: lex_eval lookupKeyword_def keywordsByLen_def words_def bytesEqualString_def tok_defs)


text \<open>
  \<^bold>\<open>C2.\<close> The claim: after a block comment opener \<^verbatim>\<open>/*\<close> that is never closed, the first
  token returned is the end-of-input token, and the final byte of the source is not lexed as a
  token of its own. The comment loop runs while two bytes remain, so it stops one byte before
  the end: on the source \<^verbatim>\<open>/*a\<close> the lexer returns the identifier \<^verbatim>\<open>a\<close> at offset 2 and
  only then end of input.
\<close>

theorem unterminated_comment_last_byte_relexed:
  "Tokenize ''/*a'' [] =
     [\<lparr>Raw = ''a'', Type = IDENT, Pos = 2, Line = 1, Col = 3\<rparr>,
      \<lparr>Raw = [], Type = EOF, Pos = 3, Line = 1, Col = 4\<rparr>]"
  by (simp add: lex_eval lookupKeyword_def keywordsByLen_def words_def bytesEqualString_def tok_defs)


text \<open>
  \<^bold>\<open>C8.\<close> The claim: in the slice returned by \<open>Tokenize\<close>, any two successive tokens have
  strictly increasing byte offsets \<open>Pos\<close>. The offset is an \<^verbatim>\<open>int32\<close>; for a source of
  \<open>2 ^ 31 + 1\<close> bytes with a token at offset \<open>2 ^ 31\<close> the conversion wraps around to a
  negative number, and the second token of \<open>longSource\<close> has a smaller \<open>Pos\<close> than the first.
\<close>

theorem offsets_wrap_counterexample:
  "Suc 0 < length (Tokenize longSource [])
   \<and> \<not> sint (Pos (Tokenize longSource [] ! 0)) < sint (Pos (Tokenize longSource [] ! Suc 0))"
proof -
  from longSource_first_two obtain t0 t1 ts where
    "Tokenize longSource [] = t0 # t1 # ts" "Pos t0 = 0" "Pos t1 = word_of_nat 2147483648"
    by blast
  then show ?thesis by simp
qed

text \<open>
  \<^bold>\<open>C8, as amended.\<close> For every source shorter than \<open>2 ^ 31\<close> bytes, any two successive tokens
  of the slice returned by \<open>Tokenize\<close> have strictly increasing offsets \<open>Pos\<close>, read as the
  signed 32-bit numbers they are.
\<close>

theorem Tokenize_offsets_increase:
  assumes "length s < 2 ^ 31" and "Suc i < length (Tokenize s buf)"
  shows "sint (Pos (Tokenize s buf ! i)) < sint (Pos (Tokenize s buf ! Suc i))"
proof -
  have "sorted_wrt (<) (map (\<lambda>t. sint (Pos t)) (Tokenize s buf))"
    using TokenizeLoop_increasing [of "New s"] assms(1) by (simp add: Tokenize_def New_def)
  then have "sorted_wrt (\<lambda>a b. sint (Pos a) < sint (Pos b)) (Tokenize s buf)"
    by (simp add: sorted_wrt_map)
  with assms(2) show ?thesis
    by (simp add: sorted_wrt_iff_nth_less)
qed

theorem Tokenize_offsets_increase_witness:
  "length ''a b'' < 2 ^ 31 \<and> Suc 0 < length (Tokenize ''a b'' [])
   \<and> sint (Pos (Tokenize ''a b'' [] ! 0)) < sint (Pos (Tokenize ''a b'' [] ! Suc 0))"
proof -
  have h1: "length ''a b'' < 2 ^ 31" by simp
  have h2: "Suc 0 < length (Tokenize ''a b'' [])"
    by (simp add: lex_eval lookupKeyword_def keywordsByLen_def words_def bytesEqualString_def tok_defs)
  from h1 h2 Tokenize_offsets_increase [OF h1 h2] show ?thesis by simp
qed

text \<open>
  \<^bold>\<open>C9.\<close> Once \<open>Next\<close> has returned an end-of-input token, every later call returns an
  end-of-input token again: whatever the lexer state \<open>l\<close>, if the call at \<open>l\<close> returns
  \<^verbatim>\<open>EOF\<close>, so does the call made after any number \<open>n\<close> of further calls.
\<close>

theorem Next_EOF_again:
  assumes "Type (fst (Next l)) = EOF"
  shows "Type (fst (Next (afterCalls n (snd (Next l))))) = EOF"
proof -
  from Next_EOF_state [OF assms]
  have e: "length (src (snd (Next l))) \<le> pos (snd (Next l))" by simp
  then have "afterCalls n (snd (Next l)) = snd (Next l)" by (rule afterCalls_at_end)
  with e show ?thesis by (simp add: Next_at_end eofToken_def)
qed


theorem Next_EOF_again_witness:
  "Type (fst (Next (New ''-- c''))) = EOF
   \<and> Type (fst (Next (afterCalls 2 (snd (Next (New ''-- c'')))))) = EOF"
proof -
  have h: "Type (fst (Next (New ''-- c''))) = EOF"
    by (simp add: lex_eval)
  from h Next_EOF_again [OF h, of 2] show ?thesis by simp
qed


section \<open>Arena\<close>

text \<open>A slab is a byte array. The Go \<^verbatim>\<open>int\<close> has 64 bits (as on the 64-bit platforms): a
  sum or product is the integer wrapped into the range from \<open>- 2 ^ 63\<close> to \<open>2 ^ 63 - 1\<close>.\<close>

definition wrap64 :: "int \<Rightarrow> int" where
  "wrap64 x = signed_take_bit 63 x"

record arena =
  slabs :: "8 word list list"
  cur :: "8 word list"
  off :: int

definition initialSlabSize :: int where
  "initialSlabSize = 8 * 1024"

definition growFactor :: int where
  "growFactor = 2"

text \<open>\<^verbatim>\<open>make([]byte, size)\<close> gives \<open>size\<close> zero bytes; it panics for a negative size and for
  a size above the limit \<^verbatim>\<open>maxAlloc\<close> of the runtime, \<open>2 ^ 48\<close> bytes on the 64-bit platforms
  (whether the machine has that much memory is not modelled). A slice expression
  \<^verbatim>\<open>s[lo:hi]\<close> panics unless \<open>0 \<le> lo \<le> hi \<le> len s\<close> (the slabs have no spare capacity). A
  panic is the value \<open>None\<close>.\<close>

definition maxAlloc :: int where
  "maxAlloc = 2 ^ 48"

definition makeBytes :: "int \<Rightarrow> 8 word list option" where
  "makeBytes sz = (if sz < 0 \<or> maxAlloc < sz then None else Some (replicate (nat sz) 0))"

definition subslice :: "8 word list \<Rightarrow> int \<Rightarrow> int \<Rightarrow> 8 word list option" where
  "subslice s lo hi =
     (if 0 \<le> lo \<and> lo \<le> hi \<and> hi \<le> int (length s)
      then Some (take (nat (hi - lo)) (drop (nat lo) s)) else None)"

text \<open>\<^verbatim>\<open>n = (n + 7) &^ 7\<close>.\<close>

definition align8 :: "int \<Rightarrow> int" where
  "align8 n = and (wrap64 (n + 7)) (not 7)"

text \<open>\<^verbatim>\<open>alloc\<close>. After \<^verbatim>\<open>out := a.cur[a.off : a.off+n]\<close> the slice \<open>out\<close> has \<open>n\<close> bytes, and
  \<^verbatim>\<open>out[:n]\<close> is \<open>out\<close>.\<close>

definition alloc :: "arena \<Rightarrow> int \<Rightarrow> (8 word list \<times> arena) option" where
  "alloc a n0 =
     (let n = align8 n0 in
      if wrap64 (off a + n) > int (length (cur a)) then
        let sz = wrap64 (int (length (cur a)) * growFactor);
            sz = (if sz < wrap64 (n + 8) then wrap64 (n + initialSlabSize) else sz)
        in case makeBytes sz of
             None \<Rightarrow> None
           | Some slab \<Rightarrow>
               let a1 = a\<lparr>slabs := slabs a @ [slab], cur := slab, off := 0\<rparr>
               in (case subslice (cur a1) (off a1) (wrap64 (off a1 + n)) of
                     None \<Rightarrow> None
                   | Some out \<Rightarrow>
                       (case subslice out 0 n of
                          None \<Rightarrow> None
                        | Some out' \<Rightarrow> Some (out', a1\<lparr>off := wrap64 (off a1 + n)\<rparr>)))
      else
        case subslice (cur a) (off a) (wrap64 (off a + n)) of
          None \<Rightarrow> None
        | Some out \<Rightarrow>
            (case subslice out 0 n of
               None \<Rightarrow> None
             | Some out' \<Rightarrow> Some (out', a\<lparr>off := wrap64 (off a + n)\<rparr>)))"

lemma wrap64_id: "- (2 ^ 63) \<le> x \<Longrightarrow> x < 2 ^ 63 \<Longrightarrow> wrap64 x = x"
  unfolding wrap64_def by (rule signed_take_bit_int_eq_self) simp_all

lemma align8_eq:
  assumes "- (2 ^ 63) \<le> n + 7" and "n + 7 < 2 ^ 63"
  shows "align8 n = 8 * ((n + 7) div 8)"
proof -
  have m: "(7::int) = mask 3" by (simp add: mask_eq_exp_minus_1)
  have "and k (not (mask 3)) = push_bit 3 (drop_bit 3 k)" for k :: int
    by (rule bit_eqI) (auto simp: bit_simps)
  then show ?thesis
    using wrap64_id [OF assms]
    by (simp add: align8_def m push_bit_eq_mult drop_bit_eq_div)
qed

lemma align8_bounds:
  assumes "0 \<le> n" and "n \<le> 2 ^ 62"
  shows "n \<le> align8 n" "align8 n < n + 8" "8 dvd align8 n"
proof -
  from assms have "- (2 ^ 63) \<le> n + 7" "n + 7 < 2 ^ 63" by simp_all
  then have "align8 n = 8 * ((n + 7) div 8)" by (rule align8_eq)
  then show "n \<le> align8 n" "align8 n < n + 8" "8 dvd align8 n" by simp_all
qed

text \<open>The size of the slab that \<open>alloc\<close> creates for a request that does not fit.\<close>

definition newSlabSize :: "arena \<Rightarrow> int \<Rightarrow> int" where
  "newSlabSize a n0 =
     (if 2 * int (length (cur a)) < align8 n0 + 8 then align8 n0 + 8192
      else 2 * int (length (cur a)))"

text \<open>
  \<^bold>\<open>C3.\<close> The claim: for a request that does not fit in the current slab, \<open>alloc\<close> rounds
  \<open>n\<close> up to a multiple of 8 and allocates a new slab of size
  \<open>max (n + 8) (2 \<times> current slab size) (initial slab size)\<close>, the initial slab size being 8 KiB,
  and makes it current. The code takes twice the current size and, where that is below
  \<open>n + 8\<close>, the size \<open>n + 8192\<close>: the first request of a fresh arena for one byte gets a slab of
  8200 bytes, where the claim states 8192.
\<close>

text \<open>The size the claim states, with \<open>n\<close> the rounded request.\<close>

definition claimedSlabSize :: "arena \<Rightarrow> int \<Rightarrow> int" where
  "claimedSlabSize a n0 =
     max (align8 n0 + 8) (max (2 * int (length (cur a))) initialSlabSize)"

theorem alloc_new_slab_counterexample:
  "alloc \<lparr>slabs = [], cur = [], off = 0\<rparr> 1
     = Some (replicate 8 0, \<lparr>slabs = [replicate 8200 0], cur = replicate 8200 0, off = 8\<rparr>)
   \<and> claimedSlabSize \<lparr>slabs = [], cur = [], off = 0\<rparr> 1 = 8192"
proof -
  have a: "align8 1 = 8" by (simp add: align8_eq)
  show ?thesis
    by (simp add: alloc_def a wrap64_id Let_def growFactor_def initialSlabSize_def makeBytes_def
        maxAlloc_def subslice_def claimedSlabSize_def)
qed

text \<open>
  \<^bold>\<open>C3, as amended.\<close> Let the request be \<open>0 \<le> n \<le> 2 ^ 47 - 8200\<close> bytes, the current slab
  have at most \<open>2 ^ 47\<close> bytes and the offset lie within it (sizes for which no sum wraps and
  \<^verbatim>\<open>make\<close> accepts the size). If the request, rounded up to the next multiple of 8, does not
  fit in the current slab, \<open>alloc\<close> allocates a new slab whose size is twice the current slab
  size when that is at least the rounded request plus 8, and the rounded request plus 8192
  otherwise; the new slab is appended to the slabs and becomes the current slab, and the
  request is served from its start.
\<close>

theorem alloc_new_slab:
  assumes "0 \<le> n0" and "n0 \<le> 2 ^ 47 - 8200"
    and "int (length (cur a)) \<le> 2 ^ 47" and "0 \<le> off a" and "off a \<le> int (length (cur a))"
    and "off a + align8 n0 > int (length (cur a))"
  shows "\<exists>out a'. alloc a n0 = Some (out, a')
           \<and> cur a' = replicate (nat (newSlabSize a n0)) 0
           \<and> slabs a' = slabs a @ [cur a']
           \<and> off a' = align8 n0
           \<and> out = replicate (nat (align8 n0)) 0
           \<and> n0 \<le> align8 n0 \<and> align8 n0 < n0 + 8 \<and> 8 dvd align8 n0"
proof -
  from assms(1,2) have n62: "n0 \<le> 2 ^ 62" by simp
  note b = align8_bounds [OF assms(1) n62]
  let ?n = "align8 n0"
  let ?len = "int (length (cur a))"
  from assms(1) b(1) have n: "0 \<le> ?n" by simp
  from b(2) assms(2) have nu: "?n < 2 ^ 47 - 8192" by simp
  have w1: "wrap64 (off a + ?n) = off a + ?n"
    using assms(3-5) n nu by (intro wrap64_id) simp_all
  have w2: "wrap64 (?len * growFactor) = 2 * ?len"
    using assms(3) by (simp add: growFactor_def wrap64_id)
  have w3: "wrap64 (?n + 8) = ?n + 8"
    using n nu by (intro wrap64_id) simp_all
  have w4: "wrap64 (?n + initialSlabSize) = ?n + 8192"
    using n nu by (simp add: initialSlabSize_def wrap64_id)
  have w5: "wrap64 ?n = ?n"
    using n nu by (intro wrap64_id) simp_all
  have szeq: "(if wrap64 (?len * growFactor) < wrap64 (?n + 8) then wrap64 (?n + initialSlabSize)
               else wrap64 (?len * growFactor)) = newSlabSize a n0"
    by (simp add: w2 w3 w4 newSlabSize_def)
  have sz: "0 \<le> newSlabSize a n0" "newSlabSize a n0 \<le> maxAlloc" "?n \<le> newSlabSize a n0"
    using n nu assms(3) by (simp_all add: newSlabSize_def maxAlloc_def)
  have mk: "makeBytes (newSlabSize a n0) = Some (replicate (nat (newSlabSize a n0)) 0)"
    using sz by (simp add: makeBytes_def)
  have s1: "subslice (replicate (nat (newSlabSize a n0)) 0) 0 ?n = Some (replicate (nat ?n) 0)"
    using n sz by (simp add: subslice_def min_def)
  have s2: "subslice (replicate (nat ?n) (0 :: 8 word)) 0 ?n = Some (replicate (nat ?n) 0)"
    using n by (simp add: subslice_def)
  have "alloc a n0 = Some (replicate (nat ?n) 0,
      a\<lparr>slabs := slabs a @ [replicate (nat (newSlabSize a n0)) 0],
        cur := replicate (nat (newSlabSize a n0)) 0, off := ?n\<rparr>)"
    using assms(6)
    by (simp add: alloc_def Let_def w1 w5 szeq mk s1 s2)
  with b show ?thesis by simp
qed

theorem alloc_new_slab_witness:
  "(0::int) \<le> 20000 \<and> (20000::int) \<le> 2 ^ 47 - 8200
   \<and> int (length (cur \<lparr>slabs = [replicate 8192 0], cur = replicate 8192 0, off = 8000\<rparr>)) \<le> 2 ^ 47
   \<and> 0 \<le> off \<lparr>slabs = [replicate 8192 0], cur = replicate 8192 (0 :: 8 word), off = 8000\<rparr>
   \<and> off \<lparr>slabs = [replicate 8192 0], cur = replicate 8192 0, off = 8000\<rparr>
       \<le> int (length (cur \<lparr>slabs = [replicate 8192 0], cur = replicate 8192 0, off = 8000\<rparr>))
   \<and> off \<lparr>slabs = [replicate 8192 0], cur = replicate 8192 0, off = 8000\<rparr> + align8 20000
       > int (length (cur \<lparr>slabs = [replicate 8192 0], cur = replicate 8192 0, off = 8000\<rparr>))
   \<and> (\<exists>out a'. alloc \<lparr>slabs = [replicate 8192 0], cur = replicate 8192 0, off = 8000\<rparr> 20000 = Some (out, a')
         \<and> length (cur a') = 28192 \<and> off a' = 20000)"
proof -
  let ?a = "\<lparr>slabs = [replicate 8192 0], cur = replicate 8192 (0 :: 8 word), off = 8000\<rparr>"
  have al: "align8 20000 = 20000" by (simp add: align8_eq)
  have h1: "(0::int) \<le> 20000" by simp
  have h2: "(20000::int) \<le> 2 ^ 47 - 8200" by simp
  have h3: "int (length (cur ?a)) \<le> 2 ^ 47" by simp
  have h4: "0 \<le> off ?a" by simp
  have h5: "off ?a \<le> int (length (cur ?a))" by simp
  have h6: "off ?a + align8 20000 > int (length (cur ?a))" by (simp add: al)
  from alloc_new_slab [OF h1 h2 h3 h4 h5 h6] h6 show ?thesis
    by (auto simp: newSlabSize_def al)
qed


section \<open>Syntax tree\<close>

text \<open>The node types of package \<^verbatim>\<open>ast\<close>, with the fields that the dialect renderer and
  \<^verbatim>\<open>parseLimit\<close> read; the position \<^verbatim>\<open>TokPos\<close> of a node and the fields that no modelled
  function reads are left out. A Go struct is a record, or a constructor of a datatype where the
  type is recursive; an interface (\<^verbatim>\<open>Expr\<close>, \<^verbatim>\<open>TableRef\<close>, \<^verbatim>\<open>AlterCmd\<close>,
  \<^verbatim>\<open>Statement\<close>) is a datatype with one constructor for each implementing type. A pointer or
  interface field that the renderer tests against \<^verbatim>\<open>nil\<close> (itself or in the function it
  passes the field to) is an \<open>option\<close>; a field it dereferences without a test holds a
  value.\<close>

record Ident =
  idRaw :: string
  Unquoted :: string

record QualifiedIdent =
  Parts :: "Ident list"

record DataType =
  dtName :: string
  Precision :: int
  Scale :: int
  Unsigned :: bool
  Zerofill :: bool

datatype JoinKind = InnerJoin | LeftJoin | RightJoin | FullJoin | CrossJoin | NaturalJoin

datatype SetOp = Union | Intersect | Except

datatype Expr =
    IdentExpr Ident
  | QualifiedIdentExpr QualifiedIdent
  | StarExpr
  | Literal string TokenType
  | NullLit
  | Param string
  | BinaryExpr Expr Expr TokenType
  | UnaryExpr Expr TokenType
  | FuncCall "QualifiedIdent option" "Expr list" bool bool
  | CaseExpr "Expr option" "WhenClause list" "Expr option"
  | BetweenExpr Expr Expr Expr bool
  | InExpr Expr "Expr list" "SelectStmt option" bool
  | LikeExpr Expr Expr "Expr option" bool
  | IsNullExpr Expr bool
  | ExistsExpr SelectStmt bool
  | SubqueryExpr SelectStmt
  | CastExpr Expr DataType
  | IntervalExpr Expr string
  | SelectExpr SelectStmt
and WhenClause = WhenClause Expr Expr
and SelectStmt =
    SelectStmt "WithClause option" bool "SelectColumn list" "TableRef list" "Expr option"
      "Expr list" "Expr option" "OrderByItem list" "LimitClause option" "SetOperation option"
and WithClause = WithClause bool "CTE list"
and CTE = CTE "Ident option" "Ident list" SelectStmt
and SelectColumn = SelectColumn Expr "Ident option" bool
and OrderByItem = OrderByItem Expr bool
and LimitClause = LimitClause Expr "Expr option"
and SetOperation = SetOperation SetOp bool SelectStmt
and TableRef =
    SimpleTable "QualifiedIdent option" "Ident option"
  | SubqueryTable SelectStmt "Ident option"
  | JoinTable TableRef TableRef JoinKind "Expr option" "Ident list"

record Assignment =
  Column :: "Ident option"
  Value :: Expr

record InsertStmt =
  insWith :: "WithClause option"
  insTable :: "QualifiedIdent option"
  insColumns :: "Ident list"
  Values :: "Expr list list"
  insSelect :: "SelectStmt option"
  OnDupKey :: "Assignment list"
  OnConflictTarget :: "Ident list"
  OnConflictDoNothing :: bool
  OnConflictUpdate :: "Assignment list"
  Ignore :: bool
  Replace :: bool

record UpdateStmt =
  updWith :: "WithClause option"
  updTables :: "TableRef list"
  updSet :: "Assignment list"
  updWhere :: "Expr option"
  updOrder :: "OrderByItem list"
  updLimit :: "LimitClause option"

record DeleteStmt =
  delWith :: "WithClause option"
  delFrom :: "TableRef list"
  delWhere :: "Expr option"
  delOrder :: "OrderByItem list"
  delLimit :: "LimitClause option"

record TableOption =
  optKey :: string
  optValue :: string

record IndexColDef =
  icName :: "Ident option"
  icLength :: "int option"
  icDesc :: bool

datatype ConstraintType =
    PrimaryKeyConstraint | UniqueConstraint | IndexConstraint | ForeignKeyConstraint
  | CheckConstraint | FulltextConstraint | SpatialConstraint

text \<open>\<^verbatim>\<open>Comment *Literal\<close> holds the raw bytes and the kind of the literal.\<close>

record ColumnDef =
  cdName :: "Ident option"
  cdType :: "DataType option"
  NotNull :: bool
  Default :: "Expr option"
  AutoIncrement :: bool
  PrimaryKey :: bool
  Unique :: bool
  Comment :: "(string \<times> TokenType) option"

record TableConstraint =
  tcName :: "Ident option"
  tcType :: ConstraintType
  tcColumns :: "IndexColDef list"
  RefTable :: "QualifiedIdent option"
  RefCols :: "Ident list"

record CreateTableStmt =
  ctTable :: "QualifiedIdent option"
  IfNotExists :: bool
  ctColumns :: "ColumnDef list"
  Constraints :: "TableConstraint list"
  ctOptions :: "TableOption list"
  ctSelect :: "SelectStmt option"
  ctLike :: "QualifiedIdent option"

datatype AlterCmd =
    AddColumnCmd ColumnDef bool "Ident option"
  | DropColumnCmd "Ident option"
  | ModifyColumnCmd ColumnDef bool "Ident option"
  | AddConstraintCmd TableConstraint
  | DropIndexCmd "Ident option"
  | RenameTableCmd "QualifiedIdent option"

text \<open>The statements. The constructor arguments are the fields in the order of the Go struct:
  \<^verbatim>\<open>AlterTableStmt{Table, Cmds}\<close>, \<^verbatim>\<open>DropTableStmt{Tables, IfExists, Cascade}\<close>,
  \<^verbatim>\<open>CreateIndexStmt{Name, Table, Columns, Type}\<close>, \<^verbatim>\<open>DropIndexStmt{Name, Table, IfExists}\<close>,
  \<^verbatim>\<open>CreateViewStmt{Name, Columns, Select, OrReplace}\<close>,
  \<^verbatim>\<open>CreateDatabaseStmt{Name, IfNotExists, Options}\<close>, \<^verbatim>\<open>AlterDatabaseStmt{Name, Options}\<close>,
  \<^verbatim>\<open>DropDatabaseStmt{Name, IfExists}\<close>, \<^verbatim>\<open>TruncateStmt{Table}\<close>, \<^verbatim>\<open>UseStmt{Database}\<close>,
  \<^verbatim>\<open>ShowStmt{What, Like, Where}\<close>, \<^verbatim>\<open>ExplainStmt{Stmt}\<close>, \<^verbatim>\<open>CallStmt{Name, Args}\<close>,
  \<^verbatim>\<open>TransactionStmt{Action, Savepoint, Options}\<close>, \<^verbatim>\<open>GenericDDLStmt{Verb, Object, Name}\<close>.
  Every statement type of package \<^verbatim>\<open>ast\<close> is listed, so the one value of the interface
  \<^verbatim>\<open>Statement\<close> that is none of them is \<^verbatim>\<open>nil\<close>, here \<open>NilStatement\<close>.\<close>

datatype Statement =
    Select SelectStmt
  | Insert InsertStmt
  | Update UpdateStmt
  | Delete DeleteStmt
  | CreateTable CreateTableStmt
  | AlterTableStmt "QualifiedIdent option" "AlterCmd list"
  | DropTableStmt "QualifiedIdent list" bool bool
  | CreateIndexStmt "Ident option" "QualifiedIdent option" "IndexColDef list" ConstraintType
  | DropIndexStmt "Ident option" "QualifiedIdent option" bool
  | CreateViewStmt "QualifiedIdent option" "Ident list" SelectStmt bool
  | CreateDatabaseStmt "Ident option" bool "TableOption list"
  | AlterDatabaseStmt "Ident option" "TableOption list"
  | DropDatabaseStmt "Ident option" bool
  | TruncateStmt "QualifiedIdent option"
  | UseStmt "Ident option"
  | ShowStmt string "(string \<times> TokenType) option" "Expr option"
  | ExplainStmt Statement
  | CallStmt "QualifiedIdent option" "Expr list"
  | TransactionStmt string "Ident option" "string list"
  | GenericDDLStmt string string "Ident option"
  | NilStatement

section \<open>Names of the token kinds\<close>

text \<open>\<^verbatim>\<open>tokenNames\<close> is an array indexed by token kind; its literal gives a name to every kind
  from \<^verbatim>\<open>ILLEGAL\<close> to \<^verbatim>\<open>QMARKAMP\<close>, so its length is \<open>QMARKAMP + 1\<close>.
  \<^verbatim>\<open>String\<close> reads the array and answers \<^verbatim>\<open>UNKNOWN\<close> beyond it.\<close>

definition tokenNames :: "(TokenType \<times> string) list" where
  "tokenNames = [
    (ILLEGAL, ''ILLEGAL''),
    (EOF, ''EOF''),
    (COMMENT, ''COMMENT''),
    (WHITESPACE, ''WHITESPACE''),
    (IDENT, ''IDENT''),
    (INT_tok, ''INT''),
    (FLOAT, ''FLOAT''),
    (STRING, ''STRING''),
    (BACKTICK, ''BACKTICK''),
    (DQUOTE, ''DQUOTE''),
    (HEXLIT, ''HEXLIT''),
    (BITLIT, ''BITLIT''),
    (NAMEDPARAM, ''NAMEDPARAM''),
    (LPAREN, ''(''),
    (RPAREN, '')''),
    (LBRACE, ''{''),
    (RBRACE, ''}''),
    (LBRACKET, ''[''),
    (RBRACKET, '']''),
    (COMMA, '',''),
    (SEMICOLON, '';''),
    (COLON, '':''),
    (DOT, ''.''),
    (DOTDOT, ''..''),
    (STAR, ''*''),
    (PLUS, ''+''),
    (MINUS, ''-''),
    (SLASH, ''/''),
    (PERCENT, ''%''),
    (AMPERSAND, ''&''),
    (PIPE, ''|''),
    (CARET, ''^''),
    (TILDE, ''~''),
    (BANG, ''!''),
    (QUESTION, ''?''),
    (AT, ''@''),
    (HASH, ''#''),
    (DOLLAR, ''$''),
    (EQ, ''=''),
    (NEQ, ''!=''),
    (LT, ''<''),
    (GT, ''>''),
    (LTE, ''<=''),
    (GTE, ''>=''),
    (LSHIFT, ''<<''),
    (RSHIFT, ''>>''),
    (DBAR, ''||''),
    (DAMP, ''&&''),
    (DARROW, ''=>''),
    (ARROW, ''->''),
    (DARROW2, ''->>''),
    (HASHARROW, ''#>''),
    (HASHDARROW, ''#>>''),
    (ATGT, ''@>''),
    (LTAT, ''<@''),
    (QMARKPIPE, ''?|''),
    (QMARKAMP, ''?&'')]"

definition tokenString :: "TokenType \<Rightarrow> string" where
  "tokenString t =
     (if t < QMARKAMP + 1 then (case map_of tokenNames t of Some s \<Rightarrow> s | None \<Rightarrow> [])
      else ''UNKNOWN'')"

section \<open>Dialect renderer\<close>

type_synonym Dialect = string

definition DialectMySQL :: Dialect where "DialectMySQL = ''mysql''"
definition DialectPostgres :: Dialect where "DialectPostgres = ''postgres''"
definition DialectSQLite :: Dialect where "DialectSQLite = ''sqlite''"

text \<open>The field \<^verbatim>\<open>paramIndex\<close> is a Go \<^verbatim>\<open>int\<close>, of 64 bits as on the 64-bit platforms: the
  increment wraps, and \<open>sint\<close> reads the signed value.\<close>

record dialectRenderer =
  target :: Dialect
  strict :: bool
  paramIndex :: "64 word"

text \<open>The two errors of the renderer: \<^verbatim>\<open>unsupported statement type %T\<close> and
  \<^verbatim>\<open>cannot rewrite ON DUPLICATE KEY without conflict target\<close>.\<close>

datatype RenderError = UnsupportedStatement | NoConflictTarget

subsection \<open>Functions of the standard library\<close>

text \<open>\<^verbatim>\<open>strconv.Itoa\<close>: the decimal digits, with a minus sign for a negative number.\<close>

fun decimal :: "nat \<Rightarrow> string" where
  "decimal n = (if n < 10 then [char_of (48 + n)] else decimal (n div 10) @ [char_of (48 + n mod 10)])"

declare decimal.simps [simp del]

definition Itoa :: "int \<Rightarrow> string" where
  "Itoa i = (if i < 0 then CHR ''-'' # decimal (nat (- i)) else decimal (nat i))"

text \<open>\<^verbatim>\<open>strings.ReplaceAll(s, old, new)\<close> for a pattern \<open>old\<close> of one byte, the only use the
  renderer makes of it.\<close>

definition ReplaceAll :: "string \<Rightarrow> char \<Rightarrow> string \<Rightarrow> string" where
  "ReplaceAll s old new = concat (map (\<lambda>c. if c = old then new else [c]) s)"

text \<open>\<^verbatim>\<open>strings.ToUpper\<close>, modelled on the ASCII letters; bytes outside ASCII are left as
  they are (the library also maps the letters of other scripts, by the tables of the
  \<^verbatim>\<open>unicode\<close> package, which are not part of this model).\<close>

definition upperByte :: "char \<Rightarrow> char" where
  "upperByte c = (if CHR ''a'' \<le> c \<and> c \<le> CHR ''z'' then char_of (of_char c - (32::nat)) else c)"

definition ToUpper :: "string \<Rightarrow> string" where
  "ToUpper s = map upperByte s"

text \<open>\<^verbatim>\<open>strings.EqualFold(s, t)\<close> for a string \<open>t\<close> of lower-case ASCII letters other than
  \<^verbatim>\<open>k\<close>, the only use the renderer makes of it (\<open>t\<close> is \<^verbatim>\<open>jsonb\<close> or \<^verbatim>\<open>json\<close>). Under Unicode
  simple case folding a letter of \<open>t\<close> is matched by itself, by its upper-case letter and, for
  \<^verbatim>\<open>s\<close>, by the long s U+017F, whose encoding is the two bytes C5 BF.\<close>

fun foldLongS :: "string \<Rightarrow> string" where
  "foldLongS (c # d # cs) =
     (if c = CHR 0xC5 \<and> d = CHR 0xBF then CHR ''s'' # foldLongS cs else c # foldLongS (d # cs))"
| "foldLongS cs = cs"

definition EqualFold :: "string \<Rightarrow> string \<Rightarrow> bool" where
  "EqualFold s t \<longleftrightarrow> map lowerByte (foldLongS s) = t"

subsection \<open>Building the output\<close>

text \<open>A method of the renderer that may change \<^verbatim>\<open>paramIndex\<close> is a function from the
  renderer to a result and the renderer afterwards. The Go methods write into a
  \<^verbatim>\<open>strings.Builder\<close> (or append with \<^verbatim>\<open>+=\<close>) piece by piece; the model lists the pieces in
  the order in which the method produces them and \<open>catR\<close> runs them in that order.\<close>

type_synonym 'a R = "dialectRenderer \<Rightarrow> 'a \<times> dialectRenderer"

text \<open>A literal piece, and a piece computed by a method that only reads the renderer.\<close>

definition lit :: "string \<Rightarrow> string R" where
  "lit s = (\<lambda>r. (s, r))"

definition rd :: "(dialectRenderer \<Rightarrow> string) \<Rightarrow> string R" where
  "rd f = (\<lambda>r. (f r, r))"

fun catR :: "string R list \<Rightarrow> string R" where
  "catR [] = (\<lambda>r. ([], r))"
| "catR (m # ms) = (\<lambda>r. let (s, r1) = m r; (t, r2) = catR ms r1 in (s @ t, r2))"

declare catR.simps [simp del]

text \<open>\<^verbatim>\<open>if c { ... }\<close> around a piece.\<close>

definition whenR :: "bool \<Rightarrow> string R \<Rightarrow> string R" where
  "whenR c m = (if c then m else lit [])"

text \<open>\<^verbatim>\<open>for i, x := range xs { if i > 0 { b.WriteString(sep) }; ... }\<close>.\<close>

fun joinR :: "string \<Rightarrow> string R list \<Rightarrow> string R" where
  "joinR sep [] = lit []"
| "joinR sep (m # ms) = catR (m # map (\<lambda>x. catR [lit sep, x]) ms)"

declare joinR.simps [simp del]

text \<open>A method with the result \<^verbatim>\<open>(string, error)\<close> yields \<open>Inl\<close> of the error or \<open>Inr\<close> of
  the string. \<open>catE\<close> runs such pieces in order and stops at the first error, as
  \<^verbatim>\<open>if err != nil { return "", err }\<close> does; \<open>ok\<close> is a piece that cannot fail; \<open>dropErr\<close> is
  \<^verbatim>\<open>s, _ := ...\<close>, whose string is empty when the call failed.\<close>

definition ok :: "string R \<Rightarrow> (RenderError + string) R" where
  "ok m = (\<lambda>r. let (s, r1) = m r in (Inr s, r1))"

fun catE :: "(RenderError + string) R list \<Rightarrow> (RenderError + string) R" where
  "catE [] = (\<lambda>r. (Inr [], r))"
| "catE (m # ms) =
     (\<lambda>r. case m r of
        (Inl e, r1) \<Rightarrow> (Inl e, r1)
      | (Inr s, r1) \<Rightarrow>
          (case catE ms r1 of
             (Inl e, r2) \<Rightarrow> (Inl e, r2)
           | (Inr t, r2) \<Rightarrow> (Inr (s @ t), r2)))"

declare catE.simps [simp del]

definition dropErr :: "(RenderError + string) R \<Rightarrow> string R" where
  "dropErr m = (\<lambda>r. case m r of (Inl e, r1) \<Rightarrow> ([], r1) | (Inr s, r1) \<Rightarrow> (s, r1))"

subsection \<open>Methods that only read the renderer\<close>

definition renderIdent :: "dialectRenderer \<Rightarrow> Ident option \<Rightarrow> string" where
  "renderIdent r ident =
     (case ident of
        None \<Rightarrow> []
      | Some i \<Rightarrow>
          let name = Unquoted i in
          if name = ''*'' then ''*''
          else if target r = DialectMySQL
               then [CHR 0x60] @ ReplaceAll name (CHR 0x60) [CHR 0x60, CHR 0x60] @ [CHR 0x60]
               else [CHR 0x22] @ ReplaceAll name (CHR 0x22) [CHR 0x22, CHR 0x22] @ [CHR 0x22])"

text \<open>A loop that joins strings with a separator, for the methods that only read.\<close>

fun joinS :: "string \<Rightarrow> string list \<Rightarrow> string" where
  "joinS sep [] = []"
| "joinS sep (s # ss) = s @ concat (map (\<lambda>x. sep @ x) ss)"

definition renderQualifiedIdent :: "dialectRenderer \<Rightarrow> QualifiedIdent option \<Rightarrow> string" where
  "renderQualifiedIdent r q =
     (case q of
        None \<Rightarrow> []
      | Some qi \<Rightarrow> joinS ''.'' (map (\<lambda>p. renderIdent r (Some p)) (Parts qi)))"

definition renderFunctionName :: "dialectRenderer \<Rightarrow> QualifiedIdent option \<Rightarrow> string" where
  "renderFunctionName r name =
     (case name of
        None \<Rightarrow> []
      | Some q \<Rightarrow>
          if Parts q = [] then []
          else if length (Parts q) = 1 then
            let fn = ToUpper (Unquoted (Parts q ! 0)) in
            if target r = DialectPostgres \<or> target r = DialectSQLite then
              (if fn = ''IFNULL'' then ''COALESCE'' else fn)
            else if target r = DialectMySQL then
              (if fn = ''COALESCE'' then ''IFNULL'' else fn)
            else fn
          else renderQualifiedIdent r name)"

definition opString :: "dialectRenderer \<Rightarrow> TokenType \<Rightarrow> string" where
  "opString r op =
     (if op = PLUS then ''+''
      else if op = MINUS then ''-''
      else if op = STAR then ''*''
      else if op = SLASH then ''/''
      else if op = PERCENT then ''%''
      else if op = AND \<or> op = DAMP then ''AND''
      else if op = OR then ''OR''
      else if op = NOT then ''NOT''
      else if op = EQ then ''=''
      else if op = NEQ then ''!=''
      else if op = LT then ''<''
      else if op = GT then ''>''
      else if op = LTE then ''<=''
      else if op = GTE then ''>=''
      else if op = LSHIFT then ''<<''
      else if op = RSHIFT then ''>>''
      else if op = DBAR then ''||''
      else if op = PIPE then ''|''
      else if op = CARET then ''^''
      else if op = AMPERSAND then ''&''
      else if op = ARROW then ''->''
      else if op = DARROW2 then ''->>''
      else if op = HASHARROW then ''#>''
      else if op = HASHDARROW then ''#>>''
      else if op = ATGT then ''@>''
      else if op = LTAT then ''<@''
      else if op = QUESTION then ''?''
      else if op = QMARKPIPE then ''?|''
      else if op = QMARKAMP then ''?&''
      else tokenString op)"

definition renderDataType :: "dialectRenderer \<Rightarrow> DataType \<Rightarrow> string" where
  "renderDataType r dt =
     (let name = dtName dt;
          name =
            (if EqualFold name ''jsonb'' then
               (let n1 = (if target r = DialectMySQL then ''JSON'' else name)
                in if target r = DialectSQLite then ''TEXT'' else n1)
             else if EqualFold name ''json'' then
               (if target r = DialectSQLite then ''TEXT'' else name)
             else name)
      in name
         @ (if Precision dt > 0
            then ''('' @ Itoa (Precision dt)
                 @ (if Scale dt > 0 then '','' @ Itoa (Scale dt) else []) @ '')''
            else [])
         @ (if Unsigned dt \<and> target r = DialectMySQL then '' UNSIGNED'' else [])
         @ (if Zerofill dt \<and> target r = DialectMySQL then '' ZEROFILL'' else []))"

definition renderConstraint :: "dialectRenderer \<Rightarrow> TableConstraint \<Rightarrow> string" where
  "renderConstraint r c =
     (case tcName c of None \<Rightarrow> [] | Some n \<Rightarrow> ''CONSTRAINT '' @ renderIdent r (Some n) @ '' '')
     @ (case tcType c of
          PrimaryKeyConstraint \<Rightarrow> ''PRIMARY KEY''
        | UniqueConstraint \<Rightarrow> ''UNIQUE''
        | IndexConstraint \<Rightarrow> ''INDEX''
        | ForeignKeyConstraint \<Rightarrow> ''FOREIGN KEY''
        | CheckConstraint \<Rightarrow> ''CHECK''
        | FulltextConstraint \<Rightarrow> []
        | SpatialConstraint \<Rightarrow> [])
     @ (if tcColumns c \<noteq> []
        then '' ('' @ joinS '', '' (map (\<lambda>ic. renderIdent r (icName ic)) (tcColumns c)) @ '')''
        else [])
     @ (case RefTable c of
          None \<Rightarrow> []
        | Some t \<Rightarrow>
            '' REFERENCES '' @ renderQualifiedIdent r (Some t)
            @ (if RefCols c \<noteq> []
               then '' ('' @ joinS '', '' (map (\<lambda>rc. renderIdent r (Some rc)) (RefCols c)) @ '')''
               else []))"

definition renderTx :: "dialectRenderer \<Rightarrow> string \<Rightarrow> Ident option \<Rightarrow> string list \<Rightarrow> string" where
  "renderTx r action savepoint options =
     (if action = ''begin'' then ''BEGIN''
      else if action = ''commit'' then ''COMMIT''
      else if action = ''rollback'' then
        (case savepoint of
           None \<Rightarrow> ''ROLLBACK''
         | Some s \<Rightarrow> ''ROLLBACK TO SAVEPOINT '' @ renderIdent r (Some s))
      else if action = ''start_transaction'' then
        ''START TRANSACTION'' @ concat (map (\<lambda>opt. '' '' @ opt) options)
      else if action = ''savepoint'' then ''SAVEPOINT '' @ renderIdent r savepoint
      else if action = ''release_savepoint'' then ''RELEASE SAVEPOINT '' @ renderIdent r savepoint
      else if action = ''set_transaction'' then
        ''SET TRANSACTION'' @ concat (map (\<lambda>opt. '' '' @ opt) options)
      else ToUpper action)"

definition renderGenericDDL :: "dialectRenderer \<Rightarrow> string \<Rightarrow> string \<Rightarrow> Ident option \<Rightarrow> string" where
  "renderGenericDDL r verb object name =
     ToUpper verb @ '' '' @ ToUpper object
     @ (case name of None \<Rightarrow> [] | Some n \<Rightarrow> '' '' @ renderIdent r (Some n))"

text \<open>The loop over table options shared by three statements:
  \<^verbatim>\<open>b.WriteByte(' '); b.WriteString(string(opt.Key)); if len(opt.Value) > 0 { ... }\<close>.\<close>

definition renderOptions :: "TableOption list \<Rightarrow> string" where
  "renderOptions opts =
     concat (map (\<lambda>opt. '' '' @ optKey opt
                         @ (if optValue opt \<noteq> [] then ''='' @ optValue opt else [])) opts)"

subsection \<open>Methods that render expressions\<close>

definition renderParam :: "string \<Rightarrow> string R" where
  "renderParam raw =
     (\<lambda>r. if target r = DialectPostgres
           then (''$'' @ Itoa (sint (paramIndex r + 1)), r\<lparr>paramIndex := paramIndex r + 1\<rparr>)
           else (''?'', r))"

text \<open>The methods \<^verbatim>\<open>renderExpr\<close>, \<^verbatim>\<open>renderSelect\<close>, \<^verbatim>\<open>renderWith\<close> and
  \<^verbatim>\<open>renderTableRef\<close> call each other. The loops inside them over the \<^verbatim>\<open>WHEN\<close> clauses, the
  CTEs, the select columns, the order items and the limit clause are the functions on those
  node types. \<open>renderSetOps\<close> is the loop at the end of \<^verbatim>\<open>renderSelect\<close>,
  \<^verbatim>\<open>for cur != nil { ...; right, err := r.renderSelect(cur.Right); ...; cur = cur.Right.SetOp }\<close>,
  started at the chain \<^verbatim>\<open>cur\<close>: it renders \<^verbatim>\<open>cur.Right\<close>, which renders the rest of the chain
  itself, and then goes on with \<^verbatim>\<open>cur.Right.SetOp\<close>, which is \<open>renderRestOps\<close>.\<close>

fun renderExpr :: "Expr \<Rightarrow> string R"
  and renderWhen :: "WhenClause \<Rightarrow> string R"
  and renderSelect :: "SelectStmt \<Rightarrow> (RenderError + string) R"
  and renderRestOps :: "SelectStmt \<Rightarrow> (RenderError + string) R"
  and renderSetOps :: "SetOperation \<Rightarrow> (RenderError + string) R"
  and renderWith :: "WithClause \<Rightarrow> string R"
  and renderCTE :: "CTE \<Rightarrow> string R"
  and renderSelectColumn :: "SelectColumn \<Rightarrow> string R"
  and renderOrderItem :: "OrderByItem \<Rightarrow> string R"
  and renderLimit :: "LimitClause \<Rightarrow> string R"
  and renderTableRef :: "TableRef \<Rightarrow> string R"
where
  "renderExpr (IdentExpr e) = rd (\<lambda>r. renderIdent r (Some e))"
| "renderExpr (QualifiedIdentExpr e) = rd (\<lambda>r. renderQualifiedIdent r (Some e))"
| "renderExpr StarExpr = lit ''*''"
| "renderExpr (Literal raw kind) = lit raw"
| "renderExpr NullLit = lit ''NULL''"
| "renderExpr (Param raw) = renderParam raw"
| "renderExpr (BinaryExpr left right op) =
     catR [lit ''('', renderExpr left, lit '' '', rd (\<lambda>r. opString r op), lit '' '',
           renderExpr right, lit '')'']"
| "renderExpr (UnaryExpr e op) =
     catR [lit ''('', rd (\<lambda>r. opString r op), lit '' '', renderExpr e, lit '')'']"
| "renderExpr (FuncCall name args dist star) =
     catR [rd (\<lambda>r. renderFunctionName r name), lit ''('',
           (if star then lit ''*''
            else catR [whenR dist (lit ''DISTINCT ''), joinR '', '' (map renderExpr args)]),
           lit '')'']"
| "renderExpr (CaseExpr operand whens els) =
     catR [lit ''CASE'',
           (case operand of None \<Rightarrow> lit [] | Some e \<Rightarrow> catR [lit '' '', renderExpr e]),
           catR (map renderWhen whens),
           (case els of None \<Rightarrow> lit [] | Some e \<Rightarrow> catR [lit '' ELSE '', renderExpr e]),
           lit '' END'']"
| "renderExpr (BetweenExpr e lo hi neg) =
     catR [renderExpr e, whenR neg (lit '' NOT''), lit '' BETWEEN '', renderExpr lo,
           lit '' AND '', renderExpr hi]"
| "renderExpr (InExpr e items subq neg) =
     catR [renderExpr e, whenR neg (lit '' NOT''), lit '' IN ('',
           (case subq of
              Some s \<Rightarrow> dropErr (renderSelect s)
            | None \<Rightarrow> joinR '', '' (map renderExpr items)),
           lit '')'']"
| "renderExpr (LikeExpr e pat esc neg) =
     catR [renderExpr e, whenR neg (lit '' NOT''), lit '' LIKE '', renderExpr pat,
           (case esc of None \<Rightarrow> lit [] | Some x \<Rightarrow> catR [lit '' ESCAPE '', renderExpr x])]"
| "renderExpr (IsNullExpr e neg) =
     catR [renderExpr e, lit '' IS '', whenR neg (lit ''NOT ''), lit ''NULL'']"
| "renderExpr (ExistsExpr subq neg) =
     catR [whenR neg (lit ''NOT ''), lit ''EXISTS ('', dropErr (renderSelect subq), lit '')'']"
| "renderExpr (SubqueryExpr subq) = catR [lit ''('', dropErr (renderSelect subq), lit '')'']"
| "renderExpr (CastExpr e dt) =
     catR [lit ''CAST('', renderExpr e, lit '' AS '', rd (\<lambda>r. renderDataType r dt), lit '')'']"
| "renderExpr (IntervalExpr e u) = lit []"
| "renderExpr (SelectExpr s) = catR [lit ''('', dropErr (renderSelect s), lit '')'']"
| "renderWhen (WhenClause cond result) =
     catR [lit '' WHEN '', renderExpr cond, lit '' THEN '', renderExpr result]"
| "renderSelect (SelectStmt withC dist cols froms wher groupBy hav orderBy lim setOp) =
     catE [ok (case withC of None \<Rightarrow> lit [] | Some w \<Rightarrow> renderWith w),
           ok (lit ''SELECT ''),
           ok (whenR dist (lit ''DISTINCT '')),
           ok (joinR '', '' (map renderSelectColumn cols)),
           ok (whenR (froms \<noteq> []) (catR [lit '' FROM '', joinR '', '' (map renderTableRef froms)])),
           ok (case wher of None \<Rightarrow> lit [] | Some e \<Rightarrow> catR [lit '' WHERE '', renderExpr e]),
           ok (whenR (groupBy \<noteq> []) (catR [lit '' GROUP BY '', joinR '', '' (map renderExpr groupBy)])),
           ok (case hav of None \<Rightarrow> lit [] | Some e \<Rightarrow> catR [lit '' HAVING '', renderExpr e]),
           ok (whenR (orderBy \<noteq> [])
                 (catR [lit '' ORDER BY '', joinR '', '' (map renderOrderItem orderBy)])),
           ok (case lim of None \<Rightarrow> lit [] | Some l \<Rightarrow> renderLimit l),
           (case setOp of None \<Rightarrow> ok (lit []) | Some chain \<Rightarrow> renderSetOps chain)]"
| "renderRestOps (SelectStmt withC dist cols froms wher groupBy hav orderBy lim setOp) =
     (case setOp of None \<Rightarrow> ok (lit []) | Some chain \<Rightarrow> renderSetOps chain)"
| "renderSetOps (SetOperation op isAll right) =
     catE [ok (lit '' ''),
           ok (lit (case op of Union \<Rightarrow> ''UNION'' | Intersect \<Rightarrow> ''INTERSECT'' | Except \<Rightarrow> ''EXCEPT'')),
           ok (whenR isAll (lit '' ALL'')),
           ok (lit '' ''),
           renderSelect right,
           renderRestOps right]"
| "renderWith (WithClause recursive ctes) =
     catR [lit ''WITH '', whenR recursive (lit ''RECURSIVE ''), joinR '', '' (map renderCTE ctes),
           lit '' '']"
| "renderCTE (CTE name cols subq) =
     catR [rd (\<lambda>r. renderIdent r name),
           whenR (cols \<noteq> [])
             (catR [lit '' ('', rd (\<lambda>r. joinS '', '' (map (\<lambda>c. renderIdent r (Some c)) cols)),
                    lit '')'']),
           lit '' AS ('', dropErr (renderSelect subq), lit '')'']"
| "renderSelectColumn (SelectColumn e alias star) =
     catR [(if star then lit ''*'' else renderExpr e),
           (case alias of None \<Rightarrow> lit [] | Some a \<Rightarrow> catR [lit '' AS '', rd (\<lambda>r. renderIdent r (Some a))])]"
| "renderOrderItem (OrderByItem e desc) =
     catR [renderExpr e, (if desc then lit '' DESC'' else lit '' ASC'')]"
| "renderLimit (LimitClause cnt offs) =
     catR [lit '' LIMIT '', renderExpr cnt,
           (case offs of None \<Rightarrow> lit [] | Some e \<Rightarrow> catR [lit '' OFFSET '', renderExpr e])]"
| "renderTableRef (SimpleTable name alias) =
     catR [rd (\<lambda>r. renderQualifiedIdent r name),
           (case alias of None \<Rightarrow> lit [] | Some a \<Rightarrow> catR [lit '' '', rd (\<lambda>r. renderIdent r (Some a))])]"
| "renderTableRef (SubqueryTable subq alias) =
     catR [lit ''('', dropErr (renderSelect subq), lit '')'',
           (case alias of None \<Rightarrow> lit [] | Some a \<Rightarrow> catR [lit '' '', rd (\<lambda>r. renderIdent r (Some a))])]"
| "renderTableRef (JoinTable left right kind onE usingC) =
     catR [renderTableRef left, lit '' '',
           lit (case kind of
                  InnerJoin \<Rightarrow> ''JOIN '' | LeftJoin \<Rightarrow> ''LEFT JOIN '' | RightJoin \<Rightarrow> ''RIGHT JOIN ''
                | FullJoin \<Rightarrow> ''FULL JOIN '' | CrossJoin \<Rightarrow> ''CROSS JOIN ''
                | NaturalJoin \<Rightarrow> ''NATURAL JOIN ''),
           renderTableRef right,
           (case onE of None \<Rightarrow> lit [] | Some e \<Rightarrow> catR [lit '' ON '', renderExpr e]),
           whenR (usingC \<noteq> [])
             (catR [lit '' USING ('', rd (\<lambda>r. joinS '', '' (map (\<lambda>c. renderIdent r (Some c)) usingC)),
                    lit '')''])]"

subsection \<open>Methods that render statements\<close>

text \<open>The loop over assignments, which \<^verbatim>\<open>renderInsert\<close> and \<^verbatim>\<open>renderUpdate\<close> write out
  in the same form.\<close>

definition renderAssignments :: "Assignment list \<Rightarrow> string R" where
  "renderAssignments assign =
     joinR '', '' (map (\<lambda>a. catR [rd (\<lambda>r. renderIdent r (Column a)), lit '' = '',
                                      renderExpr (Value a)]) assign)"

definition renderIdentList :: "Ident list \<Rightarrow> string R" where
  "renderIdentList ids = rd (\<lambda>r. joinS '', '' (map (\<lambda>c. renderIdent r (Some c)) ids))"

text \<open>\<^verbatim>\<open>renderInsert\<close> up to the \<^verbatim>\<open>switch r.target\<close>: the statement without its upsert
  clause.\<close>

definition renderInsertHead :: "InsertStmt \<Rightarrow> (RenderError + string) R" where
  "renderInsertHead s =
     catE [ok (case insWith s of None \<Rightarrow> lit [] | Some w \<Rightarrow> renderWith w),
           ok (if Replace s then lit ''REPLACE INTO ''
               else catR [lit ''INSERT '',
                          rd (\<lambda>r. if Ignore s \<and> target r = DialectMySQL then ''IGNORE '' else []),
                          lit ''INTO '']),
           ok (rd (\<lambda>r. renderQualifiedIdent r (insTable s))),
           ok (whenR (insColumns s \<noteq> []) (catR [lit '' ('', renderIdentList (insColumns s), lit '')''])),
           (if Values s \<noteq> [] then
              ok (catR [lit '' VALUES '',
                        joinR '', '' (map (\<lambda>row. catR [lit ''('', joinR '', '' (map renderExpr row),
                                                         lit '')'']) (Values s))])
            else case insSelect s of
                   None \<Rightarrow> ok (lit [])
                 | Some sel \<Rightarrow> catE [ok (lit '' ''), renderSelect sel])]"

text \<open>The \<^verbatim>\<open>switch r.target\<close> of \<^verbatim>\<open>renderInsert\<close>: the upsert clause.\<close>

definition renderUpsert :: "InsertStmt \<Rightarrow> (RenderError + string) R" where
  "renderUpsert s =
     (\<lambda>r.
        if target r = DialectMySQL then
          (let assign = (if OnDupKey s = [] then OnConflictUpdate s else OnDupKey s)
           in ok (whenR (assign \<noteq> [])
                    (catR [lit '' ON DUPLICATE KEY UPDATE '', renderAssignments assign])) r)
        else if target r = DialectPostgres \<or> target r = DialectSQLite then
          (let tgt = OnConflictTarget s;
               assign = (if OnConflictUpdate s = [] \<and> OnDupKey s \<noteq> [] then OnDupKey s
                         else OnConflictUpdate s);
               doNothing = OnConflictDoNothing s
           in if assign \<noteq> [] \<or> doNothing then
                if tgt = [] \<and> assign \<noteq> [] \<and> insColumns s = [] \<and> strict r
                then (Inl NoConflictTarget, r)
                else
                  (let tgt = (if tgt = [] \<and> assign \<noteq> [] \<and> insColumns s \<noteq> []
                              then [insColumns s ! 0] else tgt)
                   in ok (catR [lit '' ON CONFLICT'',
                                whenR (tgt \<noteq> []) (catR [lit '' ('', renderIdentList tgt, lit '')'']),
                                (if doNothing \<and> assign = [] then lit '' DO NOTHING''
                                 else catR [lit '' DO UPDATE SET '', renderAssignments assign])]) r)
              else (Inr [], r))
        else (Inr [], r))"

definition renderInsert :: "InsertStmt \<Rightarrow> (RenderError + string) R" where
  "renderInsert s = catE [renderInsertHead s, renderUpsert s]"

text \<open>\<^verbatim>\<open>renderUpdate\<close> and \<^verbatim>\<open>renderDelete\<close> write \<^verbatim>\<open>DESC\<close> for a descending order item and
  nothing otherwise, and only the count of the limit clause.\<close>

definition renderOrderTail :: "OrderByItem list \<Rightarrow> string R" where
  "renderOrderTail order =
     whenR (order \<noteq> [])
       (catR [lit '' ORDER BY '',
              joinR '', '' (map (\<lambda>item. case item of OrderByItem e desc \<Rightarrow>
                                        catR [renderExpr e, whenR desc (lit '' DESC'')]) order)])"

definition renderLimitCount :: "LimitClause option \<Rightarrow> string R" where
  "renderLimitCount lim =
     (case lim of
        None \<Rightarrow> lit []
      | Some (LimitClause cnt offs) \<Rightarrow> catR [lit '' LIMIT '', renderExpr cnt])"

definition renderWhere :: "Expr option \<Rightarrow> string R" where
  "renderWhere w = (case w of None \<Rightarrow> lit [] | Some e \<Rightarrow> catR [lit '' WHERE '', renderExpr e])"

definition renderUpdate :: "UpdateStmt \<Rightarrow> (RenderError + string) R" where
  "renderUpdate s =
     ok (catR [(case updWith s of None \<Rightarrow> lit [] | Some w \<Rightarrow> renderWith w),
               lit ''UPDATE '',
               joinR '', '' (map renderTableRef (updTables s)),
               lit '' SET '',
               renderAssignments (updSet s),
               renderWhere (updWhere s),
               renderOrderTail (updOrder s),
               renderLimitCount (updLimit s)])"

definition renderDelete :: "DeleteStmt \<Rightarrow> (RenderError + string) R" where
  "renderDelete s =
     ok (catR [(case delWith s of None \<Rightarrow> lit [] | Some w \<Rightarrow> renderWith w),
               lit ''DELETE FROM '',
               joinR '', '' (map renderTableRef (delFrom s)),
               renderWhere (delWhere s),
               renderOrderTail (delOrder s),
               renderLimitCount (delLimit s)])"

definition renderColumnDef :: "ColumnDef \<Rightarrow> string R" where
  "renderColumnDef c =
     catR [rd (\<lambda>r. renderIdent r (cdName c)),
           (case cdType c of None \<Rightarrow> lit [] | Some t \<Rightarrow> catR [lit '' '', rd (\<lambda>r. renderDataType r t)]),
           whenR (NotNull c) (lit '' NOT NULL''),
           (case Default c of None \<Rightarrow> lit [] | Some e \<Rightarrow> catR [lit '' DEFAULT '', renderExpr e]),
           whenR (AutoIncrement c)
             (rd (\<lambda>r. if target r = DialectPostgres then '' GENERATED BY DEFAULT AS IDENTITY''
                       else '' AUTO_INCREMENT'')),
           whenR (PrimaryKey c) (lit '' PRIMARY KEY''),
           whenR (Unique c) (lit '' UNIQUE''),
           (case Comment c of
              None \<Rightarrow> lit []
            | Some (raw, kind) \<Rightarrow> catR [lit '' COMMENT '', renderExpr (Literal raw kind)])]"

definition renderCreateTable :: "CreateTableStmt \<Rightarrow> (RenderError + string) R" where
  "renderCreateTable s =
     catE [ok (lit ''CREATE TABLE ''),
           ok (whenR (IfNotExists s) (lit ''IF NOT EXISTS '')),
           ok (rd (\<lambda>r. renderQualifiedIdent r (ctTable s))),
           (case ctLike s of
              Some l \<Rightarrow> ok (catR [lit '' LIKE '', rd (\<lambda>r. renderQualifiedIdent r (Some l))])
            | None \<Rightarrow>
                catE [ok (whenR (ctColumns s \<noteq> [] \<or> Constraints s \<noteq> [])
                            (catR [lit '' ('',
                                   joinR '', '' (map renderColumnDef (ctColumns s)
                                                 @ map (\<lambda>c. rd (\<lambda>r. renderConstraint r c)) (Constraints s)),
                                   lit '')''])),
                      ok (lit (renderOptions (ctOptions s))),
                      (case ctSelect s of
                         None \<Rightarrow> ok (lit [])
                       | Some sel \<Rightarrow> catE [ok (lit '' AS ''), renderSelect sel])])]"

definition renderAfter :: "Ident option \<Rightarrow> string R" where
  "renderAfter after =
     (case after of None \<Rightarrow> lit [] | Some a \<Rightarrow> catR [lit '' AFTER '', rd (\<lambda>r. renderIdent r (Some a))])"

fun renderAlterCmd :: "AlterCmd \<Rightarrow> string R" where
  "renderAlterCmd (AddColumnCmd cdef first after) =
     catR [lit ''ADD COLUMN '', renderColumnDef cdef, whenR first (lit '' FIRST''), renderAfter after]"
| "renderAlterCmd (DropColumnCmd name) = catR [lit ''DROP COLUMN '', rd (\<lambda>r. renderIdent r name)]"
| "renderAlterCmd (ModifyColumnCmd cdef first after) =
     catR [lit ''MODIFY COLUMN '', renderColumnDef cdef, whenR first (lit '' FIRST''), renderAfter after]"
| "renderAlterCmd (AddConstraintCmd c) = catR [lit ''ADD '', rd (\<lambda>r. renderConstraint r c)]"
| "renderAlterCmd (DropIndexCmd name) = catR [lit ''DROP INDEX '', rd (\<lambda>r. renderIdent r name)]"
| "renderAlterCmd (RenameTableCmd newName) =
     catR [lit ''RENAME TO '', rd (\<lambda>r. renderQualifiedIdent r newName)]"

definition renderAlterTable :: "QualifiedIdent option \<Rightarrow> AlterCmd list \<Rightarrow> (RenderError + string) R" where
  "renderAlterTable table cmds =
     ok (catR [lit ''ALTER TABLE '', rd (\<lambda>r. renderQualifiedIdent r table),
               whenR (cmds \<noteq> []) (catR [lit '' '', joinR '', '' (map renderAlterCmd cmds)])])"

definition renderDropTable :: "QualifiedIdent list \<Rightarrow> bool \<Rightarrow> bool \<Rightarrow> (RenderError + string) R" where
  "renderDropTable tables ifExists cascade =
     ok (rd (\<lambda>r. ''DROP TABLE '' @ (if ifExists then ''IF EXISTS '' else [])
                  @ joinS '', '' (map (\<lambda>t. renderQualifiedIdent r (Some t)) tables)
                  @ (if cascade then '' CASCADE'' else [])))"

definition renderIndexCol :: "dialectRenderer \<Rightarrow> IndexColDef \<Rightarrow> string" where
  "renderIndexCol r c =
     renderIdent r (icName c)
     @ (case icLength c of None \<Rightarrow> [] | Some n \<Rightarrow> ''('' @ Itoa n @ '')'')
     @ (if icDesc c then '' DESC'' else [])"

definition renderCreateIndex ::
  "Ident option \<Rightarrow> QualifiedIdent option \<Rightarrow> IndexColDef list \<Rightarrow> ConstraintType \<Rightarrow> (RenderError + string) R"
where
  "renderCreateIndex name table cols typ =
     ok (rd (\<lambda>r. ''CREATE '' @ (if typ = UniqueConstraint then ''UNIQUE '' else []) @ ''INDEX ''
                  @ renderIdent r name @ '' ON '' @ renderQualifiedIdent r table @ '' (''
                  @ joinS '', '' (map (renderIndexCol r) cols) @ '')''))"

definition renderDropIndex :: "Ident option \<Rightarrow> QualifiedIdent option \<Rightarrow> bool \<Rightarrow> (RenderError + string) R" where
  "renderDropIndex name table ifExists =
     ok (rd (\<lambda>r. if target r = DialectPostgres \<or> target r = DialectSQLite
                  then ''DROP INDEX '' @ (if ifExists then ''IF EXISTS '' else []) @ renderIdent r name
                  else ''DROP INDEX '' @ renderIdent r name
                       @ (case table of None \<Rightarrow> []
                          | Some t \<Rightarrow> '' ON '' @ renderQualifiedIdent r (Some t))))"

definition renderCreateView ::
  "QualifiedIdent option \<Rightarrow> Ident list \<Rightarrow> SelectStmt \<Rightarrow> bool \<Rightarrow> (RenderError + string) R"
where
  "renderCreateView name cols sel orReplace =
     catE [ok (lit ''CREATE ''), ok (whenR orReplace (lit ''OR REPLACE '')), ok (lit ''VIEW ''),
           ok (rd (\<lambda>r. renderQualifiedIdent r name)),
           ok (whenR (cols \<noteq> []) (catR [lit '' ('', renderIdentList cols, lit '')''])),
           ok (lit '' AS ''),
           renderSelect sel]"

definition renderCreateDatabase :: "Ident option \<Rightarrow> bool \<Rightarrow> TableOption list \<Rightarrow> (RenderError + string) R" where
  "renderCreateDatabase name ifNotExists opts =
     ok (rd (\<lambda>r. ''CREATE DATABASE '' @ (if ifNotExists then ''IF NOT EXISTS '' else [])
                  @ renderIdent r name @ renderOptions opts))"

definition renderAlterDatabase :: "Ident option \<Rightarrow> TableOption list \<Rightarrow> (RenderError + string) R" where
  "renderAlterDatabase name opts =
     ok (rd (\<lambda>r. ''ALTER DATABASE '' @ renderIdent r name @ renderOptions opts))"

definition renderDropDatabase :: "Ident option \<Rightarrow> bool \<Rightarrow> (RenderError + string) R" where
  "renderDropDatabase name ifExists =
     ok (rd (\<lambda>r. ''DROP DATABASE '' @ (if ifExists then ''IF EXISTS '' else []) @ renderIdent r name))"

definition renderShow ::
  "string \<Rightarrow> (string \<times> TokenType) option \<Rightarrow> Expr option \<Rightarrow> (RenderError + string) R"
where
  "renderShow what like wher =
     ok (catR [lit (''SHOW '' @ what),
               (case like of
                  None \<Rightarrow> lit []
                | Some (raw, kind) \<Rightarrow> catR [lit '' LIKE '', renderExpr (Literal raw kind)]),
               renderWhere wher])"

definition renderCall :: "QualifiedIdent option \<Rightarrow> Expr list \<Rightarrow> (RenderError + string) R" where
  "renderCall name args =
     ok (catR [lit ''CALL '', rd (\<lambda>r. renderQualifiedIdent r name), lit ''('',
               joinR '', '' (map renderExpr args), lit '')''])"

fun renderStatement :: "Statement \<Rightarrow> (RenderError + string) R" where
  "renderStatement (Select s) = renderSelect s"
| "renderStatement (Insert s) = renderInsert s"
| "renderStatement (Update s) = renderUpdate s"
| "renderStatement (Delete s) = renderDelete s"
| "renderStatement (CreateTable s) = renderCreateTable s"
| "renderStatement (AlterTableStmt table cmds) = renderAlterTable table cmds"
| "renderStatement (DropTableStmt tables ifExists cascade) = renderDropTable tables ifExists cascade"
| "renderStatement (CreateIndexStmt name table cols typ) = renderCreateIndex name table cols typ"
| "renderStatement (DropIndexStmt name table ifExists) = renderDropIndex name table ifExists"
| "renderStatement (CreateViewStmt name cols sel orReplace) = renderCreateView name cols sel orReplace"
| "renderStatement (CreateDatabaseStmt name ifNotExists opts) = renderCreateDatabase name ifNotExists opts"
| "renderStatement (AlterDatabaseStmt name opts) = renderAlterDatabase name opts"
| "renderStatement (DropDatabaseStmt name ifExists) = renderDropDatabase name ifExists"
| "renderStatement (TruncateStmt table) =
     ok (rd (\<lambda>r. ''TRUNCATE TABLE '' @ renderQualifiedIdent r table))"
| "renderStatement (UseStmt database) = ok (rd (\<lambda>r. ''USE '' @ renderIdent r database))"
| "renderStatement (ShowStmt what like wher) = renderShow what like wher"
| "renderStatement (ExplainStmt inner) = catE [ok (lit ''EXPLAIN ''), renderStatement inner]"
| "renderStatement (CallStmt name args) = renderCall name args"
| "renderStatement (TransactionStmt action savepoint opts) =
     ok (rd (\<lambda>r. renderTx r action savepoint opts))"
| "renderStatement (GenericDDLStmt verb object name) =
     ok (rd (\<lambda>r. renderGenericDDL r verb object name))"
| "renderStatement NilStatement =
     (\<lambda>r. if strict r then (Inl UnsupportedStatement, r) else (Inr [], r))"

text \<open>\<^verbatim>\<open>renderStatements\<close>: the statements separated by \<^verbatim>\<open>"; "\<close>, stopping at the first
  error.\<close>

fun renderStatements :: "Statement list \<Rightarrow> (RenderError + string) R" where
  "renderStatements [] = catE []"
| "renderStatements (s # ss) =
     catE (renderStatement s # map (\<lambda>x. catE [ok (lit ''; ''), renderStatement x]) ss)"

lemmas knot_induct =
  renderExpr_renderWhen_renderSelect_renderRestOps_renderSetOps_renderWith_renderCTE_renderSelectColumn_renderOrderItem_renderLimit_renderTableRef.induct

subsection \<open>The select renderer returns no error\<close>

definition okE :: "(RenderError + string) R \<Rightarrow> bool" where
  "okE m \<longleftrightarrow> (\<forall>r. \<exists>s r1. m r = (Inr s, r1))"

lemma okE_ok: "okE (ok m)"
  by (simp add: okE_def ok_def split_beta)

lemma okE_catE_Nil: "okE (catE [])"
  by (simp add: okE_def catE.simps)

lemma okE_catE_Cons: "okE m \<Longrightarrow> okE (catE ms) \<Longrightarrow> okE (catE (m # ms))"
  unfolding okE_def
proof
  fix r
  assume a: "\<forall>r. \<exists>s r1. m r = (Inr s, r1)" and b: "\<forall>r. \<exists>s r1. catE ms r = (Inr s, r1)"
  from a obtain s r1 where m: "m r = (Inr s, r1)" by blast
  from b obtain t r2 where ms: "catE ms r1 = (Inr t, r2)" by blast
  from m ms show "\<exists>s r1. catE (m # ms) r = (Inr s, r1)" by (simp add: catE.simps)
qed

lemmas okE_intros = okE_ok okE_catE_Nil okE_catE_Cons

lemma renderSelect_okE: "okE (renderSelect s)"
  and renderRestOps_okE: "okE (renderRestOps s')"
  and renderSetOps_okE: "okE (renderSetOps c)"
proof -
  let ?T = "\<lambda>_. True"
  note ind = knot_induct [where ?P1.0 = ?T and ?P2.0 = ?T and ?P6.0 = ?T and ?P7.0 = ?T
      and ?P8.0 = ?T and ?P9.0 = ?T and ?P10.0 = ?T and ?P11.0 = ?T
      and ?P3.0 = "\<lambda>s. okE (renderSelect s)" and ?P4.0 = "\<lambda>s. okE (renderRestOps s)"
      and ?P5.0 = "\<lambda>c. okE (renderSetOps c)"]
  show "okE (renderSelect s)"
    by (rule ind(3)) (simp_all add: okE_intros split: option.split)
  show "okE (renderRestOps s')"
    by (rule ind(4)) (simp_all add: okE_intros split: option.split)
  show "okE (renderSetOps c)"
    by (rule ind(5)) (simp_all add: okE_intros split: option.split)
qed


subsection \<open>The output as a text with numbered holes\<close>

text \<open>A rendered text is a sequence of pieces: literal text, or a hole where a parameter
  placeholder stands. \<open>fill t ps k\<close> writes the pieces out for the target \<open>t\<close> when
  \<^verbatim>\<open>paramIndex\<close> is \<open>k\<close> at the start: for PostgreSQL the holes receive \<^verbatim>\<open>$\<close> and the
  numbers \<open>k + 1\<close>, \<open>k + 2\<close>, ... from left to right, for every other target \<^verbatim>\<open>?\<close>.\<close>

datatype piece = Txt string | Hole

fun fill :: "Dialect \<Rightarrow> piece list \<Rightarrow> 64 word \<Rightarrow> string" where
  "fill t [] k = []"
| "fill t (Txt s # ps) k = s @ fill t ps k"
| "fill t (Hole # ps) k =
     (if t = DialectPostgres then ''$'' @ Itoa (sint (k + 1)) @ fill t ps (k + 1)
      else ''?'' @ fill t ps k)"

definition holes :: "piece list \<Rightarrow> 64 word" where
  "holes ps = of_nat (length (filter (\<lambda>p. p = Hole) ps))"

text \<open>By how much rendering the pieces advances \<^verbatim>\<open>paramIndex\<close>.\<close>

definition adv :: "Dialect \<Rightarrow> piece list \<Rightarrow> 64 word" where
  "adv t ps = (if t = DialectPostgres then holes ps else 0)"

definition mk :: "Dialect \<Rightarrow> bool \<Rightarrow> 64 word \<Rightarrow> dialectRenderer" where
  "mk t s k = \<lparr>target = t, strict = s, paramIndex = k\<rparr>"

lemma mk_fields [simp]:
  "target (mk t s k) = t" "strict (mk t s k) = s" "paramIndex (mk t s k) = k"
  by (simp_all add: mk_def)

lemma mk_surj: "r = mk (target r) (strict r) (paramIndex r)"
  by (simp add: mk_def)

lemma holes_simps [simp]:
  "holes [] = 0" "holes (Txt s # ps) = holes ps" "holes (Hole # ps) = holes ps + 1"
  "holes (ps @ qs) = holes ps + holes qs"
  by (simp_all add: holes_def)

lemma adv_simps [simp]:
  "adv t [] = 0" "adv t (Txt s # ps) = adv t ps" "adv t (ps @ qs) = adv t ps + adv t qs"
  by (simp_all add: adv_def)

lemma fill_append: "fill t (ps @ qs) k = fill t ps k @ fill t qs (k + adv t ps)"
proof (induction ps arbitrary: k)
  case Nil
  show ?case by simp
next
  case (Cons p ps)
  show ?case
  proof (cases p)
    case (Txt s)
    with Cons show ?thesis by simp
  next
    case Hole
    with Cons.IH [of "k + 1"] Cons.IH [of k] show ?thesis
      by (cases "t = DialectPostgres") (simp_all add: adv_def ac_simps)
  qed
qed

text \<open>A method is \<^emph>\<open>templated\<close> when, for a target and a strict flag, its output is one
  sequence of pieces filled at the current \<^verbatim>\<open>paramIndex\<close>, whatever that index is, and it
  changes nothing of the renderer but the index.\<close>

definition tplR :: "string R \<Rightarrow> bool" where
  "tplR m \<longleftrightarrow> (\<forall>t s. \<exists>ps. \<forall>k. m (mk t s k) = (fill t ps k, mk t s (k + adv t ps)))"

lemma tplR_I:
  assumes "\<And>t s. \<exists>ps. \<forall>k. m (mk t s k) = (fill t ps k, mk t s (k + adv t ps))"
  shows "tplR m"
  using assms unfolding tplR_def by blast

lemma tplR_lit: "tplR (lit x)"
proof (rule tplR_I)
  fix t s
  have "\<forall>k. lit x (mk t s k) = (fill t [Txt x] k, mk t s (k + adv t [Txt x]))"
    by (simp add: lit_def)
  then show "\<exists>ps. \<forall>k. lit x (mk t s k) = (fill t ps k, mk t s (k + adv t ps))" ..
qed

text \<open>A method that only reads the renderer and does not read \<^verbatim>\<open>paramIndex\<close>.\<close>

definition indep :: "(dialectRenderer \<Rightarrow> string) \<Rightarrow> bool" where
  "indep f \<longleftrightarrow> (\<forall>r k. f (r\<lparr>paramIndex := k\<rparr>) = f r)"

lemma indep_mk: "indep f \<Longrightarrow> f (mk t s k) = f (mk t s 0)"
proof -
  assume "indep f"
  then have "f ((mk t s 0)\<lparr>paramIndex := k\<rparr>) = f (mk t s 0)"
    unfolding indep_def by blast
  then show ?thesis by (simp add: mk_def)
qed

lemma tplR_rd: 
  assumes "indep f"
  shows "tplR (rd f)"
proof (rule tplR_I)
  fix t s
  have "\<forall>k. rd f (mk t s k) = (fill t [Txt (f (mk t s 0))] k, mk t s (k + adv t [Txt (f (mk t s 0))]))"
    using indep_mk [OF assms] by (simp add: rd_def)
  then show "\<exists>ps. \<forall>k. rd f (mk t s k) = (fill t ps k, mk t s (k + adv t ps))" ..
qed

lemma tplR_renderParam: "tplR (renderParam raw)"
proof (rule tplR_I)
  fix t s
  have "\<forall>k. renderParam raw (mk t s k) = (fill t [Hole] k, mk t s (k + adv t [Hole]))"
    by (simp add: renderParam_def adv_def mk_def)
  then show "\<exists>ps. \<forall>k. renderParam raw (mk t s k) = (fill t ps k, mk t s (k + adv t ps))" ..
qed

lemma tplR_catR_Nil: "tplR (catR [])"
proof (rule tplR_I)
  fix t s
  have "\<forall>k. catR [] (mk t s k) = (fill t [] k, mk t s (k + adv t []))"
    by (simp add: catR.simps)
  then show "\<exists>ps. \<forall>k. catR [] (mk t s k) = (fill t ps k, mk t s (k + adv t ps))" ..
qed

lemma tplR_catR_Cons:
  assumes "tplR m" and "tplR (catR ms)"
  shows "tplR (catR (m # ms))"
proof (rule tplR_I)
  fix t s
  from assms(1) obtain ps where ps: "\<And>k. m (mk t s k) = (fill t ps k, mk t s (k + adv t ps))"
    unfolding tplR_def by blast
  from assms(2) obtain qs where qs: "\<And>k. catR ms (mk t s k) = (fill t qs k, mk t s (k + adv t qs))"
    unfolding tplR_def by blast
  have "\<forall>k. catR (m # ms) (mk t s k) = (fill t (ps @ qs) k, mk t s (k + adv t (ps @ qs)))"
    by (simp add: catR.simps ps qs fill_append add.assoc)
  then show "\<exists>ps. \<forall>k. catR (m # ms) (mk t s k) = (fill t ps k, mk t s (k + adv t ps))" ..
qed

lemma tplR_catR: "(\<And>m. m \<in> set ms \<Longrightarrow> tplR m) \<Longrightarrow> tplR (catR ms)"
  by (induction ms) (simp_all add: tplR_catR_Nil tplR_catR_Cons)

lemma tplR_joinR:
  assumes "\<And>m. m \<in> set ms \<Longrightarrow> tplR m"
  shows "tplR (joinR sep ms)"
proof (cases ms)
  case Nil
  then show ?thesis by (simp add: joinR.simps tplR_lit)
next
  case (Cons m ms')
  have "tplR (catR (m # map (\<lambda>x. catR [lit sep, x]) ms'))"
    using assms Cons
    by (intro tplR_catR) (auto intro!: tplR_catR_Cons tplR_catR_Nil tplR_lit)
  with Cons show ?thesis by (simp add: joinR.simps)
qed

lemma tplR_whenR: "tplR m \<Longrightarrow> tplR (whenR c m)"
  by (simp add: whenR_def tplR_lit)

lemma tplR_map: "(\<And>x. x \<in> set xs \<Longrightarrow> tplR (f x)) \<Longrightarrow> m \<in> set (map f xs) \<Longrightarrow> tplR m"
  by auto

lemma dropErr_ok [simp]: "dropErr (ok m) = m"
  by (rule ext) (simp add: dropErr_def ok_def split_beta)

lemma dropErr_catE_Nil: "dropErr (catE []) = catR []"
  by (rule ext) (simp add: dropErr_def catE.simps catR.simps)

lemma dropErr_catE_Cons:
  assumes "okE m" and "okE (catE ms)"
  shows "dropErr (catE (m # ms)) = catR (dropErr m # [dropErr (catE ms)])"
proof (rule ext)
  fix r
  from assms(1) obtain s r1 where m: "m r = (Inr s, r1)" unfolding okE_def by blast
  from assms(2) obtain t r2 where ms: "catE ms r1 = (Inr t, r2)" unfolding okE_def by blast
  from m ms show "dropErr (catE (m # ms)) r = catR (dropErr m # [dropErr (catE ms)]) r"
    by (simp add: dropErr_def catE.simps catR.simps)
qed

lemma tplR_dropErr_catE_Cons:
  assumes "okE m" and "okE (catE ms)" and "tplR (dropErr m)" and "tplR (dropErr (catE ms))"
  shows "tplR (dropErr (catE (m # ms)))"
  using assms by (simp add: dropErr_catE_Cons tplR_catR_Cons tplR_catR_Nil)

lemma tplR_dropErr_catE_Nil: "tplR (dropErr (catE []))"
  by (simp add: dropErr_catE_Nil tplR_catR_Nil)

lemma renderIdent_indep [simp]: "renderIdent (r\<lparr>paramIndex := k\<rparr>) i = renderIdent r i"
  by (simp add: renderIdent_def Let_def split: option.split)

lemma renderQualifiedIdent_indep [simp]:
  "renderQualifiedIdent (r\<lparr>paramIndex := k\<rparr>) q = renderQualifiedIdent r q"
  by (simp add: renderQualifiedIdent_def split: option.split)

lemma indep_intros:
  "indep (\<lambda>r. renderIdent r i)"
  "indep (\<lambda>r. renderQualifiedIdent r q)"
  "indep (\<lambda>r. renderFunctionName r q)"
  "indep (\<lambda>r. opString r op)"
  "indep (\<lambda>r. renderDataType r dt)"
  "indep (\<lambda>r. renderConstraint r c)"
  "indep (\<lambda>r. renderTx r a sp opts)"
  "indep (\<lambda>r. renderGenericDDL r v ob n)"
  "indep (\<lambda>r. joinS sep (map (\<lambda>c. renderIdent r (Some c)) ids))"
  unfolding indep_def
  by (simp_all add: renderFunctionName_def
      opString_def renderDataType_def renderConstraint_def renderTx_def renderGenericDDL_def
      Let_def split: option.split cong: if_cong)

lemmas tplR_intros = tplR_lit tplR_renderParam tplR_catR_Nil tplR_catR_Cons tplR_whenR
  tplR_rd [OF indep_intros(1)] tplR_rd [OF indep_intros(2)] tplR_rd [OF indep_intros(3)]
  tplR_rd [OF indep_intros(4)] tplR_rd [OF indep_intros(5)] tplR_rd [OF indep_intros(6)]
  tplR_rd [OF indep_intros(7)] tplR_rd [OF indep_intros(8)] tplR_rd [OF indep_intros(9)]


lemma tplR_joinR_map: "(\<And>x. x \<in> set xs \<Longrightarrow> tplR (f x)) \<Longrightarrow> tplR (joinR sep (map f xs))"
  by (rule tplR_joinR) auto

lemma tplR_catR_map: "(\<And>x. x \<in> set xs \<Longrightarrow> tplR (f x)) \<Longrightarrow> tplR (catR (map f xs))"
  by (rule tplR_catR) auto

lemma tplR_dropErr_catE:
  "okE m \<Longrightarrow> okE (catE ms) \<Longrightarrow> tplR (dropErr m) \<Longrightarrow> tplR (dropErr (catE ms))
   \<Longrightarrow> tplR (dropErr (catE (m # ms)))"
  by (rule tplR_dropErr_catE_Cons)

lemmas tplR_rules = tplR_intros tplR_joinR_map tplR_catR_map tplR_dropErr_catE_Nil

lemma knot_tplR:
  "tplR (renderExpr e)"
  "tplR (renderWhen w)"
  "tplR (dropErr (renderSelect s))"
  "tplR (dropErr (renderRestOps s'))"
  "tplR (dropErr (renderSetOps c))"
  "tplR (renderWith wc)"
  "tplR (renderCTE ct)"
  "tplR (renderSelectColumn sc)"
  "tplR (renderOrderItem oi)"
  "tplR (renderLimit lc)"
  "tplR (renderTableRef tr)"
proof -
  note ind = knot_induct [where ?P1.0 = "\<lambda>e. tplR (renderExpr e)"
      and ?P2.0 = "\<lambda>w. tplR (renderWhen w)"
      and ?P3.0 = "\<lambda>s. tplR (dropErr (renderSelect s))"
      and ?P4.0 = "\<lambda>s. tplR (dropErr (renderRestOps s))"
      and ?P5.0 = "\<lambda>c. tplR (dropErr (renderSetOps c))"
      and ?P6.0 = "\<lambda>w. tplR (renderWith w)"
      and ?P7.0 = "\<lambda>c. tplR (renderCTE c)"
      and ?P8.0 = "\<lambda>c. tplR (renderSelectColumn c)"
      and ?P9.0 = "\<lambda>c. tplR (renderOrderItem c)"
      and ?P10.0 = "\<lambda>c. tplR (renderLimit c)"
      and ?P11.0 = "\<lambda>c. tplR (renderTableRef c)"]
  note rl = tplR_rules okE_intros renderSelect_okE renderRestOps_okE renderSetOps_okE
    tplR_dropErr_catE
  show "tplR (renderExpr e)"
    by (rule ind(1)) (simp_all add: rl split: option.split)
  show "tplR (renderWhen w)"
    by (rule ind(2)) (simp_all add: rl split: option.split)
  show "tplR (dropErr (renderSelect s))"
    by (rule ind(3)) (simp_all add: rl split: option.split)
  show "tplR (dropErr (renderRestOps s'))"
    by (rule ind(4)) (simp_all add: rl split: option.split)
  show "tplR (dropErr (renderSetOps c))"
    by (rule ind(5)) (simp_all add: rl split: option.split)
  show "tplR (renderWith wc)"
    by (rule ind(6)) (simp_all add: rl split: option.split)
  show "tplR (renderCTE ct)"
    by (rule ind(7)) (simp_all add: rl split: option.split)
  show "tplR (renderSelectColumn sc)"
    by (rule ind(8)) (simp_all add: rl split: option.split)
  show "tplR (renderOrderItem oi)"
    by (rule ind(9)) (simp_all add: rl split: option.split)
  show "tplR (renderLimit lc)"
    by (rule ind(10)) (simp_all add: rl split: option.split)
  show "tplR (renderTableRef tr)"
    by (rule ind(11)) (simp_all add: rl split: option.split)
qed


subsection \<open>Statements: either an error or a text with numbered holes\<close>

definition tplOK :: "Dialect \<Rightarrow> bool \<Rightarrow> (RenderError + string) R \<Rightarrow> bool" where
  "tplOK t s m \<longleftrightarrow>
     (\<exists>ps. \<forall>k. m (mk t s k) = (Inr (fill t ps k), mk t s (k + adv t ps)))"

definition tplFail :: "Dialect \<Rightarrow> bool \<Rightarrow> (RenderError + string) R \<Rightarrow> bool" where
  "tplFail t s m \<longleftrightarrow> (\<forall>k. isl (fst (m (mk t s k))))"

lemma tplOK_not_tplFail: "tplOK t s m \<Longrightarrow> \<not> tplFail t s m"
  unfolding tplOK_def tplFail_def by auto

lemma tplOK_ok: 
  assumes "tplR m"
  shows "tplOK t s (ok m)"
proof -
  from assms obtain ps where "\<forall>k. m (mk t s k) = (fill t ps k, mk t s (k + adv t ps))"
    unfolding tplR_def by blast
  then have "\<forall>k. ok m (mk t s k) = (Inr (fill t ps k), mk t s (k + adv t ps))"
    by (simp add: ok_def)
  then show ?thesis unfolding tplOK_def ..
qed

lemma tplOK_okE:
  assumes "okE m" and "tplR (dropErr m)"
  shows "tplOK t s m"
proof -
  from assms(2) obtain ps
    where ps: "\<And>k. dropErr m (mk t s k) = (fill t ps k, mk t s (k + adv t ps))"
    unfolding tplR_def by blast
  have "m (mk t s k) = (Inr (fill t ps k), mk t s (k + adv t ps))" for k
  proof -
    from assms(1) obtain x r1 where m: "m (mk t s k) = (Inr x, r1)" unfolding okE_def by blast
    with ps [of k] show ?thesis by (simp add: dropErr_def)
  qed
  then show ?thesis unfolding tplOK_def by blast
qed

lemma tplOK_catE_Nil: "tplOK t s (catE [])"
proof -
  have "\<forall>k. catE [] (mk t s k) = (Inr (fill t [] k), mk t s (k + adv t []))"
    by (simp add: catE.simps)
  then show ?thesis unfolding tplOK_def ..
qed

lemma tplOK_catE_Cons:
  assumes "tplOK t s m" and "tplOK t s (catE ms)"
  shows "tplOK t s (catE (m # ms))"
proof -
  from assms(1) obtain ps
    where ps: "\<And>k. m (mk t s k) = (Inr (fill t ps k), mk t s (k + adv t ps))"
    unfolding tplOK_def by blast
  from assms(2) obtain qs
    where qs: "\<And>k. catE ms (mk t s k) = (Inr (fill t qs k), mk t s (k + adv t qs))"
    unfolding tplOK_def by blast
  have "\<forall>k. catE (m # ms) (mk t s k)
      = (Inr (fill t (ps @ qs) k), mk t s (k + adv t (ps @ qs)))"
    by (simp add: catE.simps ps qs fill_append add.assoc)
  then show ?thesis unfolding tplOK_def ..
qed

lemma tplFail_catE_head:
  assumes "tplFail t s m"
  shows "tplFail t s (catE (m # ms))"
proof -
  have "isl (fst (catE (m # ms) (mk t s k)))" for k
  proof -
    from assms have "isl (fst (m (mk t s k)))" unfolding tplFail_def by blast
    then show ?thesis
      by (cases "m (mk t s k)") (auto simp: catE.simps split: sum.split)
  qed
  then show ?thesis unfolding tplFail_def by blast
qed

lemma tplFail_catE_tail:
  assumes "tplOK t s m" and "tplFail t s (catE ms)"
  shows "tplFail t s (catE (m # ms))"
proof -
  from assms(1) obtain ps
    where ps: "\<And>k. m (mk t s k) = (Inr (fill t ps k), mk t s (k + adv t ps))"
    unfolding tplOK_def by blast
  have "isl (fst (catE (m # ms) (mk t s k)))" for k
  proof -
    from assms(2) have "isl (fst (catE ms (mk t s (k + adv t ps))))"
      unfolding tplFail_def by blast
    then show ?thesis
      by (cases "catE ms (mk t s (k + adv t ps))")
        (auto simp: catE.simps ps split: sum.split)
  qed
  then show ?thesis unfolding tplFail_def by blast
qed

lemma tplR_rd_simp: "(\<And>r k. f (r\<lparr>paramIndex := k\<rparr>) = f r) \<Longrightarrow> tplR (rd f)"
  by (rule tplR_rd) (simp add: indep_def)

lemma tplOK_renderSelect: "tplOK t s (renderSelect sel)"
  by (rule tplOK_okE) (rule renderSelect_okE knot_tplR)+

lemma tplR_renderAssignments: "tplR (renderAssignments assign)"
  unfolding renderAssignments_def
  by (intro tplR_joinR_map tplR_intros knot_tplR)

lemma tplR_renderIdentList: "tplR (renderIdentList ids)"
  unfolding renderIdentList_def by (intro tplR_intros)

lemma tplR_renderWhere: "tplR (renderWhere w)"
  unfolding renderWhere_def by (simp add: tplR_intros knot_tplR split: option.split)

lemma tplR_renderOrderTail: "tplR (renderOrderTail order)"
  unfolding renderOrderTail_def
  by (intro tplR_joinR_map tplR_intros)
    (simp add: tplR_intros knot_tplR split: OrderByItem.split)

lemma tplR_renderLimitCount: "tplR (renderLimitCount lim)"
  unfolding renderLimitCount_def
  by (simp add: tplR_intros knot_tplR split: option.split LimitClause.split)

lemma tplR_renderColumnDef: "tplR (renderColumnDef c)"
  unfolding renderColumnDef_def
  by (intro tplR_intros tplR_rd_simp)
    (simp_all add: tplR_intros knot_tplR split: option.split prod.split)

lemma tplR_renderAfter: "tplR (renderAfter a)"
  unfolding renderAfter_def by (simp add: tplR_intros split: option.split)

lemma tplR_renderAlterCmd: "tplR (renderAlterCmd c)"
  by (cases c) (simp_all add: tplR_intros tplR_renderColumnDef tplR_renderAfter)

lemmas tplR_stmt = tplR_intros tplR_joinR_map tplR_catR_map knot_tplR tplR_renderAssignments
  tplR_renderIdentList tplR_renderWhere tplR_renderOrderTail tplR_renderLimitCount
  tplR_renderColumnDef tplR_renderAfter tplR_renderAlterCmd

lemmas tplOK_intros = tplOK_ok tplOK_catE_Nil tplOK_catE_Cons tplOK_renderSelect

lemma tplOK_renderInsertHead: "tplOK t s (renderInsertHead ins)"
  unfolding renderInsertHead_def
  by (intro tplOK_intros tplR_stmt tplR_rd_simp)
    (simp_all add: tplOK_intros tplR_stmt tplR_rd indep_def split: option.split)


lemma Dialect_distinct [simp]:
  "DialectMySQL \<noteq> DialectPostgres" "DialectMySQL \<noteq> DialectSQLite"
  "DialectPostgres \<noteq> DialectMySQL" "DialectPostgres \<noteq> DialectSQLite"
  "DialectSQLite \<noteq> DialectMySQL" "DialectSQLite \<noteq> DialectPostgres"
  by (simp_all add: DialectMySQL_def DialectPostgres_def DialectSQLite_def)

lemma tplOK_cong:
  "(\<And>k. m (mk t s k) = m' (mk t s k)) \<Longrightarrow> tplOK t s m' \<Longrightarrow> tplOK t s m"
  unfolding tplOK_def by simp

text \<open>The assignments that \<^verbatim>\<open>renderInsert\<close> uses for PostgreSQL and SQLite, and the case in
  which it has no conflict target for them: none was parsed and there is no column list to
  take one from.\<close>

definition upsertAssign :: "InsertStmt \<Rightarrow> Assignment list" where
  "upsertAssign ins =
     (if OnConflictUpdate ins = [] \<and> OnDupKey ins \<noteq> [] then OnDupKey ins
      else OnConflictUpdate ins)"

definition lacksConflictTarget :: "Dialect \<Rightarrow> InsertStmt \<Rightarrow> bool" where
  "lacksConflictTarget t ins \<longleftrightarrow>
     (t = DialectPostgres \<or> t = DialectSQLite) \<and> upsertAssign ins \<noteq> []
     \<and> OnConflictTarget ins = [] \<and> insColumns ins = []"

lemma renderUpsert_fail:
  assumes "lacksConflictTarget t ins"
  shows "renderUpsert ins (mk t True k) = (Inl NoConflictTarget, mk t True k)"
  using assms
  by (auto simp: lacksConflictTarget_def upsertAssign_def renderUpsert_def Let_def)

lemma tplOK_renderUpsert:
  assumes "\<not> (s \<and> lacksConflictTarget t ins)"
  shows "tplOK t s (renderUpsert ins)"
proof -
  consider (my) "t = DialectMySQL"
    | (pg) "t = DialectPostgres \<or> t = DialectSQLite"
    | (other) "t \<noteq> DialectMySQL" "t \<noteq> DialectPostgres" "t \<noteq> DialectSQLite"
    by blast
  then show ?thesis
  proof cases
    case my
    let ?a = "if OnDupKey ins = [] then OnConflictUpdate ins else OnDupKey ins"
    let ?m = "ok (whenR (?a \<noteq> [])
                   (catR [lit '' ON DUPLICATE KEY UPDATE '', renderAssignments ?a]))"
    have "renderUpsert ins (mk t s k) = ?m (mk t s k)" for k
      using my by (simp add: renderUpsert_def Let_def)
    moreover have "tplOK t s ?m"
      by (intro tplOK_intros tplR_stmt)
    ultimately show ?thesis by (rule tplOK_cong)
  next
    case other
    have "renderUpsert ins (mk t s k) = catE [] (mk t s k)" for k
      using other by (simp add: renderUpsert_def catE.simps)
    then show ?thesis using tplOK_catE_Nil by (rule tplOK_cong)
  next
    case pg
    then have nm: "t \<noteq> DialectMySQL" by auto
    let ?a = "upsertAssign ins"
    show ?thesis
    proof (cases "?a \<noteq> [] \<or> OnConflictDoNothing ins")
      case False
      have "renderUpsert ins (mk t s k) = catE [] (mk t s k)" for k
        using pg nm False by (simp add: renderUpsert_def catE.simps upsertAssign_def)
      then show ?thesis using tplOK_catE_Nil by (rule tplOK_cong)
    next
      case True
      let ?tgt = "if OnConflictTarget ins = [] \<and> ?a \<noteq> [] \<and> insColumns ins \<noteq> []
                  then [insColumns ins ! 0] else OnConflictTarget ins"
      let ?m = "ok (catR [lit '' ON CONFLICT'',
                          whenR (?tgt \<noteq> []) (catR [lit '' ('', renderIdentList ?tgt, lit '')'']),
                          (if OnConflictDoNothing ins \<and> ?a = [] then lit '' DO NOTHING''
                           else catR [lit '' DO UPDATE SET '', renderAssignments ?a])])"
      from assms pg have ns: "\<not> (OnConflictTarget ins = [] \<and> ?a \<noteq> [] \<and> insColumns ins = [] \<and> s)"
        by (auto simp: lacksConflictTarget_def)
      have "renderUpsert ins (mk t s k) = ?m (mk t s k)" for k
      proof -
        have "renderUpsert ins (mk t s k) =
          (let tgt = (if OnConflictTarget ins = [] \<and> ?a \<noteq> [] \<and> insColumns ins \<noteq> []
                              then [insColumns ins ! 0] else OnConflictTarget ins)
                   in ok (catR [lit '' ON CONFLICT'',
                                whenR (tgt \<noteq> []) (catR [lit '' ('', renderIdentList tgt, lit '')'']),
                                (if OnConflictDoNothing ins \<and> ?a = [] then lit '' DO NOTHING''
                                 else catR [lit '' DO UPDATE SET '', renderAssignments ?a])]) (mk t s k))"
          unfolding renderUpsert_def upsertAssign_def [symmetric]
          using pg nm True ns by (auto simp: Let_def)
        then show ?thesis by (simp only: Let_def)
      qed
      moreover have "tplOK t s ?m"
        by (intro tplOK_intros tplR_stmt) (simp_all add: tplR_stmt)
      ultimately show ?thesis by (rule tplOK_cong)
    qed
  qed
qed

lemma tplFail_renderUpsert:
  assumes "lacksConflictTarget t ins"
  shows "tplFail t True (renderUpsert ins)"
  unfolding tplFail_def by (simp add: renderUpsert_fail [OF assms])

lemma tplOK_renderInsert:
  "\<not> (s \<and> lacksConflictTarget t ins) \<Longrightarrow> tplOK t s (renderInsert ins)"
  unfolding renderInsert_def
  by (intro tplOK_intros tplOK_renderInsertHead tplOK_renderUpsert)

lemma tplFail_renderInsert:
  "lacksConflictTarget t ins \<Longrightarrow> tplFail t True (renderInsert ins)"
  unfolding renderInsert_def
  by (intro tplFail_catE_tail tplFail_catE_head tplOK_renderInsertHead tplFail_renderUpsert)

text \<open>The statements for which \<^verbatim>\<open>renderStatement\<close> has no output in the target dialect: one
  that no case of its type switch matches, an \<^verbatim>\<open>INSERT\<close> whose upsert has no conflict target,
  and an \<^verbatim>\<open>EXPLAIN\<close> of such a statement.\<close>

fun cannotRender :: "Dialect \<Rightarrow> Statement \<Rightarrow> bool" where
  "cannotRender t (Insert ins) = lacksConflictTarget t ins"
| "cannotRender t (ExplainStmt inner) = cannotRender t inner"
| "cannotRender t NilStatement = True"
| "cannotRender t _ = False"

lemma tplR_columns_constraints:
  "tplR (joinR sep (map renderColumnDef cs @ map (\<lambda>c. rd (\<lambda>r. renderConstraint r c)) ks))"
  by (rule tplR_joinR) (auto simp: tplR_stmt)

lemma tplOK_renderCreateTable: "tplOK t s (renderCreateTable c)"
  unfolding renderCreateTable_def
  by (intro tplOK_intros tplR_stmt)
    (auto simp: tplOK_intros tplR_stmt tplR_columns_constraints split: option.split)

lemma renderIndexCol_indep [simp]: "renderIndexCol (r\<lparr>paramIndex := k\<rparr>) = renderIndexCol r"
  by (rule ext) (simp add: renderIndexCol_def)

lemma tplOK_renderUpdate: "tplOK t s (renderUpdate u)"
  unfolding renderUpdate_def
  by (intro tplOK_intros tplR_stmt) (simp_all add: tplR_stmt split: option.split)

lemma tplOK_renderDelete: "tplOK t s (renderDelete d)"
  unfolding renderDelete_def
  by (intro tplOK_intros tplR_stmt) (simp_all add: tplR_stmt split: option.split)

lemma tplOK_renderAlterTable: "tplOK t s (renderAlterTable table cmds)"
  unfolding renderAlterTable_def by (intro tplOK_intros tplR_stmt)

lemma tplOK_renderDropTable: "tplOK t s (renderDropTable tables ifExists cascade)"
  unfolding renderDropTable_def by (intro tplOK_intros tplR_rd_simp) simp

lemma tplOK_renderCreateIndex: "tplOK t s (renderCreateIndex name table cols typ)"
  unfolding renderCreateIndex_def by (intro tplOK_intros tplR_rd_simp) simp

lemma tplOK_renderDropIndex: "tplOK t s (renderDropIndex name table ifExists)"
  unfolding renderDropIndex_def
  by (intro tplOK_intros tplR_rd_simp) (simp split: option.split cong: if_cong)

lemma tplOK_renderCreateView: "tplOK t s (renderCreateView qname icols sel orReplace)"
  unfolding renderCreateView_def by (intro tplOK_intros tplR_stmt)

lemma tplOK_renderCreateDatabase: "tplOK t s (renderCreateDatabase name ifNotExists opts)"
  unfolding renderCreateDatabase_def by (intro tplOK_intros tplR_rd_simp) simp

lemma tplOK_renderAlterDatabase: "tplOK t s (renderAlterDatabase name opts)"
  unfolding renderAlterDatabase_def by (intro tplOK_intros tplR_rd_simp) simp

lemma tplOK_renderDropDatabase: "tplOK t s (renderDropDatabase name ifExists)"
  unfolding renderDropDatabase_def by (intro tplOK_intros tplR_rd_simp) simp

lemma tplOK_renderShow: "tplOK t s (renderShow what like wher)"
  unfolding renderShow_def
  by (intro tplOK_intros tplR_stmt) (simp_all add: tplR_stmt split: option.split prod.split)

lemma tplOK_renderCall: "tplOK t s (renderCall qn args)"
  unfolding renderCall_def by (intro tplOK_intros tplR_stmt)

lemmas tplOK_simple = tplOK_renderUpdate tplOK_renderDelete tplOK_renderAlterTable
  tplOK_renderDropTable tplOK_renderCreateIndex tplOK_renderDropIndex tplOK_renderCreateView
  tplOK_renderCreateDatabase tplOK_renderAlterDatabase tplOK_renderDropDatabase
  tplOK_renderShow tplOK_renderCall

lemma renderStatement_tpl:
  "(if s \<and> cannotRender t st then tplFail t s (renderStatement st)
    else tplOK t s (renderStatement st))"
proof (induction st)
  case (Insert ins)
  then show ?case by (simp add: tplOK_renderInsert tplFail_renderInsert)
next
  case (ExplainStmt inner)
  have head: "tplOK t s (ok (lit ''EXPLAIN ''))"
    by (intro tplOK_intros tplR_stmt)
  show ?case
  proof (cases "s \<and> cannotRender t inner")
    case True
    with ExplainStmt have "tplFail t s (renderStatement inner)" by simp
    then have "tplFail t s (catE [renderStatement inner])" by (rule tplFail_catE_head)
    with head have "tplFail t s (catE [ok (lit ''EXPLAIN ''), renderStatement inner])"
      by (rule tplFail_catE_tail)
    with True show ?thesis by simp
  next
    case False
    with ExplainStmt have "tplOK t s (renderStatement inner)" by simp
    with head have "tplOK t s (catE [ok (lit ''EXPLAIN ''), renderStatement inner])"
      by (intro tplOK_catE_Cons tplOK_catE_Nil)
    with False show ?thesis by auto
  qed
next
  case NilStatement
  have "tplOK t False (renderStatement NilStatement)"
    by (rule tplOK_cong [OF _ tplOK_catE_Nil]) (simp add: catE.simps)
  moreover have "tplFail t True (renderStatement NilStatement)"
    by (simp add: tplFail_def)
  ultimately show ?case by (cases s) simp_all
qed (simp_all add: tplOK_simple tplOK_renderCreateTable tplOK_intros tplR_intros tplR_rd_simp)


lemma renderStatement_fail: "s \<Longrightarrow> cannotRender t st \<Longrightarrow> tplFail t s (renderStatement st)"
  using renderStatement_tpl [of s t st] by simp

lemma renderStatement_ok: "\<not> (s \<and> cannotRender t st) \<Longrightarrow> tplOK t s (renderStatement st)"
  using renderStatement_tpl [of s t st] by auto

lemma renderStatement_cases: "tplOK t s (renderStatement st) \<or> tplFail t s (renderStatement st)"
  using renderStatement_fail [of s t st] renderStatement_ok [of s t st] by blast

lemma renderStatement_fail_iff:
  "tplFail t s (renderStatement st) \<longleftrightarrow> s \<and> cannotRender t st"
  using renderStatement_fail [of s t st] renderStatement_ok [of s t st]
    tplOK_not_tplFail [of t s "renderStatement st"] by blast

lemma catE_list_fail:
  assumes "\<And>m. m \<in> set ms \<Longrightarrow> tplOK t s m \<or> tplFail t s m"
    and "\<exists>m\<in>set ms. tplFail t s m"
  shows "tplFail t s (catE ms)"
  using assms
proof (induction ms)
  case Nil
  then show ?case by simp
next
  case (Cons m ms)
  from Cons.prems(1) have "tplOK t s m \<or> tplFail t s m" by simp
  then show ?case
  proof
    assume "tplFail t s m"
    then show ?thesis by (rule tplFail_catE_head)
  next
    assume k: "tplOK t s m"
    then have "\<not> tplFail t s m" by (rule tplOK_not_tplFail)
    with Cons.prems(2) have "\<exists>m\<in>set ms. tplFail t s m" by auto
    moreover from Cons.prems(1) have "\<And>x. x \<in> set ms \<Longrightarrow> tplOK t s x \<or> tplFail t s x" by simp
    ultimately have "tplFail t s (catE ms)" using Cons.IH by blast
    with k show ?thesis by (rule tplFail_catE_tail)
  qed
qed

lemma catE_list_ok:
  assumes "\<And>m. m \<in> set ms \<Longrightarrow> tplOK t s m"
  shows "tplOK t s (catE ms)"
  using assms by (induction ms) (simp_all add: tplOK_catE_Nil tplOK_catE_Cons)

lemma separated_ok:
  "\<not> (s \<and> cannotRender t st) \<Longrightarrow> tplOK t s (catE [ok (lit ''; ''), renderStatement st])"
  by (intro tplOK_catE_Cons tplOK_catE_Nil tplOK_ok tplR_lit renderStatement_ok)

lemma separated_fail:
  "s \<Longrightarrow> cannotRender t st \<Longrightarrow> tplFail t s (catE [ok (lit ''; ''), renderStatement st])"
  by (intro tplFail_catE_tail tplFail_catE_head tplOK_ok tplR_lit renderStatement_fail)

lemma renderStatements_unfold:
  "renderStatements stmts =
     catE (case stmts of [] \<Rightarrow> []
           | st # sts \<Rightarrow> renderStatement st
               # map (\<lambda>x. catE [ok (lit ''; ''), renderStatement x]) sts)"
  by (cases stmts) simp_all

lemma renderStatements_ok:
  assumes "\<not> (s \<and> (\<exists>st\<in>set stmts. cannotRender t st))"
  shows "tplOK t s (renderStatements stmts)"
  unfolding renderStatements_unfold
proof (rule catE_list_ok)
  fix m
  assume "m \<in> set (case stmts of [] \<Rightarrow> []
           | st # sts \<Rightarrow> renderStatement st
               # map (\<lambda>x. catE [ok (lit ''; ''), renderStatement x]) sts)"
  then consider x where "x \<in> set stmts" "m = renderStatement x"
    | x where "x \<in> set stmts" "m = catE [ok (lit ''; ''), renderStatement x]"
    by (cases stmts) auto
  then show "tplOK t s m"
  proof cases
    case 1
    with assms show ?thesis by (auto intro: renderStatement_ok)
  next
    case 2
    with assms show ?thesis by (auto intro: separated_ok)
  qed
qed

lemma renderStatements_fail:
  assumes "s" and "\<exists>st\<in>set stmts. cannotRender t st"
  shows "tplFail t s (renderStatements stmts)"
  unfolding renderStatements_unfold
proof (rule catE_list_fail)
  fix m
  assume "m \<in> set (case stmts of [] \<Rightarrow> []
           | st # sts \<Rightarrow> renderStatement st
               # map (\<lambda>x. catE [ok (lit ''; ''), renderStatement x]) sts)"
  then consider x where "x \<in> set stmts" "m = renderStatement x"
    | x where "x \<in> set stmts" "m = catE [ok (lit ''; ''), renderStatement x]"
    by (cases stmts) auto
  then show "tplOK t s m \<or> tplFail t s m"
  proof cases
    case 1
    then show ?thesis by (simp add: renderStatement_cases)
  next
    case 2
    then show ?thesis using separated_ok [of s t x] separated_fail [of s t x] by blast
  qed
next
  from assms(2) obtain x where x: "x \<in> set stmts" "cannotRender t x" by blast
  from x(1) consider "x = hd stmts" "stmts \<noteq> []" | "x \<in> set (tl stmts)" "stmts \<noteq> []"
    by (cases stmts) auto
  then show "\<exists>m\<in>set (case stmts of [] \<Rightarrow> []
           | st # sts \<Rightarrow> renderStatement st
               # map (\<lambda>x. catE [ok (lit ''; ''), renderStatement x]) sts). tplFail t s m"
  proof cases
    case 1
    with renderStatement_fail [OF assms(1) x(2)] show ?thesis by (cases stmts) auto
  next
    case 2
    with separated_fail [OF assms(1) x(2)] show ?thesis by (cases stmts) auto
  qed
qed

lemma renderStatements_isl:
  "isl (fst (renderStatements stmts r)) \<longleftrightarrow> strict r \<and> (\<exists>st\<in>set stmts. cannotRender (target r) st)"
proof -
  have r: "mk (target r) (strict r) (paramIndex r) = r" by (simp add: mk_def)
  show ?thesis
  proof (cases "strict r \<and> (\<exists>st\<in>set stmts. cannotRender (target r) st)")
    case True
    then have "tplFail (target r) (strict r) (renderStatements stmts)"
      by (intro renderStatements_fail) blast+
    then have "isl (fst (renderStatements stmts (mk (target r) (strict r) (paramIndex r))))"
      unfolding tplFail_def by blast
    then have "isl (fst (renderStatements stmts r))" by (simp only: r)
    with True show ?thesis by blast
  next
    case False
    then have "tplOK (target r) (strict r) (renderStatements stmts)"
      by (rule renderStatements_ok)
    then obtain ps where "renderStatements stmts (mk (target r) (strict r) (paramIndex r))
        = (Inr (fill (target r) ps (paramIndex r)),
           mk (target r) (strict r) (paramIndex r + adv (target r) ps))"
      unfolding tplOK_def by blast
    then have "renderStatements stmts r
        = (Inr (fill (target r) ps (paramIndex r)),
           mk (target r) (strict r) (paramIndex r + adv (target r) ps))"
      by (simp only: r)
    then have "\<not> isl (fst (renderStatements stmts r))" by simp
    with False show ?thesis by blast
  qed
qed


lemma renderIdent_target: "target r1 = target r \<Longrightarrow> renderIdent r1 i = renderIdent r i"
  by (simp add: renderIdent_def Let_def split: option.split)

lemma renderInsertHead_result:
  "\<exists>h k. renderInsertHead ins r = (Inr h, r\<lparr>paramIndex := k\<rparr>)"
proof -
  have r: "mk (target r) (strict r) (paramIndex r) = r" by (simp add: mk_def)
  from tplOK_renderInsertHead [of "target r" "strict r" ins]
  obtain ps where "renderInsertHead ins (mk (target r) (strict r) (paramIndex r))
        = (Inr (fill (target r) ps (paramIndex r)),
           mk (target r) (strict r) (paramIndex r + adv (target r) ps))"
    unfolding tplOK_def by blast
  then have "renderInsertHead ins r = (Inr (fill (target r) ps (paramIndex r)),
           mk (target r) (strict r) (paramIndex r + adv (target r) ps))"
    by (simp only: r)
  moreover have "mk (target r) (strict r) (paramIndex r + adv (target r) ps)
      = r\<lparr>paramIndex := paramIndex r + adv (target r) ps\<rparr>"
    by (simp add: mk_def)
  ultimately show ?thesis by metis
qed

lemma renderUpsert_on_duplicate_key:
  assumes "target r = DialectPostgres \<or> target r = DialectSQLite"
    and "OnDupKey ins \<noteq> []" and "OnConflictUpdate ins = []" and "OnConflictTarget ins = []"
  shows "fst (renderUpsert ins r) =
     (if insColumns ins \<noteq> [] then
        Inr ('' ON CONFLICT'' @ '' ('' @ renderIdent r (Some (insColumns ins ! 0)) @ '')''
             @ '' DO UPDATE SET '' @ fst (renderAssignments (OnDupKey ins) r))
      else if strict r then Inl NoConflictTarget
      else Inr ('' ON CONFLICT'' @ '' DO UPDATE SET '' @ fst (renderAssignments (OnDupKey ins) r)))"
proof -
  from assms(1) have nm: "target r \<noteq> DialectMySQL" by auto
  have pieces:
    "fst (ok (catR [lit x, whenR c (catR [lit y, rd f, lit z]), catR [lit w, m]]) r)
       = Inr (x @ (if c then y @ f r @ z else []) @ w @ fst (m r))" for x c y f z w m
    by (simp add: ok_def catR.simps lit_def rd_def whenR_def split_beta)
  show ?thesis
  proof (cases "insColumns ins = []")
    case True
    show ?thesis
    proof (cases "strict r")
      case True
      with \<open>insColumns ins = []\<close> assms nm show ?thesis
        by (simp add: renderUpsert_def)
    next
      case False
      with \<open>insColumns ins = []\<close> assms nm show ?thesis
        by (simp add: renderUpsert_def renderIdentList_def pieces)
    qed
  next
    case False
    with assms nm show ?thesis
      by (simp add: renderUpsert_def pieces renderIdentList_def)
  qed
qed

lemma catE_two:
  assumes "a r = (Inr h, r1)"
  shows "fst (catE [a, b] r) = (case fst (b r1) of Inl e \<Rightarrow> Inl e | Inr x \<Rightarrow> Inr (h @ x))"
proof (cases "b r1")
  case (Pair y r2)
  then show ?thesis
    by (cases y) (simp_all add: catE.simps assms)
qed

lemma on_duplicate_key:
  assumes "target r = DialectPostgres \<or> target r = DialectSQLite"
    and "OnDupKey ins \<noteq> []" and "OnConflictUpdate ins = []" and "OnConflictTarget ins = []"
  shows "\<exists>h r1. renderInsertHead ins r = (Inr h, r1) \<and>
     fst (renderInsert ins r) =
       (if insColumns ins \<noteq> [] then
          Inr (h @ '' ON CONFLICT'' @ '' ('' @ renderIdent r (Some (insColumns ins ! 0)) @ '')''
               @ '' DO UPDATE SET '' @ fst (renderAssignments (OnDupKey ins) r1))
        else if strict r then Inl NoConflictTarget
        else Inr (h @ '' ON CONFLICT'' @ '' DO UPDATE SET ''
                  @ fst (renderAssignments (OnDupKey ins) r1)))"
proof -
  from renderInsertHead_result [of ins r]
  obtain h k where h: "renderInsertHead ins r = (Inr h, r\<lparr>paramIndex := k\<rparr>)" by blast
  let ?r1 = "r\<lparr>paramIndex := k\<rparr>"
  from assms(1) have t1: "target ?r1 = DialectPostgres \<or> target ?r1 = DialectSQLite" by simp
  have u: "fst (renderUpsert ins ?r1) =
     (if insColumns ins \<noteq> [] then
        Inr ('' ON CONFLICT'' @ '' ('' @ renderIdent r (Some (insColumns ins ! 0)) @ '')''
             @ '' DO UPDATE SET '' @ fst (renderAssignments (OnDupKey ins) ?r1))
      else if strict r then Inl NoConflictTarget
      else Inr ('' ON CONFLICT'' @ '' DO UPDATE SET '' @ fst (renderAssignments (OnDupKey ins) ?r1)))"
    using renderUpsert_on_duplicate_key [OF t1 assms(2-4)] by simp
  have "fst (renderInsert ins r) =
      (case fst (renderUpsert ins ?r1) of Inl e \<Rightarrow> Inl e | Inr x \<Rightarrow> Inr (h @ x))"
    unfolding renderInsert_def by (rule catE_two) (rule h)
  then have "fst (renderInsert ins r) =
       (if insColumns ins \<noteq> [] then
          Inr (h @ '' ON CONFLICT'' @ '' ('' @ renderIdent r (Some (insColumns ins ! 0)) @ '')''
               @ '' DO UPDATE SET '' @ fst (renderAssignments (OnDupKey ins) ?r1))
        else if strict r then Inl NoConflictTarget
        else Inr (h @ '' ON CONFLICT'' @ '' DO UPDATE SET ''
                  @ fst (renderAssignments (OnDupKey ins) ?r1)))"
    by (simp only: u) (simp split: if_splits)
  with h show ?thesis by blast
qed


subsection \<open>Examples\<close>

text \<open>The statement
  \<^verbatim>\<open>INSERT INTO users (id, name) VALUES (1, IFNULL(:name, 'x')) ON DUPLICATE KEY UPDATE name = IFNULL(:name, name)\<close>
  and the statement \<^verbatim>\<open>SELECT * FROM t WHERE a = ?\<close> as syntax trees.\<close>

definition exampleInsert :: InsertStmt where
  "exampleInsert =
     \<lparr>insWith = None, insTable = Some \<lparr>Parts = [\<lparr>idRaw = ''users'', Unquoted = ''users''\<rparr>]\<rparr>,
      insColumns = [\<lparr>idRaw = ''id'', Unquoted = ''id''\<rparr>, \<lparr>idRaw = ''name'', Unquoted = ''name''\<rparr>],
      Values = [[Literal ''1'' INT_tok,
                 FuncCall (Some \<lparr>Parts = [\<lparr>idRaw = ''IFNULL'', Unquoted = ''IFNULL''\<rparr>]\<rparr>)
                   [Param '':name'', Literal [CHR 0x27, CHR ''x'', CHR 0x27] STRING] False False]],
      insSelect = None,
      OnDupKey = [\<lparr>Column = Some \<lparr>idRaw = ''name'', Unquoted = ''name''\<rparr>,
                   Value = FuncCall (Some \<lparr>Parts = [\<lparr>idRaw = ''IFNULL'', Unquoted = ''IFNULL''\<rparr>]\<rparr>)
                             [Param '':name'', IdentExpr \<lparr>idRaw = ''name'', Unquoted = ''name''\<rparr>]
                             False False\<rparr>],
      OnConflictTarget = [], OnConflictDoNothing = False, OnConflictUpdate = [],
      Ignore = False, Replace = False\<rparr>"

definition exampleSelect :: SelectStmt where
  "exampleSelect =
     SelectStmt None False [SelectColumn StarExpr None True]
       [SimpleTable (Some \<lparr>Parts = [\<lparr>idRaw = ''t'', Unquoted = ''t''\<rparr>]\<rparr>) None]
       (Some (BinaryExpr (IdentExpr \<lparr>idRaw = ''a'', Unquoted = ''a''\<rparr>) (Param ''?'') EQ))
       [] None [] None None"



lemma Itoa_small: "Itoa 1 = ''1''" "Itoa 2 = ''2''" "Itoa 3 = ''3''" "Itoa 4 = ''4''"
  by code_simp+

lemmas render_eval = renderStatements.simps renderStatement.simps renderInsert_def
  renderInsertHead_def renderUpsert_def renderAssignments_def renderIdentList_def
  renderExpr.simps renderSelect.simps renderRestOps.simps renderSetOps.simps
  renderSelectColumn.simps renderTableRef.simps
  renderParam_def renderIdent_def renderQualifiedIdent_def
  renderFunctionName_def opString_def catE.simps catR.simps joinR.simps ok_def lit_def rd_def
  whenR_def Let_def ReplaceAll_def ToUpper_def upperByte_def Itoa_small tok_defs
  DialectPostgres_def DialectMySQL_def DialectSQLite_def

lemma exampleStatements_postgres:
  \<open>renderStatements [Insert exampleInsert, Select exampleSelect]
      \<lparr>target = DialectPostgres, strict = True, paramIndex = 0\<rparr>
    = (Inr ''INSERT INTO "users" ("id", "name") VALUES (1, COALESCE($1, 'x')) ON CONFLICT ("id") DO UPDATE SET "name" = COALESCE($2, "name"); SELECT * FROM "t" WHERE ("a" = $3)'',
       \<lparr>target = DialectPostgres, strict = True, paramIndex = 3\<rparr>)\<close>
  by (simp add: exampleInsert_def exampleSelect_def render_eval)

lemma exampleStatements_mysql:
  \<open>renderStatements [Insert exampleInsert, Select exampleSelect]
      \<lparr>target = DialectMySQL, strict = True, paramIndex = 0\<rparr>
    = (Inr ''INSERT INTO `users` (`id`, `name`) VALUES (1, IFNULL(?, 'x')) ON DUPLICATE KEY UPDATE `name` = IFNULL(?, `name`); SELECT * FROM `t` WHERE (`a` = ?)'',
       \<lparr>target = DialectMySQL, strict = True, paramIndex = 0\<rparr>)\<close>
  by (simp add: exampleInsert_def exampleSelect_def render_eval)


section \<open>Claims about the renderer\<close>


text \<open>
  \<^bold>\<open>C6.\<close> Errors of the renderer. Rendering a statement list returns an error exactly when
  the renderer is strict and the list holds a statement that cannot be rendered for the
  target: a statement that no case of the type switch matches, an \<^verbatim>\<open>INSERT\<close> whose upsert
  has assignments but neither a conflict target nor a column list to take one from (for
  PostgreSQL and SQLite), or an \<^verbatim>\<open>EXPLAIN\<close> of such a statement. A renderer that is not strict
  returns a string for every statement list.
\<close>

theorem renderer_error_iff_strict:
  "(isl (fst (renderStatements stmts r))
      \<longleftrightarrow> strict r \<and> (\<exists>st\<in>set stmts. cannotRender (target r) st))
   \<and> (\<not> strict r \<longrightarrow> (\<exists>out. fst (renderStatements stmts r) = Inr out))"
proof -
  have iff: "isl (fst (renderStatements stmts r))
      \<longleftrightarrow> strict r \<and> (\<exists>st\<in>set stmts. cannotRender (target r) st)"
    by (rule renderStatements_isl)
  then have "\<not> strict r \<longrightarrow> \<not> isl (fst (renderStatements stmts r))" by blast
  then have "\<not> strict r \<longrightarrow> (\<exists>out. fst (renderStatements stmts r) = Inr out)"
    by (cases "fst (renderStatements stmts r)") auto
  with iff show ?thesis by blast
qed

theorem renderer_error_iff_strict_witness:
  "isl (fst (renderStatements [Select exampleSelect, ExplainStmt NilStatement]
              \<lparr>target = DialectMySQL, strict = True, paramIndex = 0\<rparr>))
   \<and> (\<exists>out. fst (renderStatements [Select exampleSelect, ExplainStmt NilStatement]
                    \<lparr>target = DialectMySQL, strict = False, paramIndex = 0\<rparr>) = Inr out)
   \<and> \<not> isl (fst (renderStatements [Insert exampleInsert, Select exampleSelect]
              \<lparr>target = DialectPostgres, strict = True, paramIndex = 0\<rparr>))"
  using
    renderer_error_iff_strict [of "[Select exampleSelect, ExplainStmt NilStatement]"
      "\<lparr>target = DialectMySQL, strict = True, paramIndex = 0\<rparr>"]
    renderer_error_iff_strict [of "[Select exampleSelect, ExplainStmt NilStatement]"
      "\<lparr>target = DialectMySQL, strict = False, paramIndex = 0\<rparr>"]
    renderer_error_iff_strict [of "[Insert exampleInsert, Select exampleSelect]"
      "\<lparr>target = DialectPostgres, strict = True, paramIndex = 0\<rparr>"]
  by (simp add: lacksConflictTarget_def exampleInsert_def)

text \<open>
  \<^bold>\<open>C7.\<close> \<^verbatim>\<open>ON DUPLICATE KEY UPDATE\<close> for PostgreSQL and SQLite. Let the \<^verbatim>\<open>INSERT\<close> have
  assignments from \<^verbatim>\<open>ON DUPLICATE KEY UPDATE\<close>, no assignments from \<^verbatim>\<open>ON CONFLICT\<close> and no
  conflict target, and let \<open>h\<close> be the statement rendered up to the upsert clause. With a column
  list the output is \<open>h\<close>, then \<^verbatim>\<open>ON CONFLICT (c) DO UPDATE SET\<close> with the first column \<open>c\<close> of
  the list, then the assignments. Without a column list a strict renderer returns the error
  \<^verbatim>\<open>cannot rewrite ON DUPLICATE KEY without conflict target\<close>, and a renderer that is not
  strict writes \<^verbatim>\<open>ON CONFLICT DO UPDATE SET\<close> and the assignments, with no target.
\<close>

theorem on_duplicate_key_to_on_conflict:
  assumes "target r = DialectPostgres \<or> target r = DialectSQLite"
    and "OnDupKey ins \<noteq> []" and "OnConflictUpdate ins = []" and "OnConflictTarget ins = []"
  shows "\<exists>h r1. renderInsertHead ins r = (Inr h, r1) \<and>
     fst (renderInsert ins r) =
       (if insColumns ins \<noteq> [] then
          Inr (h @ '' ON CONFLICT'' @ '' ('' @ renderIdent r (Some (insColumns ins ! 0)) @ '')''
               @ '' DO UPDATE SET '' @ fst (renderAssignments (OnDupKey ins) r1))
        else if strict r then Inl NoConflictTarget
        else Inr (h @ '' ON CONFLICT'' @ '' DO UPDATE SET ''
                  @ fst (renderAssignments (OnDupKey ins) r1)))"
  using assms by (rule on_duplicate_key)

theorem on_duplicate_key_to_on_conflict_witness:
  \<open>(target \<lparr>target = DialectSQLite, strict = True, paramIndex = 0\<rparr> = DialectPostgres
      \<or> target \<lparr>target = DialectSQLite, strict = True, paramIndex = 0\<rparr> = DialectSQLite)
   \<and> OnDupKey exampleInsert \<noteq> [] \<and> OnConflictUpdate exampleInsert = []
   \<and> OnConflictTarget exampleInsert = []
   \<and> fst (renderInsert exampleInsert \<lparr>target = DialectSQLite, strict = True, paramIndex = 0\<rparr>)
     = Inr ''INSERT INTO "users" ("id", "name") VALUES (1, COALESCE(?, 'x')) ON CONFLICT ("id") DO UPDATE SET "name" = COALESCE(?, "name")''\<close>
proof -
  let ?r = "\<lparr>target = DialectSQLite, strict = True, paramIndex = 0\<rparr>"
  have h1: "target ?r = DialectPostgres \<or> target ?r = DialectSQLite" by simp
  have h2: "OnDupKey exampleInsert \<noteq> []" by (simp add: exampleInsert_def)
  have h3: "OnConflictUpdate exampleInsert = []" by (simp add: exampleInsert_def)
  have h4: "OnConflictTarget exampleInsert = []" by (simp add: exampleInsert_def)
  have head: \<open>renderInsertHead exampleInsert ?r
      = (Inr ''INSERT INTO "users" ("id", "name") VALUES (1, COALESCE(?, 'x'))'', ?r)\<close>
    by (simp add: exampleInsert_def render_eval)
  have asg: \<open>fst (renderAssignments (OnDupKey exampleInsert) ?r) = ''"name" = COALESCE(?, "name")''\<close>
    by (simp add: exampleInsert_def render_eval)
  have cols: \<open>insColumns exampleInsert \<noteq> []\<close>
    \<open>renderIdent ?r (Some (insColumns exampleInsert ! 0)) = ''"id"''\<close>
    by (simp_all add: exampleInsert_def render_eval)
  from on_duplicate_key_to_on_conflict [OF h1 h2 h3 h4] head asg cols
  have \<open>fst (renderInsert exampleInsert ?r)
     = Inr ''INSERT INTO "users" ("id", "name") VALUES (1, COALESCE(?, 'x')) ON CONFLICT ("id") DO UPDATE SET "name" = COALESCE(?, "name")''\<close>
    by auto
  with h1 h2 h3 h4 show ?thesis by blast
qed


section \<open>The parser\<close>

text \<open>The parser holds the lexer, the current token and a token of lookahead. Its arena
  only provides the memory of the nodes and is left out. A \<^verbatim>\<open>ParseError\<close> carries the message
  \<^verbatim>\<open>fmt.Sprintf(format, args...)\<close>; the model keeps the format and the arguments apart.\<close>

record Parser =
  lex_p :: Lexer
  tok :: Token
  peek_tok :: Token
  hasPeek :: bool

record ParseError =
  Format :: string
  Args :: "string list"
  errPos :: "32 word"
  errLine :: "32 word"
  errCol :: "32 word"

text \<open>\<^verbatim>\<open>New\<close> and \<^verbatim>\<open>NewString\<close> of the parser: \<^verbatim>\<open>p := &Parser{}; p.lex_p = lexer.New(src);
  p.tok = p.lex.Next()\<close>. The zero value of a token has no bytes and the type 0.\<close>

definition zeroToken :: Token where
  "zeroToken = \<lparr>Raw = [], Type = 0, Pos = 0, Line = 0, Col = 0\<rparr>"

definition New_parser :: "string \<Rightarrow> Parser" where
  "New_parser s =
     (let (t, l) = Next (New s)
      in \<lparr>lex_p = l, tok = t, peek_tok = zeroToken, hasPeek = False\<rparr>)"

definition NewString_parser :: "string \<Rightarrow> Parser" where
  "NewString_parser s =
     (let (t, l) = Next (NewString s)
      in \<lparr>lex_p = l, tok = t, peek_tok = zeroToken, hasPeek = False\<rparr>)"

text \<open>\<^verbatim>\<open>advance\<close> of the parser returns the token that was current.\<close>

definition advance_parser :: "Parser \<Rightarrow> Token \<times> Parser" where
  "advance_parser p =
     (let prev = tok p
      in if hasPeek p then (prev, p\<lparr>tok := peek_tok p, hasPeek := False\<rparr>)
         else (let (t, l) = Next (lex_p p) in (prev, p\<lparr>tok := t, lex_p := l\<rparr>)))"

definition tryEat :: "TokenType \<Rightarrow> Parser \<Rightarrow> bool \<times> Parser" where
  "tryEat typ p = (if Type (tok p) = typ then (True, snd (advance_parser p)) else (False, p))"

definition tryEatKeyword :: "TokenType \<Rightarrow> Parser \<Rightarrow> bool \<times> Parser" where
  "tryEatKeyword kw p = (if Type (tok p) = kw then (True, snd (advance_parser p)) else (False, p))"

definition errorf :: "Parser \<Rightarrow> string \<Rightarrow> string list \<Rightarrow> ParseError" where
  "errorf p fmt as =
     \<lparr>Format = fmt, Args = as, errPos = Pos (tok p), errLine = Line (tok p), errCol = Col (tok p)\<rparr>"

subsection \<open>Skipping semicolons\<close>

text \<open>The number of tokens the parser can still take is bounded by the bytes the lexer
  has left; this bounds the loop \<^verbatim>\<open>for p.tok.Type == lexer.SEMICOLON { p.advance() }\<close>.\<close>

definition remaining :: "Parser \<Rightarrow> nat" where
  "remaining p = 2 * (length (src (lex_p p)) - pos (lex_p p)) + (if hasPeek p then 1 else 0)"

lemma advance_parser_remaining:
  assumes "Type (tok (snd (advance_parser p))) = SEMICOLON"
  shows "remaining (snd (advance_parser p)) < remaining p"
proof (cases "hasPeek p")
  case True
  then show ?thesis by (simp add: advance_parser_def remaining_def Let_def)
next
  case False
  with assms have "Type (fst (Next (lex_p p))) = SEMICOLON"
    by (simp add: advance_parser_def Let_def split_beta)
  then have "Type (fst (Next (lex_p p))) \<noteq> EOF" by (simp add: tok_defs)
  from Next_not_EOF [OF this] False show ?thesis
    by (simp add: advance_parser_def remaining_def Let_def split_beta) arith
qed

function skipSemis :: "Parser \<Rightarrow> Parser" where
  "skipSemis p = (if Type (tok p) = SEMICOLON then skipSemis (snd (advance_parser p)) else p)"
  by pat_completeness auto
termination
proof (relation "measure (\<lambda>p. if Type (tok p) = SEMICOLON then remaining p + 1 else 0)")
  show "wf (measure (\<lambda>p. if Type (tok p) = SEMICOLON then remaining p + 1 else 0))" by simp
next
  fix p :: Parser
  assume "Type (tok p) = SEMICOLON"
  then show "(snd (advance_parser p), p)
      \<in> measure (\<lambda>p. if Type (tok p) = SEMICOLON then remaining p + 1 else 0)"
    using advance_parser_remaining [of p] by simp
qed

declare skipSemis.simps [simp del]

subsection \<open>Statement dispatch\<close>

text \<open>The methods that \<^verbatim>\<open>parseStatement\<close> and \<^verbatim>\<open>parseIdentLedStatement\<close> hand the input
  over to. They are not modelled; the dispatch takes them as the parameter \<open>sub\<close>.\<close>

datatype StatementParser =
    parseSelect | parseWithStatement | parseInsert | parseReplace | parseUpdate | parseDelete
  | parseCreate | parseAlter | parseDrop | parseTruncate | parseUse | parseRollback
  | parseSetStmt | parseShow | parseExplain
  | parseBegin | parseCommit | parseStartTransaction | parseSavepoint | parseReleaseSavepoint
  | parseCall

type_synonym 'a parse = "Parser \<Rightarrow> (ParseError + 'a) \<times> Parser"

text \<open>\<^verbatim>\<open>equalASCIIFold(raw, s)\<close>: the bytes \<open>raw\<close>, with the upper-case ASCII letters made
  lower-case, are the bytes of \<open>s\<close>.\<close>

definition equalASCIIFold :: "string \<Rightarrow> string \<Rightarrow> bool" where
  "equalASCIIFold raw s \<longleftrightarrow> map lowerByte raw = s"

definition parseIdentLedStatement :: "(StatementParser \<Rightarrow> Statement parse) \<Rightarrow> Statement parse" where
  "parseIdentLedStatement sub p =
     (if equalASCIIFold (Raw (tok p)) ''begin'' then sub parseBegin p
      else if equalASCIIFold (Raw (tok p)) ''commit'' then sub parseCommit p
      else if equalASCIIFold (Raw (tok p)) ''start'' then sub parseStartTransaction p
      else if equalASCIIFold (Raw (tok p)) ''savepoint'' then sub parseSavepoint p
      else if equalASCIIFold (Raw (tok p)) ''release'' then sub parseReleaseSavepoint p
      else if equalASCIIFold (Raw (tok p)) ''call'' then sub parseCall p
      else (Inl (errorf p ''unexpected token %q at start of statement'' [Raw (tok p)]), p))"

definition parseStatement :: "(StatementParser \<Rightarrow> Statement parse) \<Rightarrow> Statement parse" where
  "parseStatement sub p =
     (let t = Type (tok p) in
      if t = SELECT then sub parseSelect p
      else if t = WITH then sub parseWithStatement p
      else if t = INSERT then sub parseInsert p
      else if t = REPLACE then sub parseReplace p
      else if t = UPDATE then sub parseUpdate p
      else if t = DELETE then sub parseDelete p
      else if t = CREATE then sub parseCreate p
      else if t = ALTER then sub parseAlter p
      else if t = DROP then sub parseDrop p
      else if t = TRUNCATE then sub parseTruncate p
      else if t = USE then sub parseUse p
      else if t = ROLLBACK then sub parseRollback p
      else if t = SET then sub parseSetStmt p
      else if t = SHOW then sub parseShow p
      else if t = EXPLAIN then sub parseExplain p
      else if t = IDENT then parseIdentLedStatement sub p
      else (Inl (errorf p ''unexpected token %q at start of statement'' [Raw (tok p)]), p))"

text \<open>\<^verbatim>\<open>ParseOne\<close> and \<^verbatim>\<open>ParseStatement\<close>. The result \<^verbatim>\<open>nil, nil\<close> is \<open>Inr None\<close>.\<close>

definition ParseOne ::
  "(StatementParser \<Rightarrow> Statement parse) \<Rightarrow> Parser \<Rightarrow> (ParseError + Statement option) \<times> Parser"
where
  "ParseOne sub p =
     (let p1 = skipSemis p in
      if Type (tok p1) = EOF then (Inr None, p1)
      else case parseStatement sub p1 of
             (Inl err, p2) \<Rightarrow> (Inl err, p2)
           | (Inr stmt, p2) \<Rightarrow> (Inr (Some stmt), skipSemis p2))"

definition ParseStatement ::
  "(StatementParser \<Rightarrow> Statement parse) \<Rightarrow> string \<Rightarrow> ParseError + Statement option"
where
  "ParseStatement sub s = fst (ParseOne sub (NewString_parser s))"

subsection \<open>Expressions\<close>

text \<open>The expression parser is recursive, and nothing in its text bounds the recursion, so
  the functions below take a number of steps \<open>n\<close> that every call of another parsing function
  and every turn of a loop lowers by one; the result \<open>None\<close> says that the steps ran out. The
  methods \<^verbatim>\<open>parseSelect\<close> and \<^verbatim>\<open>parseDataType\<close>, which the expression parser calls for a
  subquery and for the type of a \<^verbatim>\<open>CAST\<close>, are not modelled; they are the parameters \<open>sel\<close>
  and \<open>dty\<close>. The nodes are built without their positions.\<close>

type_synonym 'a parseF = "Parser \<Rightarrow> ((ParseError + 'a) \<times> Parser) option"

text \<open>Sequencing: \<open>bindP\<close> runs a parser that may fail and hands its result on, returning at
  once on an error, as \<^verbatim>\<open>if err != nil { return nil, err }\<close> does; \<open>stepP\<close> runs a method that
  cannot fail; \<open>readP\<close> reads the parser state.\<close>

definition returnP :: "'a \<Rightarrow> 'a parseF" where
  "returnP x = (\<lambda>p. Some (Inr x, p))"

definition liftP :: "'a parse \<Rightarrow> 'a parseF" where
  "liftP m = (\<lambda>p. Some (m p))"

definition bindP :: "'a parseF \<Rightarrow> ('a \<Rightarrow> 'b parseF) \<Rightarrow> 'b parseF" where
  "bindP m f =
     (\<lambda>p. case m p of
        None \<Rightarrow> None
      | Some (Inl err, p1) \<Rightarrow> Some (Inl err, p1)
      | Some (Inr x, p1) \<Rightarrow> f x p1)"

definition stepP :: "(Parser \<Rightarrow> 'a \<times> Parser) \<Rightarrow> ('a \<Rightarrow> 'b parseF) \<Rightarrow> 'b parseF" where
  "stepP m f = (\<lambda>p. case m p of (x, p1) \<Rightarrow> f x p1)"

definition readP :: "(Parser \<Rightarrow> 'a) \<Rightarrow> ('a \<Rightarrow> 'b parseF) \<Rightarrow> 'b parseF" where
  "readP g f = (\<lambda>p. f (g p) p)"

definition tokType :: "Parser \<Rightarrow> TokenType" where
  "tokType p = Type (tok p)"

text \<open>\<^verbatim>\<open>peekToken\<close>, \<^verbatim>\<open>eat\<close> and \<^verbatim>\<open>eatKeyword\<close>. The verb \<^verbatim>\<open>%s\<close> writes a token type by
  its \<^verbatim>\<open>String\<close> method.\<close>

definition peekToken :: "Parser \<Rightarrow> Token \<times> Parser" where
  "peekToken p =
     (if \<not> hasPeek p
      then (let (t, l) = Next (lex_p p) in (t, p\<lparr>peek_tok := t, lex_p := l, hasPeek := True\<rparr>))
      else (peek_tok p, p))"

definition eat :: "TokenType \<Rightarrow> Token parse" where
  "eat typ p =
     (if Type (tok p) \<noteq> typ
      then (Inl (errorf p ''expected %s, got %s (%q)''
                   [tokenString typ, tokenString (Type (tok p)), Raw (tok p)]), p)
      else (case advance_parser p of (prev, p1) \<Rightarrow> (Inr prev, p1)))"

definition eatKeyword :: "TokenType \<Rightarrow> unit parse" where
  "eatKeyword kw p =
     (if Type (tok p) \<noteq> kw
      then (Inl (errorf p ''expected keyword %s, got %q'' [tokenString kw, Raw (tok p)]), p)
      else (Inr (), snd (advance_parser p)))"

text \<open>The precedences, and \<^verbatim>\<open>tokenPrec\<close>, whose result \<^verbatim>\<open>0, false\<close> is \<open>None\<close>.\<close>

definition precOr :: nat where "precOr = 1"
definition precAnd :: nat where "precAnd = 2"
definition precComparison :: nat where "precComparison = 4"
definition precBitOr :: nat where "precBitOr = 5"
definition precBitAnd :: nat where "precBitAnd = 6"
definition precShift :: nat where "precShift = 7"
definition precAddSub :: nat where "precAddSub = 8"
definition precMulDiv :: nat where "precMulDiv = 9"
definition precPostfix :: nat where "precPostfix = 11"

definition tokenPrec :: "TokenType \<Rightarrow> nat option" where
  "tokenPrec t =
     (if t = OR then Some precOr
      else if t = AND \<or> t = DAMP then Some precAnd
      else if t = EQ \<or> t = NEQ \<or> t = LT \<or> t = GT \<or> t = LTE \<or> t = GTE then Some precComparison
      else if t = ATGT \<or> t = LTAT \<or> t = QUESTION \<or> t = QMARKPIPE \<or> t = QMARKAMP
        then Some precComparison
      else if t = PIPE then Some precBitOr
      else if t = CARET then Some precBitOr
      else if t = AMPERSAND then Some precBitAnd
      else if t = LSHIFT \<or> t = RSHIFT then Some precShift
      else if t = PLUS \<or> t = MINUS then Some precAddSub
      else if t = STAR \<or> t = SLASH \<or> t = PERCENT then Some precMulDiv
      else if t = DBAR then Some precAddSub
      else if t = ARROW \<or> t = DARROW2 \<or> t = HASHARROW \<or> t = HASHDARROW then Some precPostfix
      else None)"

text \<open>Identifiers. \<^verbatim>\<open>lowerASCIIStringArena\<close> returns the bytes with the upper-case ASCII
  letters made lower-case; \<^verbatim>\<open>unquoteIdentArena\<close> strips a pair of backticks or double
  quotes.\<close>

definition lowerASCIIString :: "string \<Rightarrow> string" where
  "lowerASCIIString raw = map lowerByte raw"

definition unquoteIdent :: "string \<Rightarrow> string" where
  "unquoteIdent raw =
     (if length raw < 2 then lowerASCIIString raw
      else if (raw ! 0 = CHR 0x60 \<or> raw ! 0 = CHR 0x22) \<and> raw ! (length raw - 1) = raw ! 0
        then slice raw 1 (length raw - 1)
      else lowerASCIIString raw)"

definition parseIdent :: "Ident parse" where
  "parseIdent p =
     (let t = tok p in
      if Type t = IDENT \<or> Type t = BACKTICK \<or> Type t = DQUOTE then
        (Inr \<lparr>idRaw = Raw t, Unquoted = unquoteIdent (Raw t)\<rparr>, snd (advance_parser p))
      else if Type t > ILLEGAL \<and> Type t < INT_tok then
        (Inr \<lparr>idRaw = Raw t, Unquoted = lowerASCIIString (Raw t)\<rparr>, snd (advance_parser p))
      else (Inl (errorf p ''expected identifier, got %q'' [Raw t]), p))"

text \<open>The loop \<^verbatim>\<open>for p.is(lexer.DOT) { ... }\<close> of \<^verbatim>\<open>parseQualifiedIdent\<close>, with the parts
  read so far.\<close>

fun parseQualifiedIdentLoop :: "nat \<Rightarrow> Ident list \<Rightarrow> QualifiedIdent parseF" where
  "parseQualifiedIdentLoop 0 parts = (\<lambda>p. None)"
| "parseQualifiedIdentLoop (Suc n) parts =
     readP tokType (\<lambda>t.
       if t = DOT then
         stepP advance_parser (\<lambda>_. (\<lambda>p.
           case parseIdent p of
             (Inl err, p1) \<Rightarrow>
               if Type (tok p1) = STAR
               then Some (Inr \<lparr>Parts = parts @ [\<lparr>idRaw = Raw (tok p1), Unquoted = ''*''\<rparr>]\<rparr>,
                          snd (advance_parser p1))
               else Some (Inl err, p1)
           | (Inr next, p1) \<Rightarrow> parseQualifiedIdentLoop n (parts @ [next]) p1))
       else returnP \<lparr>Parts = parts\<rparr>)"

definition parseQualifiedIdent :: "nat \<Rightarrow> QualifiedIdent parseF" where
  "parseQualifiedIdent n = bindP (liftP parseIdent) (\<lambda>ident. parseQualifiedIdentLoop n [ident])"

text \<open>The expression parser; the number of steps is the third argument and gets smaller at
  every call. \<open>parseExprLoop\<close> is the loop \<^verbatim>\<open>for { ... }\<close> of \<^verbatim>\<open>parseExpr\<close>
  with the expression \<open>left\<close> read so far, and \<open>parseBinary\<close> the part of its body after the
  \<^verbatim>\<open>switch\<close>, which the cases without a \<^verbatim>\<open>continue\<close> fall through to; \<open>parseWhens\<close> is the loop
  of \<^verbatim>\<open>parseCaseExpr\<close> and \<open>parseExprListLoop\<close> the loop of \<^verbatim>\<open>parseExprList\<close>.\<close>

function parseExpr :: "SelectStmt parse \<Rightarrow> DataType parse \<Rightarrow> nat \<Rightarrow> nat \<Rightarrow> Expr parseF"
  and parseExprLoop :: "SelectStmt parse \<Rightarrow> DataType parse \<Rightarrow> nat \<Rightarrow> nat \<Rightarrow> Expr \<Rightarrow> Expr parseF"
  and parseBinary :: "SelectStmt parse \<Rightarrow> DataType parse \<Rightarrow> nat \<Rightarrow> nat \<Rightarrow> Expr \<Rightarrow> Expr parseF"
  and parseInRHS :: "SelectStmt parse \<Rightarrow> DataType parse \<Rightarrow> nat \<Rightarrow> Expr \<Rightarrow> bool \<Rightarrow> Expr parseF"
  and parseUnary :: "SelectStmt parse \<Rightarrow> DataType parse \<Rightarrow> nat \<Rightarrow> Expr parseF"
  and parsePrimary :: "SelectStmt parse \<Rightarrow> DataType parse \<Rightarrow> nat \<Rightarrow> Expr parseF"
  and parseCaseExpr :: "SelectStmt parse \<Rightarrow> DataType parse \<Rightarrow> nat \<Rightarrow> Expr parseF"
  and parseWhens :: "SelectStmt parse \<Rightarrow> DataType parse \<Rightarrow> nat \<Rightarrow> WhenClause list \<Rightarrow> WhenClause list parseF"
  and parseCast :: "SelectStmt parse \<Rightarrow> DataType parse \<Rightarrow> nat \<Rightarrow> Expr parseF"
  and parseFuncCall :: "SelectStmt parse \<Rightarrow> DataType parse \<Rightarrow> nat \<Rightarrow> QualifiedIdent \<Rightarrow> Expr parseF"
  and parseExprList :: "SelectStmt parse \<Rightarrow> DataType parse \<Rightarrow> nat \<Rightarrow> Expr list parseF"
  and parseExprListLoop :: "SelectStmt parse \<Rightarrow> DataType parse \<Rightarrow> nat \<Rightarrow> Expr list \<Rightarrow> Expr list parseF"
where
  "parseExpr sel dty 0 minPrec = (\<lambda>p. None)"
| "parseExpr sel dty (Suc n) minPrec =
     bindP (parseUnary sel dty n) (\<lambda>left. parseExprLoop sel dty n minPrec left)"
| "parseExprLoop sel dty 0 minPrec left = (\<lambda>p. None)"
| "parseExprLoop sel dty (Suc n) minPrec left =
     readP tokType (\<lambda>t.
       if t = IS then
         stepP advance_parser (\<lambda>_.
         stepP (tryEatKeyword NOT) (\<lambda>neg.
         bindP (liftP (eat NULL_KW)) (\<lambda>_.
         parseExprLoop sel dty n minPrec (IsNullExpr left neg))))
       else if t = NOT then
         stepP peekToken (\<lambda>pk.
           if Type pk = LIKE then
             stepP advance_parser (\<lambda>_.
             stepP advance_parser (\<lambda>_.
             bindP (parseExpr sel dty n precMulDiv) (\<lambda>right.
             stepP (tryEatKeyword ESCAPE) (\<lambda>hasEscape.
               if hasEscape then
                 bindP (parseExpr sel dty n precMulDiv) (\<lambda>esc.
                 parseExprLoop sel dty n minPrec (LikeExpr left right (Some esc) True))
               else parseExprLoop sel dty n minPrec (LikeExpr left right None True)))))
           else if Type pk = IN then
             stepP advance_parser (\<lambda>_.
             stepP advance_parser (\<lambda>_.
             bindP (parseInRHS sel dty n left True) (\<lambda>inExpr.
             parseExprLoop sel dty n minPrec inExpr)))
           else if Type pk = BETWEEN then
             stepP advance_parser (\<lambda>_.
             stepP advance_parser (\<lambda>_.
             bindP (parseExpr sel dty n (precComparison + 1)) (\<lambda>lo.
             bindP (liftP (eatKeyword AND)) (\<lambda>_.
             bindP (parseExpr sel dty n (precComparison + 1)) (\<lambda>hi.
             parseExprLoop sel dty n minPrec (BetweenExpr left lo hi True))))))
           else parseBinary sel dty n minPrec left)
       else if t = LIKE then
         stepP advance_parser (\<lambda>_.
         bindP (parseExpr sel dty n precMulDiv) (\<lambda>right.
         stepP (tryEatKeyword ESCAPE) (\<lambda>hasEscape.
           if hasEscape then
             bindP (parseExpr sel dty n precMulDiv) (\<lambda>esc.
             parseExprLoop sel dty n minPrec (LikeExpr left right (Some esc) False))
           else parseExprLoop sel dty n minPrec (LikeExpr left right None False))))
       else if t = IN then
         stepP advance_parser (\<lambda>_.
         bindP (parseInRHS sel dty n left False) (\<lambda>inExpr.
         parseExprLoop sel dty n minPrec inExpr))
       else if t = BETWEEN then
         stepP advance_parser (\<lambda>_.
         bindP (parseExpr sel dty n (precComparison + 1)) (\<lambda>lo.
         bindP (liftP (eatKeyword AND)) (\<lambda>_.
         bindP (parseExpr sel dty n (precComparison + 1)) (\<lambda>hi.
         parseExprLoop sel dty n minPrec (BetweenExpr left lo hi False)))))
       else parseBinary sel dty n minPrec left)"
| "parseBinary sel dty 0 minPrec left = (\<lambda>p. None)"
| "parseBinary sel dty (Suc n) minPrec left =
     readP tokType (\<lambda>op.
       case tokenPrec op of
         None \<Rightarrow> returnP left
       | Some prec \<Rightarrow>
           if prec \<le> minPrec then returnP left
           else
             stepP advance_parser (\<lambda>_.
             bindP (parseExpr sel dty n prec) (\<lambda>right.
             parseExprLoop sel dty n minPrec (BinaryExpr left right op))))"
| "parseInRHS sel dty 0 left neg = (\<lambda>p. None)"
| "parseInRHS sel dty (Suc n) left neg =
     bindP (liftP (eat LPAREN)) (\<lambda>_.
     readP tokType (\<lambda>t.
       if t = SELECT \<or> t = WITH then
         bindP (liftP sel) (\<lambda>sq.
         bindP (liftP (eat RPAREN)) (\<lambda>_.
         returnP (InExpr left [] (Some sq) neg)))
       else
         bindP (parseExprList sel dty n) (\<lambda>items.
         bindP (liftP (eat RPAREN)) (\<lambda>_.
         returnP (InExpr left items None neg)))))"
| "parseUnary sel dty 0 = (\<lambda>p. None)"
| "parseUnary sel dty (Suc n) =
     readP tokType (\<lambda>t.
       if t = MINUS then
         stepP advance_parser (\<lambda>_.
         bindP (parseUnary sel dty n) (\<lambda>e. returnP (UnaryExpr e MINUS)))
       else if t = PLUS then
         stepP advance_parser (\<lambda>_.
         bindP (parseUnary sel dty n) (\<lambda>e. returnP (UnaryExpr e PLUS)))
       else if t = TILDE then
         stepP advance_parser (\<lambda>_.
         bindP (parseUnary sel dty n) (\<lambda>e. returnP (UnaryExpr e TILDE)))
       else if t = NOT then
         stepP advance_parser (\<lambda>_.
         bindP (parseUnary sel dty n) (\<lambda>e. returnP (UnaryExpr e NOT)))
       else if t = EXISTS then
         stepP advance_parser (\<lambda>_.
         bindP (liftP (eat LPAREN)) (\<lambda>_.
         bindP (liftP sel) (\<lambda>sq.
         bindP (liftP (eat RPAREN)) (\<lambda>_.
         returnP (ExistsExpr sq False)))))
       else parsePrimary sel dty n)"
| "parsePrimary sel dty 0 = (\<lambda>p. None)"
| "parsePrimary sel dty (Suc n) =
     readP tokType (\<lambda>t.
       if t = INT_tok \<or> t = FLOAT \<or> t = STRING \<or> t = HEXLIT \<or> t = BITLIT then
         stepP advance_parser (\<lambda>prev. returnP (Literal (Raw prev) (Type prev)))
       else if t = NULL_KW then
         stepP advance_parser (\<lambda>prev. returnP NullLit)
       else if t = TRUE_KW \<or> t = FALSE_KW then
         stepP advance_parser (\<lambda>prev. returnP (Literal (Raw prev) (Type prev)))
       else if t = NAMEDPARAM \<or> t = QUESTION then
         stepP advance_parser (\<lambda>prev. returnP (Param (Raw prev)))
       else if t = STAR then
         stepP advance_parser (\<lambda>prev. returnP StarExpr)
       else if t = LPAREN then
         stepP advance_parser (\<lambda>_.
         readP tokType (\<lambda>t1.
           if t1 = SELECT \<or> t1 = WITH then
             bindP (liftP sel) (\<lambda>sq.
             bindP (liftP (eat RPAREN)) (\<lambda>_.
             returnP (SubqueryExpr sq)))
           else
             bindP (parseExpr sel dty n 0) (\<lambda>e.
             bindP (liftP (eat RPAREN)) (\<lambda>_.
             returnP e))))
       else if t = CASE then parseCaseExpr sel dty n
       else if t = CAST then parseCast sel dty n
       else if t = IDENT \<or> t = BACKTICK \<or> t = DQUOTE then
         bindP (parseQualifiedIdent n) (\<lambda>name.
         readP tokType (\<lambda>t1.
           if t1 = LPAREN then parseFuncCall sel dty n name
           else if length (Parts name) = 1 then returnP (IdentExpr (Parts name ! 0))
           else returnP (QualifiedIdentExpr name)))
       else if t = REPLACE \<or> t = LEFT \<or> t = RIGHT \<or> t = INSERT then
         readP tok (\<lambda>cur.
           let part = \<lparr>idRaw = Raw cur, Unquoted = lowerASCIIString (Raw cur)\<rparr>;
               name = \<lparr>Parts = [part]\<rparr>
           in stepP advance_parser (\<lambda>_.
              readP tokType (\<lambda>t1.
                if t1 = LPAREN then parseFuncCall sel dty n name
                else returnP (IdentExpr (Parts name ! 0)))))
       else (\<lambda>p. Some (Inl (errorf p ''unexpected token %q in expression'' [Raw (tok p)]), p)))"
| "parseCaseExpr sel dty 0 = (\<lambda>p. None)"
| "parseCaseExpr sel dty (Suc n) =
     stepP advance_parser (\<lambda>_.
     readP tokType (\<lambda>t.
       bindP (if t \<noteq> WHEN then bindP (parseExpr sel dty n 0) (\<lambda>operand. returnP (Some operand))
              else returnP None) (\<lambda>operand.
       bindP (parseWhens sel dty n []) (\<lambda>whens.
       stepP (tryEatKeyword ELSE) (\<lambda>hasElse.
         bindP (if hasElse then bindP (parseExpr sel dty n 0) (\<lambda>el. returnP (Some el))
                else returnP None) (\<lambda>els.
         bindP (liftP (eatKeyword END)) (\<lambda>_.
         returnP (CaseExpr operand whens els))))))))"
| "parseWhens sel dty 0 whens = (\<lambda>p. None)"
| "parseWhens sel dty (Suc n) whens =
     stepP (tryEatKeyword WHEN) (\<lambda>hasWhen.
       if hasWhen then
         bindP (parseExpr sel dty n 0) (\<lambda>cond.
         bindP (liftP (eatKeyword THEN)) (\<lambda>_.
         bindP (parseExpr sel dty n 0) (\<lambda>res.
         parseWhens sel dty n (whens @ [WhenClause cond res]))))
       else returnP whens)"
| "parseCast sel dty 0 = (\<lambda>p. None)"
| "parseCast sel dty (Suc n) =
     stepP advance_parser (\<lambda>_.
     bindP (liftP (eat LPAREN)) (\<lambda>_.
     bindP (parseExpr sel dty n 0) (\<lambda>e.
     bindP (liftP (eatKeyword AS)) (\<lambda>_.
     bindP (liftP dty) (\<lambda>dt.
     bindP (liftP (eat RPAREN)) (\<lambda>_.
     returnP (CastExpr e dt)))))))"
| "parseFuncCall sel dty 0 name = (\<lambda>p. None)"
| "parseFuncCall sel dty (Suc n) name =
     stepP advance_parser (\<lambda>_.
     readP tokType (\<lambda>t.
       if t = RPAREN then
         stepP advance_parser (\<lambda>_. returnP (FuncCall (Some name) [] False False))
       else if t = STAR then
         stepP advance_parser (\<lambda>_.
         bindP (liftP (eat RPAREN)) (\<lambda>_.
         returnP (FuncCall (Some name) [] False True)))
       else
         stepP (tryEatKeyword DISTINCT) (\<lambda>dist.
         bindP (parseExprList sel dty n) (\<lambda>args.
         bindP (liftP (eat RPAREN)) (\<lambda>_.
         returnP (FuncCall (Some name) args dist False))))))"
| "parseExprList sel dty 0 = (\<lambda>p. None)"
| "parseExprList sel dty (Suc n) = parseExprListLoop sel dty n []"
| "parseExprListLoop sel dty 0 exprs = (\<lambda>p. None)"
| "parseExprListLoop sel dty (Suc n) exprs =
     bindP (parseExpr sel dty n 0) (\<lambda>e.
     stepP (tryEat COMMA) (\<lambda>hasComma.
       if hasComma then parseExprListLoop sel dty n (exprs @ [e])
       else returnP (exprs @ [e])))"
  by pat_completeness auto

termination
  by (relation "measure (case_sum
      (case_sum (case_sum (\<lambda>x. fst (snd (snd x))) (case_sum (\<lambda>x. fst (snd (snd x))) (\<lambda>x. fst (snd (snd x)))))
                (case_sum (\<lambda>x. fst (snd (snd x))) (case_sum (\<lambda>x. snd (snd x)) (\<lambda>x. snd (snd x)))))
      (case_sum (case_sum (\<lambda>x. snd (snd x)) (case_sum (\<lambda>x. fst (snd (snd x))) (\<lambda>x. snd (snd x))))
                (case_sum (\<lambda>x. fst (snd (snd x))) (case_sum (\<lambda>x. snd (snd x)) (\<lambda>x. fst (snd (snd x)))))))") simp_all

declare parseExpr.simps [simp del] parseExprLoop.simps [simp del] parseBinary.simps [simp del]
  parseInRHS.simps [simp del] parseUnary.simps [simp del] parsePrimary.simps [simp del]
  parseCaseExpr.simps [simp del] parseWhens.simps [simp del] parseCast.simps [simp del]
  parseFuncCall.simps [simp del] parseExprList.simps [simp del] parseExprListLoop.simps [simp del]

subsection \<open>The limit clause\<close>

fun Count :: "LimitClause \<Rightarrow> Expr" where
  "Count (LimitClause c offs) = c"

fun Offset :: "LimitClause \<Rightarrow> Expr option" where
  "Offset (LimitClause c offs) = offs"

text \<open>\<^verbatim>\<open>parseLimit\<close>. The assignments \<^verbatim>\<open>lim.Offset = lim.Count; lim.Count = off\<close> of the comma
  form are written out on the node \<open>lim\<close>.\<close>

definition parseLimit :: "SelectStmt parse \<Rightarrow> DataType parse \<Rightarrow> nat \<Rightarrow> LimitClause parseF" where
  "parseLimit sel dty n =
     bindP (parseExpr sel dty n 0) (\<lambda>cnt.
       let lim = LimitClause cnt None in
       stepP (tryEatKeyword OFFSET) (\<lambda>isOffset.
         if isOffset then
           bindP (parseExpr sel dty n 0) (\<lambda>offs.
           returnP (LimitClause (Count lim) (Some offs)))
         else
           stepP (tryEat COMMA) (\<lambda>isComma.
             if isComma then
               bindP (parseExpr sel dty n 0) (\<lambda>offs.
                 let lim1 = LimitClause (Count lim) (Some (Count lim));
                     lim2 = LimitClause offs (Offset lim1)
                 in returnP lim2)
             else returnP lim)))"


subsection \<open>Sources without a statement\<close>

text \<open>When the lexer delivers only semicolons before the end of input, \<^verbatim>\<open>skipSemis\<close> stops
  at the end-of-input token, and \<^verbatim>\<open>ParseOne\<close> returns no statement and no error.\<close>

lemma skipSemis_only_semicolons:
  assumes "\<forall>t\<in>set (TokenizeLoop (lex_p p) []). Type t = SEMICOLON \<or> Type t = EOF"
    and "\<not> hasPeek p" and "Type (tok p) = SEMICOLON \<or> Type (tok p) = EOF"
  shows "Type (tok (skipSemis p)) = EOF"
  using assms
proof (induction "length (src (lex_p p)) - pos (lex_p p)" arbitrary: p rule: less_induct)
  case less
  show ?case
  proof (cases "Type (tok p) = SEMICOLON")
    case False
    with less.prems(3) show ?thesis by (simp add: skipSemis.simps [of p])
  next
    case True
    let ?p' = "snd (advance_parser p)"
    have p': "tok ?p' = fst (Next (lex_p p))" "lex_p ?p' = snd (Next (lex_p p))" "\<not> hasPeek ?p'"
      using less.prems(2) by (simp_all add: advance_parser_def Let_def split_beta)
    from True have step: "skipSemis p = skipSemis ?p'" by (simp add: skipSemis.simps [of p])
    show ?thesis
    proof (cases "Type (fst (Next (lex_p p))) = EOF")
      case True
      with p' have "Type (tok ?p') = EOF" by simp
      then have "skipSemis ?p' = ?p'" by (simp add: skipSemis.simps [of ?p'] tok_defs)
      with step \<open>Type (tok ?p') = EOF\<close> show ?thesis by simp
    next
      case False
      note st = TokenizeLoop_step [OF False]
      from Next_not_EOF [OF False]
      have less': "length (src (lex_p ?p')) - pos (lex_p ?p') < length (src (lex_p p)) - pos (lex_p p)"
        using p' by simp arith
      from less.prems(1) st have a: "Type (fst (Next (lex_p p))) = SEMICOLON \<or> Type (fst (Next (lex_p p))) = EOF"
        and b: "\<forall>t\<in>set (TokenizeLoop (lex_p ?p') []). Type t = SEMICOLON \<or> Type t = EOF"
        using p' by simp_all
      from a p' have c: "Type (tok ?p') = SEMICOLON \<or> Type (tok ?p') = EOF" by simp
      from less.hyps [OF less' b p'(3) c] step show ?thesis by simp
    qed
  qed
qed

lemma ParseStatement_only_semicolons:
  assumes "\<forall>t\<in>set (Tokenize s []). Type t = SEMICOLON \<or> Type t = EOF"
  shows "ParseStatement sub s = Inr None"
    and "fst (ParseOne sub (New_parser s)) = Inr None"
proof -
  let ?p = "NewString_parser s"
  have p: "tok ?p = fst (Next (New s))" "lex_p ?p = snd (Next (New s))" "\<not> hasPeek ?p"
    by (simp_all add: NewString_parser_def NewString_def New_def split_beta)
  have eq: "New_parser s = NewString_parser s"
    by (simp add: NewString_parser_def New_parser_def NewString_def New_def)
  have "Type (tok (skipSemis ?p)) = EOF"
  proof (cases "Type (fst (Next (New s))) = EOF")
    case True
    with p have "skipSemis ?p = ?p" by (simp add: skipSemis.simps [of ?p] tok_defs)
    with True p show ?thesis by simp
  next
    case False
    from assms TokenizeLoop_step [OF False]
    have "Type (fst (Next (New s))) = SEMICOLON \<or> Type (fst (Next (New s))) = EOF"
      and "\<forall>t\<in>set (TokenizeLoop (snd (Next (New s))) []). Type t = SEMICOLON \<or> Type t = EOF"
      by (simp_all add: Tokenize_def)
    with p show ?thesis by (intro skipSemis_only_semicolons) simp_all
  qed
  then show "ParseStatement sub s = Inr None"
    by (simp add: ParseStatement_def ParseOne_def Let_def)
  with eq show "fst (ParseOne sub (New_parser s)) = Inr None"
    by (simp add: ParseStatement_def)
qed

subsection \<open>The two forms of the limit clause\<close>

text \<open>Whenever the expression parser reads \<open>a\<close>, then stands at \<^verbatim>\<open>OFFSET\<close> and reads \<open>b\<close> after
  it, \<^verbatim>\<open>parseLimit\<close> returns count \<open>a\<close> and offset \<open>b\<close>; whenever it reads \<open>b\<close>, then stands at a
  comma and reads \<open>a\<close> after it, \<^verbatim>\<open>parseLimit\<close> returns count \<open>a\<close> and offset \<open>b\<close> as well.\<close>

lemma parseLimit_offset_form:
  assumes "parseExpr sel dty n 0 p = Some (Inr a, p1)" and "Type (tok p1) = OFFSET"
    and "parseExpr sel dty n 0 (snd (advance_parser p1)) = Some (Inr b, p2)"
  shows "parseLimit sel dty n p = Some (Inr (LimitClause a (Some b)), p2)"
  using assms
  by (simp add: parseLimit_def bindP_def stepP_def returnP_def tryEatKeyword_def Let_def)

lemma parseLimit_comma_form:
  assumes "parseExpr sel dty n 0 p = Some (Inr b, p1)" and "Type (tok p1) = COMMA"
    and "parseExpr sel dty n 0 (snd (advance_parser p1)) = Some (Inr a, p2)"
  shows "parseLimit sel dty n p = Some (Inr (LimitClause a (Some b)), p2)"
proof -
  have "COMMA \<noteq> OFFSET" by (simp add: tok_defs)
  with assms show ?thesis
    by (simp add: parseLimit_def bindP_def stepP_def returnP_def tryEatKeyword_def tryEat_def Let_def)
qed

lemma parseLimit_count_only:
  assumes "parseExpr sel dty n 0 p = Some (Inr a, p1)" and "Type (tok p1) \<noteq> OFFSET"
    and "Type (tok p1) \<noteq> COMMA"
  shows "parseLimit sel dty n p = Some (Inr (LimitClause a None), p1)"
  using assms
  by (simp add: parseLimit_def bindP_def stepP_def returnP_def tryEatKeyword_def tryEat_def Let_def)

subsection \<open>Examples\<close>

text \<open>The parser that has consumed the first token of a source, as \<^verbatim>\<open>parseSelectCore\<close> has
  consumed \<^verbatim>\<open>LIMIT\<close> when it calls \<^verbatim>\<open>parseLimit\<close>.\<close>

definition afterFirstToken :: "string \<Rightarrow> Parser" where
  "afterFirstToken s = snd (advance_parser (New_parser s))"

lemmas parse_eval = New_parser_def NewString_parser_def advance_parser_def tryEat_def
  tryEatKeyword_def errorf_def parseStatement_def parseIdentLedStatement_def ParseOne_def
  ParseStatement_def equalASCIIFold_def zeroToken_def afterFirstToken_def
  skipSemis.simps [where p = "\<lparr>lex_p = l, tok = t, peek_tok = k, hasPeek = h\<rparr>" for l t k h]
  lookupKeyword_def keywordsByLen_def words_def bytesEqualString_def tok_defs

lemmas expr_eval = parseLimit_def parseExpr.simps parseExprLoop.simps parseBinary.simps
  parseUnary.simps parsePrimary.simps bindP_def stepP_def readP_def returnP_def liftP_def
  tokType_def tokenPrec_def

lemma parseLimit_examples:
  "map_option fst (parseLimit sel dty (Suc (Suc (Suc n))) (afterFirstToken ''limit 10 offset 5''))
     = Some (Inr (LimitClause (Literal ''10'' INT_tok) (Some (Literal ''5'' INT_tok))))"
  "map_option fst (parseLimit sel dty (Suc (Suc (Suc n))) (afterFirstToken ''limit 5, 10''))
     = Some (Inr (LimitClause (Literal ''10'' INT_tok) (Some (Literal ''5'' INT_tok))))"
  "map_option fst (parseLimit sel dty (Suc (Suc (Suc n))) (afterFirstToken ''limit 10''))
     = Some (Inr (LimitClause (Literal ''10'' INT_tok) None))"
  by (simp_all add: lex_eval parse_eval expr_eval)

section \<open>Claims about the parser\<close>

text \<open>
  \<^bold>\<open>C4.\<close> The two forms of the limit clause, for the expressions \<^verbatim>\<open>0x1f\<close> and \<^verbatim>\<open>5\<close>. The claim
  gives \<^verbatim>\<open>LIMIT 0x1f OFFSET 5\<close> and \<^verbatim>\<open>LIMIT 5, 0x1f\<close> the same clause, with the count
  \<^verbatim>\<open>0x1f\<close> and the offset \<^verbatim>\<open>5\<close>. The lexer delivers \<^verbatim>\<open>0x1f\<close> as the integer \<^verbatim>\<open>0\<close> and the
  identifier \<^verbatim>\<open>x1f\<close>, and the expression parser stops after the integer. So, with steps enough
  for the expression parser and whatever \<^verbatim>\<open>parseSelect\<close> and \<^verbatim>\<open>parseDataType\<close> do,
  \<^verbatim>\<open>parseLimit\<close> returns for the first form the count \<^verbatim>\<open>0\<close> and no offset, standing at the
  identifier \<^verbatim>\<open>x1f\<close>, and for the second form the count \<^verbatim>\<open>0\<close> and the offset \<^verbatim>\<open>5\<close>.
\<close>

theorem parseLimit_hex_literal_forms_differ:
  "map_option fst (parseLimit sel dty (Suc (Suc (Suc n))) (afterFirstToken ''limit 0x1f offset 5''))
     = Some (Inr (LimitClause (Literal ''0'' INT_tok) None))
   \<and> map_option (\<lambda>r. (Type (tok (snd r)), Raw (tok (snd r))))
         (parseLimit sel dty (Suc (Suc (Suc n))) (afterFirstToken ''limit 0x1f offset 5''))
     = Some (IDENT, ''x1f'')
   \<and> map_option fst (parseLimit sel dty (Suc (Suc (Suc n))) (afterFirstToken ''limit 5, 0x1f''))
     = Some (Inr (LimitClause (Literal ''0'' INT_tok) (Some (Literal ''5'' INT_tok))))"
  by (simp add: lex_eval parse_eval expr_eval)

text \<open>
  \<^bold>\<open>C10.\<close> Sources without a statement. For the source \<^verbatim>\<open>/*1\<close>, an unterminated block
  comment and nothing else, \<^verbatim>\<open>ParseStatement\<close> and \<^verbatim>\<open>ParseOne\<close> return a
  \<^verbatim>\<open>ParseError\<close>, whatever the methods for the single statements do: the lexer stops the
  comment one byte before the end of the input and delivers that byte as an integer literal,
  which \<^verbatim>\<open>parseStatement\<close> rejects with \<^verbatim>\<open>unexpected token "1" at start of statement\<close>.
  (When the lexer delivers only semicolons before the end of input, both return no
  statement and no error: lemma \<open>ParseStatement_only_semicolons\<close>.)
\<close>

theorem ParseStatement_unterminated_comment:
  "ParseStatement sub ''/*1''
     = Inl \<lparr>Format = ''unexpected token %q at start of statement'', Args = [''1''],
            errPos = 2, errLine = 1, errCol = 3\<rparr>
   \<and> fst (ParseOne sub (New_parser ''/*1''))
     = Inl \<lparr>Format = ''unexpected token %q at start of statement'', Args = [''1''],
            errPos = 2, errLine = 1, errCol = 3\<rparr>"
  by (simp add: lex_eval parse_eval)

lemma ParseStatement_examples:
  "ParseStatement sub [] = Inr None"
  "ParseStatement sub '' ;; -- c'' = Inr None"
  "ParseStatement sub ''/* c */;'' = Inr None"
  by (simp_all add: lex_eval parse_eval)


end
